(* ===== verification/Prelude.thy ===== *)
theory Prelude
  imports Main "HOL-Library.Word"
begin

text \<open>
  The shared ground of the development: the machine types of the Go code, the outcome of a
  Go call (it returns, it panics, or it blocks for ever on a lock), sequencing of such calls,
  the little-endian byte encoding of machine words, and a few facts on lists that several
  components use.
\<close>

section \<open>Machine types\<close>

type_synonym byte = "8 word"
type_synonym bytes = "byte list"
type_synonym u32 = "32 word"
type_synonym u64 = "64 word"

text \<open>Go's \<open>int\<close> and \<open>int64\<close> are 64-bit two's complement words, read with \<open>sint\<close>.\<close>

type_synonym i64 = "64 word"

text \<open>A fixed-size array of the source (a hash, an address) is a byte list of that length.\<close>

type_synonym hash = bytes
type_synonym address = bytes

section \<open>Collections of facts\<close>

named_theorems outcome_simps \<open>how the outcome of a composed call is computed\<close>
named_theorems frame_simps \<open>fields that an operation leaves alone\<close>

section \<open>Outcomes of a Go call\<close>

text \<open>
  A call runs on a state of type \<open>'s\<close> (the receiver and what it owns). It returns a value, it
  panics, or it blocks for ever because it asks for a lock its own goroutine already holds. A
  panic and a block keep the state they were reached in: the process may recover from a panic,
  and other goroutines see the partial update.
\<close>

datatype ('a, 's) outcome =
  Returns 'a 's
| Panics 's
| Blocks 's

type_synonym ('a, 's) prog = "'s \<Rightarrow> ('a, 's) outcome"

abbreviation ret :: "'a \<Rightarrow> ('a, 's) prog" where
  "ret x \<equiv> Returns x"

abbreviation panic :: "('a, 's) prog" where
  "panic \<equiv> Panics"

definition seq :: "('a, 's) prog \<Rightarrow> ('a \<Rightarrow> ('b, 's) prog) \<Rightarrow> ('b, 's) prog" where
  "seq m f = (\<lambda>s. case m s of
      Returns x t \<Rightarrow> f x t
    | Panics t \<Rightarrow> Panics t
    | Blocks t \<Rightarrow> Blocks t)"

fun out_state :: "('a, 's) outcome \<Rightarrow> 's" where
  "out_state (Returns _ s) = s"
| "out_state (Panics s) = s"
| "out_state (Blocks s) = s"

fun returned :: "('a, 's) outcome \<Rightarrow> bool" where
  "returned (Returns _ _) = True"
| "returned (Panics _) = False"
| "returned (Blocks _) = False"

text \<open>Two results of one call agree.\<close>

lemma Returns_unique: "r = Returns x s \<Longrightarrow> r = Returns y t \<Longrightarrow> y = x \<and> t = s"
  by simp

lemma seq_Returns [outcome_simps]: "m s = Returns x t \<Longrightarrow> seq m f s = f x t"
  by (simp add: seq_def)

lemma seq_Panics [outcome_simps]: "m s = Panics t \<Longrightarrow> seq m f s = Panics t"
  by (simp add: seq_def)

lemma seq_Blocks [outcome_simps]: "m s = Blocks t \<Longrightarrow> seq m f s = Blocks t"
  by (simp add: seq_def)

lemma seq_ret [simp]: "seq (ret x) f = f x"
  by (simp add: seq_def)

lemma seq_panic [simp]: "seq panic f = panic"
  by (rule ext) (simp add: seq_def)

lemma seq_assoc: "seq (seq m f) g = seq m (\<lambda>x. seq (f x) g)"
  by (rule ext) (simp add: seq_def split: outcome.split)

lemma seq_eq_Returns:
  "seq m f s = Returns y u \<longleftrightarrow> (\<exists>x t. m s = Returns x t \<and> f x t = Returns y u)"
  by (simp add: seq_def split: outcome.split)

text \<open>
  A call keeps a relation \<open>R\<close> when its start state is related to the state it leaves, however
  it ends. For a preorder this composes along \<open>seq\<close>: frame conditions and invariants of a
  handler follow from those of its calls.
\<close>

definition keeps :: "('s \<Rightarrow> 's \<Rightarrow> bool) \<Rightarrow> ('a, 's) prog \<Rightarrow> bool" where
  "keeps R m \<longleftrightarrow> (\<forall>s. R s (out_state (m s)))"

locale state_preorder =
  fixes R :: "'s \<Rightarrow> 's \<Rightarrow> bool"
  assumes refl [simp]: "R s s"
    and trans: "R s t \<Longrightarrow> R t u \<Longrightarrow> R s u"
begin

lemma keeps_ret: "keeps R (ret x)"
  by (simp add: keeps_def)

lemma keeps_panic: "keeps R panic"
  by (simp add: keeps_def)

lemma keeps_seq:
  assumes m: "keeps R m" and f: "\<And>x. keeps R (f x)"
  shows "keeps R (seq m f)"
  unfolding keeps_def
proof
  fix s
  from m have "R s (out_state (m s))" by (simp add: keeps_def)
  moreover from f have "R t (out_state (f x t))" for x t by (simp add: keeps_def)
  ultimately show "R s (out_state (seq m f s))"
    by (cases "m s") (auto simp: seq_def intro: trans)
qed

lemma keeps_out: "keeps R m \<Longrightarrow> R s (out_state (m s))"
  by (simp add: keeps_def)

lemma keeps_Returns: "keeps R m \<Longrightarrow> m s = Returns x t \<Longrightarrow> R s t"
  using keeps_out [of m s] by simp

lemmas keeps_intros = keeps_ret keeps_panic keeps_seq

end

text \<open>A call is total in the sense of the lock discipline when it never blocks.\<close>

definition never_blocks :: "('a, 's) prog \<Rightarrow> bool" where
  "never_blocks m \<longleftrightarrow> (\<forall>s t. m s \<noteq> Blocks t)"

lemma never_blocks_ret [simp]: "never_blocks (ret x)"
  by (simp add: never_blocks_def)

lemma never_blocks_panic [simp]: "never_blocks panic"
  by (simp add: never_blocks_def)

lemma never_blocks_seq:
  "never_blocks m \<Longrightarrow> (\<And>x. never_blocks (f x)) \<Longrightarrow> never_blocks (seq m f)"
  by (auto simp: never_blocks_def seq_def split: outcome.split)

lemma outcome_case_cong [fundef_cong]:
  assumes "r = r'"
    and "\<And>x s. r' = Returns x s \<Longrightarrow> f x s = f' x s"
    and "\<And>s. r' = Panics s \<Longrightarrow> g s = g' s"
    and "\<And>s. r' = Blocks s \<Longrightarrow> h s = h' s"
  shows "(case r of Returns x s \<Rightarrow> f x s | Panics s \<Rightarrow> g s | Blocks s \<Rightarrow> h s)
    = (case r' of Returns x s \<Rightarrow> f' x s | Panics s \<Rightarrow> g' s | Blocks s \<Rightarrow> h' s)"
  using assms by (simp split: outcome.split)

section \<open>Little-endian encoding\<close>

text \<open>
  \<open>binary.LittleEndian.PutUint64\<close> stores byte \<open>i\<close> of the value at index \<open>i\<close>;
  \<open>binary.LittleEndian.Uint64\<close> reads the first eight bytes back.
\<close>

primrec le_bytes :: "nat \<Rightarrow> 'a::len word \<Rightarrow> bytes" where
  "le_bytes 0 w = []"
| "le_bytes (Suc n) w = ucast w # le_bytes n (drop_bit 8 w)"

primrec le_word :: "bytes \<Rightarrow> 'a::len word" where
  "le_word [] = 0"
| "le_word (b # bs) = or (ucast b) (push_bit 8 (le_word bs))"

lemma length_le_bytes [simp]: "length (le_bytes n w) = n"
  by (induction n arbitrary: w) simp_all

lemma le_word_le_bytes: "le_word (le_bytes n w) = take_bit (8 * n) (w :: 'a::len word)"
proof (induction n arbitrary: w)
  case 0
  show ?case by simp
next
  case (Suc n)
  show ?case
  proof (rule bit_word_eqI)
    fix i
    assume i: "i < LENGTH('a)"
    show "bit (le_word (le_bytes (Suc n) w) :: 'a word) i
        \<longleftrightarrow> bit (take_bit (8 * Suc n) w) i"
      using i
      by (cases "i < 8")
        (auto simp: Suc.IH bit_or_iff bit_push_bit_iff bit_take_bit_iff bit_drop_bit_eq
          bit_ucast_iff dest: bit_imp_le_length)
  qed
qed

lemma le_word_64: "le_word (le_bytes 8 (w :: 64 word)) = w"
  by (simp add: le_word_le_bytes take_bit_word_eq_self)

lemma le_bytes_inject_64: "le_bytes 8 v = le_bytes 8 (w :: 64 word) \<longleftrightarrow> v = w"
  by (metis le_word_64)

section \<open>Lists\<close>

lemma nth_append_last [simp]: "(xs @ [x]) ! length xs = x"
  by simp

lemma remove1_eq_filter: "distinct xs \<Longrightarrow> remove1 x xs = filter (\<lambda>y. y \<noteq> x) xs"
  by (auto simp: distinct_remove1_removeAll removeAll_filter_not_eq intro: filter_cong)

end
