(* ===== verification/Go_List.thy ===== *)
theory Go_List
  imports Prelude
begin

text \<open>
  The generic list of \<open>types/list.go\<close>: a struct with one slice. \<open>reflect.DeepEqual\<close>
  is the argument \<open>deq\<close> of the operations that compare elements. An index is a Go \<open>int\<close>;
  a read or a slice expression out of range panics, which is the value \<open>None\<close>. The loops over
  the indices are recursion on the rest of the slice with the index counted up.
\<close>

section \<open>The type and its operations\<close>

record 'a golist =
  Data :: "'a list"

definition NewList :: "'a golist" where
  "NewList = \<lparr>Data = []\<rparr>"

definition List_Len :: "'a golist \<Rightarrow> int" where
  "List_Len l = int (length (Data l))"

definition List_Get :: "'a golist \<Rightarrow> int \<Rightarrow> 'a option" where
  "List_Get l index =
     (if index > int (length (Data l)) - 1 then None
      else if index < 0 then None
      else Some (Data l ! nat index))"

definition List_Insert :: "'a golist \<Rightarrow> 'a \<Rightarrow> 'a golist" where
  "List_Insert l v = l\<lparr>Data := Data l @ [v]\<rparr>"

definition List_Clear :: "'a golist \<Rightarrow> 'a golist" where
  "List_Clear l = l\<lparr>Data := []\<rparr>"

fun index_from :: "('a \<Rightarrow> 'a \<Rightarrow> bool) \<Rightarrow> 'a \<Rightarrow> int \<Rightarrow> 'a list \<Rightarrow> int" where
  "index_from deq v i [] = -1"
| "index_from deq v i (x # xs) = (if deq v x then i else index_from deq v (i + 1) xs)"

definition List_GetIndex :: "('a \<Rightarrow> 'a \<Rightarrow> bool) \<Rightarrow> 'a golist \<Rightarrow> 'a \<Rightarrow> int" where
  "List_GetIndex deq l v = index_from deq v 0 (Data l)"

text \<open>\<open>append(l.Data[:index], l.Data[index+1:]...)\<close>: the second slice needs \<open>index+1 <= len\<close>.\<close>

definition List_Pop :: "'a golist \<Rightarrow> int \<Rightarrow> 'a golist option" where
  "List_Pop l index =
     (if index < 0 \<or> index + 1 > int (length (Data l)) then None
      else Some (l\<lparr>Data := take (nat index) (Data l) @ drop (nat (index + 1)) (Data l)\<rparr>))"

definition List_Remove :: "('a \<Rightarrow> 'a \<Rightarrow> bool) \<Rightarrow> 'a golist \<Rightarrow> 'a \<Rightarrow> 'a golist option" where
  "List_Remove deq l v =
     (let index = List_GetIndex deq l v
      in if index = -1 then Some l else List_Pop l index)"

fun contains_from :: "('a \<Rightarrow> 'a \<Rightarrow> bool) \<Rightarrow> 'a \<Rightarrow> 'a list \<Rightarrow> bool" where
  "contains_from deq v [] = False"
| "contains_from deq v (x # xs) = (if deq x v then True else contains_from deq v xs)"

definition List_Contains :: "('a \<Rightarrow> 'a \<Rightarrow> bool) \<Rightarrow> 'a golist \<Rightarrow> 'a \<Rightarrow> bool" where
  "List_Contains deq l v = contains_from deq v (Data l)"

definition List_Last :: "'a golist \<Rightarrow> 'a option" where
  "List_Last l =
     (let i = List_Len l - 1
      in if i < 0 then None else Some (Data l ! nat i))"

section \<open>What the loops compute\<close>

lemma index_from_bounds:
  "index_from deq v i xs = -1 \<or> (i \<le> index_from deq v i xs \<and> index_from deq v i xs < i + int (length xs))"
proof (induction xs arbitrary: i)
  case Nil
  show ?case by simp
next
  case (Cons x xs)
  from Cons.IH [of "i + 1"] show ?case by auto
qed

lemma index_from_eq_minus_1:
  "0 \<le> i \<Longrightarrow> index_from deq v i xs = -1 \<longleftrightarrow> (\<forall>x\<in>set xs. \<not> deq v x)"
  by (induction xs arbitrary: i) auto

lemma index_from_found:
  assumes "0 \<le> i" and "index_from deq v i xs = j" and "j \<noteq> -1"
  shows "i \<le> j \<and> nat (j - i) < length xs \<and> deq v (xs ! nat (j - i))
    \<and> (\<forall>k < nat (j - i). \<not> deq v (xs ! k))"
  using assms
proof (induction xs arbitrary: i)
  case Nil
  then show ?case by simp
next
  case (Cons x xs)
  show ?case
  proof (cases "deq v x")
    case True
    with Cons.prems show ?thesis by auto
  next
    case False
    with Cons.prems have eq: "index_from deq v (i + 1) xs = j" by simp
    with Cons.IH [of "i + 1"] Cons.prems
    have ih: "i + 1 \<le> j" "nat (j - (i + 1)) < length xs" "deq v (xs ! nat (j - (i + 1)))"
      "\<forall>k < nat (j - (i + 1)). \<not> deq v (xs ! k)" by auto
    then have s: "nat (j - i) = Suc (nat (j - (i + 1)))" by auto
    have "\<forall>k < nat (j - i). \<not> deq v ((x # xs) ! k)"
      using ih(4) False by (auto simp: s nth_Cons split: nat.split)
    with ih show ?thesis by (auto simp: s)
  qed
qed

lemma contains_from_iff: "contains_from deq v xs \<longleftrightarrow> (\<exists>x\<in>set xs. deq x v)"
  by (induction xs) auto

lemma index_from_shift:
  "0 \<le> i \<Longrightarrow> index_from deq v i xs \<noteq> -1 \<Longrightarrow>
   index_from deq v i xs = index_from deq v 0 xs + i"
proof (induction xs arbitrary: i)
  case Nil
  then show ?case by simp
next
  case (Cons x xs)
  show ?case
  proof (cases "deq v x")
    case True
    then show ?thesis by simp
  next
    case False
    with Cons.prems have "index_from deq v (i + 1) xs \<noteq> -1" by simp
    moreover from this Cons.prems have "index_from deq v 1 xs \<noteq> -1"
      by (simp add: index_from_eq_minus_1)
    ultimately show ?thesis
      using Cons.IH [of "i + 1"] Cons.IH [of 1] Cons.prems(1) False by simp
  qed
qed

text \<open>
  Removal never panics, and with equality of values it removes the first occurrence, as
  \<open>remove1\<close> of the library does.
\<close>

lemma List_Remove_eq: "List_Remove (=) l v = Some (l\<lparr>Data := remove1 v (Data l)\<rparr>)"
proof -
  have "(if index_from (=) v 0 xs = -1 then xs
      else take (nat (index_from (=) v 0 xs)) xs @ drop (nat (index_from (=) v 0 xs + 1)) xs)
      = remove1 v xs" for xs
  proof (induction xs)
    case Nil
    show ?case by simp
  next
    case (Cons x xs)
    show ?case
    proof (cases "v = x")
      case True
      then show ?thesis by simp
    next
      case False
      show ?thesis
      proof (cases "index_from (=) v 1 xs = -1")
        case True
        then have "index_from (=) v 0 xs = -1" by (simp add: index_from_eq_minus_1)
        with Cons.IH have "remove1 v xs = xs" by simp
        with True False show ?thesis by auto
      next
        case found: False
        then have ne: "index_from (=) v 0 xs \<noteq> -1" by (simp add: index_from_eq_minus_1)
        with index_from_bounds [of "(=)" v 0 xs] have pos: "0 \<le> index_from (=) v 0 xs" by simp
        from found have "index_from (=) v 1 xs = index_from (=) v 0 xs + 1"
          by (rule index_from_shift [rotated]) simp
        with Cons.IH ne pos False show ?thesis
          by (auto simp: nat_add_distrib)
      qed
    qed
  qed
  note loop = this [of "Data l"]
  show ?thesis
  proof (cases "index_from (=) v 0 (Data l) = -1")
    case True
    with loop show ?thesis by (simp add: List_Remove_def List_GetIndex_def)
  next
    case False
    with index_from_bounds [of "(=)" v 0 "Data l"]
    have "0 \<le> index_from (=) v 0 (Data l)"
      and "index_from (=) v 0 (Data l) + 1 \<le> int (length (Data l))" by auto
    with False loop show ?thesis
      by (simp add: List_Remove_def List_GetIndex_def List_Pop_def)
  qed
qed

section \<open>The contract the clients use\<close>

text \<open>
  A client of the list (the transaction pool) relies on these laws only. \<open>elems\<close> is the
  sequence a list value stands for; \<open>get\<close> and \<open>remove\<close> may panic.
\<close>

locale sequence_container =
  fixes empty :: "'l"
    and insert :: "'l \<Rightarrow> 'a \<Rightarrow> 'l"
    and remove :: "'l \<Rightarrow> 'a \<Rightarrow> 'l option"
    and get :: "'l \<Rightarrow> int \<Rightarrow> 'a option"
    and elems :: "'l \<Rightarrow> 'a list"
  assumes elems_empty: "elems empty = []"
    and elems_insert: "elems (insert l v) = elems l @ [v]"
    and remove_total: "remove l v \<noteq> None"
    and elems_remove: "remove l v = Some l' \<Longrightarrow> elems l' = remove1 v (elems l)"
    and get_in_range: "0 \<le> i \<Longrightarrow> i < int (length (elems l)) \<Longrightarrow> get l i = Some (elems l ! nat i)"
    and get_panics: "i < 0 \<or> int (length (elems l)) \<le> i \<Longrightarrow> get l i = None"
begin

lemma get_first: "get l 0 = (case elems l of [] \<Rightarrow> None | x # _ \<Rightarrow> Some x)"
  by (cases "elems l") (simp_all add: get_in_range get_panics)

lemma remove_cases:
  obtains l' where "remove l v = Some l'" and "elems l' = remove1 v (elems l)"
  using remove_total elems_remove by (metis not_Some_eq)

lemma insert_then_get_last: "get (insert l v) (int (length (elems l))) = Some v"
  by (subst get_in_range) (simp_all add: elems_insert)

lemma insert_remove_new:
  assumes "v \<notin> set (elems l)" and "remove (insert l v) v = Some l'"
  shows "elems l' = elems l"
  using elems_remove [OF assms(2)] assms(1) by (simp add: elems_insert remove1_append)

end

interpretation golist: sequence_container NewList List_Insert "List_Remove (=)" List_Get Data
  by unfold_locales
    (auto simp: NewList_def List_Insert_def List_Remove_eq List_Get_def)

section \<open>Properties of the list\<close>

lemma List_GetIndex_least_index:
  "List_GetIndex deq l v = j \<Longrightarrow> j \<noteq> -1 \<Longrightarrow>
   0 \<le> j \<and> j < List_Len l \<and> deq v (Data l ! nat j) \<and> (\<forall>k < nat j. \<not> deq v (Data l ! k))"
  using index_from_found [of 0 deq v "Data l" j]
  by (auto simp: List_GetIndex_def List_Len_def)

lemma List_GetIndex_absent: "List_GetIndex deq l v = -1 \<longleftrightarrow> (\<forall>x\<in>set (Data l). \<not> deq v x)"
  by (simp add: List_GetIndex_def index_from_eq_minus_1)

lemma List_Contains_iff: "List_Contains deq l v \<longleftrightarrow> (\<exists>x\<in>set (Data l). deq x v)"
  by (simp add: List_Contains_def contains_from_iff)

lemma List_Last_Insert: "List_Last (List_Insert l v) = Some v"
  by (simp add: List_Last_def List_Insert_def List_Len_def)

end
