(* ===== verification/Hash_Address.thy ===== *)
theory Hash_Address
  imports Prelude
begin

text \<open>
  \<open>types/hash.go\<close> and \<open>types/address.go\<close>: 32-byte hashes and 20-byte addresses, the
  conversions from slices (which panic on a wrong length), and their hexadecimal form. The
  functions of \<open>encoding/hex\<close> they call are written out: lower-case digits on encoding,
  either case on decoding, an error on an odd length or a character that is no digit.
\<close>

section \<open>Hexadecimal text\<close>

definition hextable :: string where
  "hextable = ''0123456789abcdef''"

definition hex_digit :: "byte \<Rightarrow> char" where
  "hex_digit d = hextable ! unat d"

fun EncodeToString :: "bytes \<Rightarrow> string" where
  "EncodeToString [] = []"
| "EncodeToString (b # bs) =
     hex_digit (drop_bit 4 b) # hex_digit (take_bit 4 b) # EncodeToString bs"

definition from_hex_char :: "char \<Rightarrow> byte option" where
  "from_hex_char c =
     (let n = of_char c :: nat in
      if 48 \<le> n \<and> n \<le> 57 then Some (of_nat (n - 48))
      else if 97 \<le> n \<and> n \<le> 102 then Some (of_nat (n - 97 + 10))
      else if 65 \<le> n \<and> n \<le> 70 then Some (of_nat (n - 65 + 10))
      else None)"

fun DecodeString :: "string \<Rightarrow> bytes option" where
  "DecodeString [] = Some []"
| "DecodeString [c] = None"
| "DecodeString (c # d # cs) =
     (case (from_hex_char c, from_hex_char d) of
        (Some h, Some l) \<Rightarrow>
          (case DecodeString cs of
             Some bs \<Rightarrow> Some (or (push_bit 4 h) l # bs)
           | None \<Rightarrow> None)
      | _ \<Rightarrow> None)"

section \<open>Hashes\<close>

definition zero_hash :: hash where
  "zero_hash = replicate 32 0"

fun all_zero :: "bytes \<Rightarrow> bool" where
  "all_zero [] = True"
| "all_zero (b # bs) = (if b \<noteq> 0 then False else all_zero bs)"

text \<open>The loop of \<open>IsZero\<close> runs over the 32 bytes of the array.\<close>

definition Hash_IsZero :: "hash \<Rightarrow> bool" where
  "Hash_IsZero h = all_zero h"

definition Hash_ToSlice :: "hash \<Rightarrow> bytes" where
  "Hash_ToSlice h = map (\<lambda>i. h ! i) [0..<length h]"

definition Hash_String :: "hash \<Rightarrow> string" where
  "Hash_String h = EncodeToString (Hash_ToSlice h)"

definition HashFromBytes :: "bytes \<Rightarrow> hash option" where
  "HashFromBytes b = (if length b \<noteq> 32 then None else Some b)"

definition HashFromString :: "string \<Rightarrow> hash option" where
  "HashFromString s = (case DecodeString s of None \<Rightarrow> None | Some b \<Rightarrow> HashFromBytes b)"

section \<open>Addresses\<close>

definition Address_ToSlice :: "address \<Rightarrow> bytes" where
  "Address_ToSlice a = map (\<lambda>i. a ! i) [0..<length a]"

definition Address_String :: "address \<Rightarrow> string" where
  "Address_String a = EncodeToString (Address_ToSlice a)"

definition AddressFromBytes :: "bytes \<Rightarrow> address option" where
  "AddressFromBytes b = (if length b \<noteq> 20 then None else Some b)"

section \<open>Facts\<close>

lemma Hash_ToSlice_id [simp]: "Hash_ToSlice h = h"
  by (simp add: Hash_ToSlice_def map_nth)

lemma Address_ToSlice_id [simp]: "Address_ToSlice a = a"
  by (simp add: Address_ToSlice_def map_nth)

lemma all_zero_iff: "all_zero bs \<longleftrightarrow> bs = replicate (length bs) 0"
  by (induction bs) auto

lemma Hash_IsZero_iff: "length h = 32 \<Longrightarrow> Hash_IsZero h \<longleftrightarrow> h = zero_hash"
  by (simp add: Hash_IsZero_def all_zero_iff zero_hash_def)

lemma Hash_IsZero_zero [simp]: "Hash_IsZero zero_hash"
  by (simp add: Hash_IsZero_def all_zero_iff zero_hash_def)

lemma nibbles_join: "or (push_bit 4 (drop_bit 4 b)) (take_bit 4 b) = (b :: byte)"
  by (rule bit_word_eqI) (auto simp: bit_simps)

lemma digit_cases:
  "n < (16::nat) \<Longrightarrow> n \<in> {0, 1, 2, 3, 4, 5, 6, 7, 8, 9, 10, 11, 12, 13, 14, 15}"
  by simp presburger

lemma from_hex_digit_nat: "n < 16 \<Longrightarrow> from_hex_char (hextable ! n) = Some (of_nat n)"
  by (drule digit_cases) (auto simp: hextable_def from_hex_char_def Let_def)

lemma from_hex_digit: "unat d < 16 \<Longrightarrow> from_hex_char (hex_digit d) = Some d"
  by (simp add: hex_digit_def from_hex_digit_nat)

lemma high_nibble_bound: "unat (drop_bit 4 (b :: byte)) < 16"
proof -
  have "unat b < 2 ^ LENGTH(8)" by (rule unsigned_less)
  then show ?thesis unfolding unat_drop_bit_eq by (simp add: drop_bit_eq_div)
qed

lemma low_nibble_bound: "unat (take_bit 4 (b :: byte)) < 16"
  by (simp add: unsigned_take_bit_eq take_bit_nat_less_exp [of 4, simplified])

lemma DecodeString_EncodeToString [simp]: "DecodeString (EncodeToString bs) = Some bs"
  by (induction bs)
    (simp_all add: from_hex_digit high_nibble_bound low_nibble_bound nibbles_join)

lemma EncodeToString_inject [simp]: "EncodeToString a = EncodeToString b \<longleftrightarrow> a = b"
  by (metis DecodeString_EncodeToString option.inject)

lemma Address_String_inject [simp]: "Address_String a = Address_String b \<longleftrightarrow> a = b"
  by (simp add: Address_String_def)

lemma length_EncodeToString: "length (EncodeToString bs) = 2 * length bs"
  by (induction bs) simp_all

lemma DecodeString_length: "DecodeString s = Some bs \<Longrightarrow> length s = 2 * length bs"
  by (induction s arbitrary: bs rule: DecodeString.induct)
    (auto split: option.splits)

section \<open>Properties\<close>

text \<open>
  The hexadecimal text of a 32-byte hash parses back to the hash, and a text parses to a
  hash only if it has 64 characters; otherwise \<open>HashFromString\<close> panics.
\<close>

theorem HashFromString_roundtrip:
  "(length h = 32 \<longrightarrow> HashFromString (Hash_String h) = Some h)
   \<and> (length s \<noteq> 64 \<longrightarrow> HashFromString s = None)"
proof -
  have "HashFromString s = None" if "length s \<noteq> 64"
    using that DecodeString_length [of s]
    by (auto simp: HashFromString_def HashFromBytes_def split: option.split)
  then show ?thesis
    by (simp add: HashFromString_def Hash_String_def HashFromBytes_def)
qed

theorem HashFromString_roundtrip_witness:
  "HashFromString (Hash_String (replicate 32 171)) = Some (replicate 32 171)
   \<and> HashFromString ''ab'' = None"
  using HashFromString_roundtrip [of "replicate 32 171" "''ab''"] by simp

end
