(* ===== verification/Keypair.thy ===== *)
theory Keypair
  imports Hash_Address
begin

text \<open>
  \<open>crypto/keypair.go\<close>: keys, signatures and the address of a public key. The primitives of
  the Go standard library it calls are arguments of the definitions, gathered in the record
  \<open>crypto_prims\<close>: \<open>sha256.Sum256\<close>, \<open>ecdsa.Verify\<close> on the key that
  \<open>elliptic.UnmarshalCompressed\<close> reads (\<open>None\<close> where the call panics, on a key that is no
  point of the curve or on a missing number), \<open>ecdsa.Sign\<close> with its randomness as an argument
  (\<open>None\<close> is its error), and \<open>elliptic.MarshalCompressed\<close> of the key's point. What the code
  relies on is stated by \<open>sha_fixed_length\<close> and \<open>signatures_verify\<close>.
\<close>

section \<open>The primitives\<close>

type_synonym PublicKey = bytes

text \<open>A private key is its secret number; its point is a function of that number.\<close>

type_synonym PrivateKey = nat

text \<open>The two \<open>*big.Int\<close> of a signature; a decoded signature may lack either.\<close>

record Signature =
  sig_S :: "int option"
  sig_R :: "int option"

record crypto_prims =
  sha256 :: "bytes \<Rightarrow> hash"
  ecdsa_verify :: "PublicKey \<Rightarrow> bytes \<Rightarrow> int option \<Rightarrow> int option \<Rightarrow> bool option"
  ecdsa_sign :: "PrivateKey \<Rightarrow> nat \<Rightarrow> bytes \<Rightarrow> (int \<times> int) option"
  marshal_public :: "PrivateKey \<Rightarrow> PublicKey"

text \<open>SHA-256 has 32 bytes of output.\<close>

definition sha_fixed_length :: "'z crypto_prims_scheme \<Rightarrow> bool" where
  "sha_fixed_length P \<longleftrightarrow> (\<forall>m. length (sha256 P m) = 32)"

text \<open>A signature made with a key verifies under the key's public point.\<close>

definition signatures_verify :: "'z crypto_prims_scheme \<Rightarrow> bool" where
  "signatures_verify P \<longleftrightarrow>
     (\<forall>k rnd m r s. ecdsa_sign P k rnd m = Some (r, s) \<longrightarrow>
        ecdsa_verify P (marshal_public P k) m (Some r) (Some s) = Some True)"

section \<open>Operations\<close>

definition PrivateKey_PublicKey :: "'z crypto_prims_scheme \<Rightarrow> PrivateKey \<Rightarrow> PublicKey" where
  "PrivateKey_PublicKey P k = marshal_public P k"

text \<open>
  \<open>generate\<close> stands for \<open>ecdsa.GenerateKey\<close> on the curve; its error is a panic, \<open>None\<close>. \<open>reader\<close> is the
  state of the system's random source.
\<close>

definition NewPrivateKeyFromReader :: "('r \<Rightarrow> PrivateKey option) \<Rightarrow> 'r \<Rightarrow> PrivateKey option" where
  "NewPrivateKeyFromReader generate r = (case generate r of None \<Rightarrow> None | Some key \<Rightarrow> Some key)"

definition GeneratePrivateKey :: "('r \<Rightarrow> PrivateKey option) \<Rightarrow> 'r \<Rightarrow> PrivateKey option" where
  "GeneratePrivateKey generate reader = NewPrivateKeyFromReader generate reader"

text \<open>\<open>None\<close> is the error of the signer; \<open>rnd\<close> is what \<open>rand.Reader\<close> supplies.\<close>

definition PrivateKey_Sign ::
  "'z crypto_prims_scheme \<Rightarrow> PrivateKey \<Rightarrow> nat \<Rightarrow> bytes \<Rightarrow> Signature option" where
  "PrivateKey_Sign P k rnd data =
     (case ecdsa_sign P k rnd data of
        None \<Rightarrow> None
      | Some (r, s) \<Rightarrow> Some \<lparr>sig_S = Some s, sig_R = Some r\<rparr>)"

text \<open>\<open>None\<close> is a panic.\<close>

definition Signature_Verify ::
  "'z crypto_prims_scheme \<Rightarrow> Signature \<Rightarrow> PublicKey \<Rightarrow> bytes \<Rightarrow> bool option" where
  "Signature_Verify P sg pubKey data = ecdsa_verify P pubKey data (sig_R sg) (sig_S sg)"

definition PublicKey_String :: "PublicKey \<Rightarrow> string" where
  "PublicKey_String k = EncodeToString k"

text \<open>The last 20 bytes of the hash of the key; a panic if the slice is not of that length.\<close>

definition PublicKey_Address :: "'z crypto_prims_scheme \<Rightarrow> PublicKey \<Rightarrow> address option" where
  "PublicKey_Address P k =
     (let h = sha256 P k in AddressFromBytes (drop (length h - 20) h))"

text \<open>\<open>big.Int.Bytes\<close>: the absolute value, most significant byte first, no leading zero.\<close>

fun big_bytes :: "nat \<Rightarrow> bytes" where
  "big_bytes n = (if n = 0 then [] else big_bytes (n div 256) @ [of_nat (n mod 256)])"

declare big_bytes.simps [simp del]

definition Signature_String :: "Signature \<Rightarrow> string option" where
  "Signature_String sg =
     (case (sig_S sg, sig_R sg) of
        (Some s, Some r) \<Rightarrow> Some (EncodeToString (big_bytes (nat \<bar>s\<bar>) @ big_bytes (nat \<bar>r\<bar>)))
      | _ \<Rightarrow> None)"

section \<open>Facts\<close>

lemma PublicKey_Address_total:
  "sha_fixed_length P \<Longrightarrow> \<exists>a. PublicKey_Address P k = Some a \<and> length a = 20"
  by (simp add: sha_fixed_length_def PublicKey_Address_def AddressFromBytes_def)

lemma Sign_then_Verify:
  "signatures_verify P \<Longrightarrow> PrivateKey_Sign P k rnd m = Some sg \<Longrightarrow>
   Signature_Verify P sg (PrivateKey_PublicKey P k) m = Some True"
  by (auto simp: PrivateKey_Sign_def Signature_Verify_def PrivateKey_PublicKey_def
      signatures_verify_def split: option.splits prod.splits)

lemma PrivateKey_Sign_complete:
  "PrivateKey_Sign P k rnd m = Some sg \<Longrightarrow> sig_S sg \<noteq> None \<and> sig_R sg \<noteq> None"
  by (auto simp: PrivateKey_Sign_def split: option.splits)

lemma Signature_String_total:
  "PrivateKey_Sign P k rnd m = Some sg \<Longrightarrow> Signature_String sg \<noteq> None"
  by (auto simp: PrivateKey_Sign_def Signature_String_def split: option.splits)

section \<open>Concrete primitives for evaluation\<close>

text \<open>
  A checksum in place of SHA-256, and signatures that carry the key and the length of what is
  signed: primitives on which closed instances of the theorems evaluate.
\<close>

definition demo_sha :: "bytes \<Rightarrow> hash" where
  "demo_sha m = 7 # sum_list m # of_nat (length m) # replicate 29 0"

definition demo_prims :: crypto_prims where
  "demo_prims = \<lparr>
     sha256 = demo_sha,
     ecdsa_verify = (\<lambda>pub m r s.
       case (r, s) of
         (Some r', Some s') \<Rightarrow> Some (pub = [of_int r'] \<and> s' = int (unat (sum_list m)))
       | _ \<Rightarrow> None),
     ecdsa_sign = (\<lambda>k rnd m. Some (int k, int (unat (sum_list m)))),
     marshal_public = (\<lambda>k. [of_nat k])\<rparr>"

lemma demo_sha_fixed: "length (demo_sha m) = 32"
  by (simp add: demo_sha_def)

lemma demo_sha_nonzero [simp]: "\<not> Hash_IsZero (demo_sha m)"
  by (simp add: Hash_IsZero_def demo_sha_def)

lemma demo_prims_ok: "sha_fixed_length demo_prims \<and> signatures_verify demo_prims"
  by (auto simp: sha_fixed_length_def signatures_verify_def demo_prims_def demo_sha_def)

end
