(* ===== verification/Sha256.thy ===== *)
theory Sha256
  imports Prelude
begin

text \<open>
  SHA-256 (FIPS 180-4), the function \<open>sha256.Sum256\<close> of the Go standard library, executable.
  The rest of the development takes the hash as an argument; this instance is what ties the
  address constant in \<open>AccountState.Transfer\<close> to the empty public key.
\<close>

unbundle bit_operations_syntax

text \<open>
  The 32-bit words of the algorithm are integers from 0 up to \<open>2 ^ 32\<close>, every sum and shift
  reduced: the kernel evaluates such numerals directly.
\<close>

definition w32 :: "int \<Rightarrow> int" where
  "w32 x = x mod 4294967296"

definition rotr :: "nat \<Rightarrow> int \<Rightarrow> int" where
  "rotr n x = x div 2 ^ n + (x mod 2 ^ n) * 2 ^ (32 - n)"

definition Sigma0 :: "int \<Rightarrow> int" where
  "Sigma0 x = rotr 2 x XOR rotr 13 x XOR rotr 22 x"

definition Sigma1 :: "int \<Rightarrow> int" where
  "Sigma1 x = rotr 6 x XOR rotr 11 x XOR rotr 25 x"

definition sigma0 :: "int \<Rightarrow> int" where
  "sigma0 x = rotr 7 x XOR rotr 18 x XOR (x div 2 ^ 3)"

definition sigma1 :: "int \<Rightarrow> int" where
  "sigma1 x = rotr 17 x XOR rotr 19 x XOR (x div 2 ^ 10)"

definition Ch :: "int \<Rightarrow> int \<Rightarrow> int \<Rightarrow> int" where
  "Ch x y z = (x AND y) XOR ((4294967295 - x) AND z)"

definition Maj :: "int \<Rightarrow> int \<Rightarrow> int \<Rightarrow> int" where
  "Maj x y z = (x AND y) XOR (x AND z) XOR (y AND z)"

definition round_constants :: "int list" where
  "round_constants =
    [0x428a2f98, 0x71374491, 0xb5c0fbcf, 0xe9b5dba5, 0x3956c25b, 0x59f111f1, 0x923f82a4, 0xab1c5ed5]
    @ [0xd807aa98, 0x12835b01, 0x243185be, 0x550c7dc3, 0x72be5d74, 0x80deb1fe, 0x9bdc06a7, 0xc19bf174]
    @ [0xe49b69c1, 0xefbe4786, 0x0fc19dc6, 0x240ca1cc, 0x2de92c6f, 0x4a7484aa, 0x5cb0a9dc, 0x76f988da]
    @ [0x983e5152, 0xa831c66d, 0xb00327c8, 0xbf597fc7, 0xc6e00bf3, 0xd5a79147, 0x06ca6351, 0x14292967]
    @ [0x27b70a85, 0x2e1b2138, 0x4d2c6dfc, 0x53380d13, 0x650a7354, 0x766a0abb, 0x81c2c92e, 0x92722c85]
    @ [0xa2bfe8a1, 0xa81a664b, 0xc24b8b70, 0xc76c51a3, 0xd192e819, 0xd6990624, 0xf40e3585, 0x106aa070]
    @ [0x19a4c116, 0x1e376c08, 0x2748774c, 0x34b0bcb5, 0x391c0cb3, 0x4ed8aa4a, 0x5b9cca4f, 0x682e6ff3]
    @ [0x748f82ee, 0x78a5636f, 0x84c87814, 0x8cc70208, 0x90befffa, 0xa4506ceb, 0xbef9a3f7, 0xc67178f2]"

type_synonym sha_state = "int \<times> int \<times> int \<times> int \<times> int \<times> int \<times> int \<times> int"

definition initial_hash :: sha_state where
  "initial_hash = (0x6a09e667, 0xbb67ae85, 0x3c6ef372, 0xa54ff53a,
     0x510e527f, 0x9b05688c, 0x1f83d9ab, 0x5be0cd19)"

text \<open>
  The message schedule is kept as a window of the last sixteen words: each round uses the oldest
  and appends the next one.
\<close>

fun next_word :: "int list \<Rightarrow> int" where
  "next_word w = w32 (sigma1 (w ! 14) + w ! 9 + sigma0 (w ! 1) + w ! 0)"

fun sha_round :: "int \<Rightarrow> int \<Rightarrow> sha_state \<Rightarrow> sha_state" where
  "sha_round k w (a, b, c, d, e, f, g, h) =
     (let t1 = w32 (h + Sigma1 e + Ch e f g + k + w);
          t2 = w32 (Sigma0 a + Maj a b c)
      in (w32 (t1 + t2), a, b, c, w32 (d + t1), e, f, g))"

fun sha_rounds :: "int list \<Rightarrow> int list \<Rightarrow> sha_state \<Rightarrow> sha_state" where
  "sha_rounds [] ws s = s"
| "sha_rounds (k # ks) ws s =
     sha_rounds ks (tl ws @ [next_word ws]) (sha_round k (hd ws) s)"

fun add_state :: "sha_state \<Rightarrow> sha_state \<Rightarrow> sha_state" where
  "add_state (a, b, c, d, e, f, g, h) (a', b', c', d', e', f', g', h')
    = (w32 (a + a'), w32 (b + b'), w32 (c + c'), w32 (d + d'),
       w32 (e + e'), w32 (f + f'), w32 (g + g'), w32 (h + h'))"

definition sha_block :: "sha_state \<Rightarrow> int list \<Rightarrow> sha_state" where
  "sha_block s ws = add_state s (sha_rounds round_constants ws s)"

text \<open>Big-endian words.\<close>

fun be_words :: "bytes \<Rightarrow> int list" where
  "be_words (a # b # c # d # bs) =
     (((uint a * 256 + uint b) * 256 + uint c) * 256 + uint d) # be_words bs"
| "be_words _ = []"

definition be_bytes32 :: "int \<Rightarrow> bytes" where
  "be_bytes32 w = [of_int (w div 16777216), of_int (w div 65536 mod 256),
     of_int (w div 256 mod 256), of_int (w mod 256)]"

definition pad_message :: "bytes \<Rightarrow> bytes" where
  "pad_message m = m @ [0x80]
     @ replicate (nat ((55 - int (length m)) mod 64)) 0
     @ rev (le_bytes 8 (of_nat (8 * length m) :: u64))"

fun sha_blocks :: "sha_state \<Rightarrow> int list \<Rightarrow> sha_state" where
  "sha_blocks s ws =
     (if length ws < 16 then s else sha_blocks (sha_block s (take 16 ws)) (drop 16 ws))"

declare sha_blocks.simps [simp del]

fun state_bytes :: "sha_state \<Rightarrow> bytes" where
  "state_bytes (a, b, c, d, e, f, g, h) = concat (map be_bytes32 [a, b, c, d, e, f, g, h])"

definition Sum256 :: "bytes \<Rightarrow> hash" where
  "Sum256 m = state_bytes (sha_blocks initial_hash (be_words (pad_message m)))"

lemma length_Sum256 [simp]: "length (Sum256 m) = 32"
proof -
  have "length (state_bytes s) = 32" for s
    by (cases s rule: state_bytes.cases) (simp add: be_bytes32_def)
  then show ?thesis by (simp add: Sum256_def)
qed

section \<open>The hash of the empty message\<close>

text \<open>
  The 64 rounds on the one block of the empty message, eight at a time, by the simplifier's
  arithmetic on numerals.
\<close>

lemmas sha_eval = Sigma0_def Sigma1_def sigma0_def sigma1_def rotr_def Ch_def Maj_def w32_def

lemma rounds_0:
  "sha_rounds (0x428a2f98 # 0x71374491 # 0xb5c0fbcf # 0xe9b5dba5 # 0x3956c25b # 0x59f111f1 # 0x923f82a4
       # 0xab1c5ed5 # ks)
     [0x80000000, 0x0, 0x0, 0x0, 0x0, 0x0, 0x0, 0x0, 0x0, 0x0, 0x0, 0x0, 0x0, 0x0, 0x0, 0x0]
     (0x6a09e667, 0xbb67ae85, 0x3c6ef372, 0xa54ff53a, 0x510e527f, 0x9b05688c, 0x1f83d9ab,
      0x5be0cd19)
   = sha_rounds ks
     [0x0, 0x0, 0x0, 0x0, 0x0, 0x0, 0x0, 0x0, 0x80000000, 0x0, 0x205000, 0x0, 0x22000800, 0x0,
      0x5089542, 0x80000000]
     (0x7ad5b1b6, 0xf0205590, 0x292e3b42, 0x4366f730, 0x53f94dcb, 0x82ede06f, 0x4f6540fa,
      0xe7d0641e)"
  by (simp add: sha_eval)

lemma rounds_1:
  "sha_rounds (0xd807aa98 # 0x12835b01 # 0x243185be # 0x550c7dc3 # 0x72be5d74 # 0x80deb1fe # 0x9bdc06a7
       # 0xc19bf174 # ks)
     [0x0, 0x0, 0x0, 0x0, 0x0, 0x0, 0x0, 0x0, 0x80000000, 0x0, 0x205000, 0x0, 0x22000800, 0x0,
      0x5089542, 0x80000000]
     (0x7ad5b1b6, 0xf0205590, 0x292e3b42, 0x4366f730, 0x53f94dcb, 0x82ede06f, 0x4f6540fa,
      0xe7d0641e)
   = sha_rounds ks
     [0x80000000, 0x0, 0x205000, 0x0, 0x22000800, 0x0, 0x5089542, 0x80000000, 0x58080000,
      0x40a000, 0x162505, 0x66001800, 0xd6222580, 0x14225508, 0xd645f95c, 0xc9282000]
     (0xb40085b5, 0xb88afddb, 0x45c013a7, 0x2102d2cd, 0x5cb8e863, 0x1ccfac39, 0x2b427296,
      0xcdfdfe52)"
  by (simp add: sha_eval)

lemma rounds_2:
  "sha_rounds (0xe49b69c1 # 0xefbe4786 # 0xfc19dc6 # 0x240ca1cc # 0x2de92c6f # 0x4a7484aa # 0x5cb0a9dc
       # 0x76f988da # ks)
     [0x80000000, 0x0, 0x205000, 0x0, 0x22000800, 0x0, 0x5089542, 0x80000000, 0x58080000,
      0x40a000, 0x162505, 0x66001800, 0xd6222580, 0x14225508, 0xd645f95c, 0xc9282000]
     (0xb40085b5, 0xb88afddb, 0x45c013a7, 0x2102d2cd, 0x5cb8e863, 0x1ccfac39, 0x2b427296,
      0xcdfdfe52)
   = sha_rounds ks
     [0x58080000, 0x40a000, 0x162505, 0x66001800, 0xd6222580, 0x14225508, 0xd645f95c,
      0xc9282000, 0xc3f10094, 0x284ca766, 0x6886dc6, 0xa37bf116, 0x717cbe96, 0xfec2d74a,
      0xa7b67f00, 0x811596a2]
     (0x985bed55, 0x404d8054, 0x99a6cb19, 0x75c7f0d8, 0x2c2c028d, 0xb1653710, 0xc287981e,
      0x39953ccd)"
  by (simp add: sha_eval)

lemma rounds_3:
  "sha_rounds (0x983e5152 # 0xa831c66d # 0xb00327c8 # 0xbf597fc7 # 0xc6e00bf3 # 0xd5a79147 # 0x6ca6351
       # 0x14292967 # ks)
     [0x58080000, 0x40a000, 0x162505, 0x66001800, 0xd6222580, 0x14225508, 0xd645f95c,
      0xc9282000, 0xc3f10094, 0x284ca766, 0x6886dc6, 0xa37bf116, 0x717cbe96, 0xfec2d74a,
      0xa7b67f00, 0x811596a2]
     (0x985bed55, 0x404d8054, 0x99a6cb19, 0x75c7f0d8, 0x2c2c028d, 0xb1653710, 0xc287981e,
      0x39953ccd)
   = sha_rounds ks
     [0xc3f10094, 0x284ca766, 0x6886dc6, 0xa37bf116, 0x717cbe96, 0xfec2d74a, 0xa7b67f00,
      0x811596a2, 0x98a6e768, 0x3b20c82, 0x5d1da7c9, 0xb156b935, 0xc3ddca11, 0x249c107f,
      0xc48d24ef, 0x5de54c30]
     (0x11e7025f, 0xa0bb0cdf, 0x72d3a00d, 0x64bc9e1c, 0xbbd7846c, 0x564a6626, 0xb04ab22d,
      0x95696b75)"
  by (simp add: sha_eval)

lemma rounds_4:
  "sha_rounds (0x27b70a85 # 0x2e1b2138 # 0x4d2c6dfc # 0x53380d13 # 0x650a7354 # 0x766a0abb # 0x81c2c92e
       # 0x92722c85 # ks)
     [0xc3f10094, 0x284ca766, 0x6886dc6, 0xa37bf116, 0x717cbe96, 0xfec2d74a, 0xa7b67f00,
      0x811596a2, 0x98a6e768, 0x3b20c82, 0x5d1da7c9, 0xb156b935, 0xc3ddca11, 0x249c107f,
      0xc48d24ef, 0x5de54c30]
     (0x11e7025f, 0xa0bb0cdf, 0x72d3a00d, 0x64bc9e1c, 0xbbd7846c, 0x564a6626, 0xb04ab22d,
      0x95696b75)
   = sha_rounds ks
     [0x98a6e768, 0x3b20c82, 0x5d1da7c9, 0xb156b935, 0xc3ddca11, 0x249c107f, 0xc48d24ef,
      0x5de54c30, 0xdefece65, 0x2ca1480d, 0x3c15332c, 0x1cec9ad, 0x160cccd0, 0xbacda98,
      0x361b8fe0, 0xd2320ba6]
     (0x499911b1, 0x9e58e42f, 0x56e3dc4e, 0xa096535d, 0x716bb025, 0x85a71424, 0xe807ea7f,
      0xfac06aed)"
  by (simp add: sha_eval)

lemma rounds_5:
  "sha_rounds (0xa2bfe8a1 # 0xa81a664b # 0xc24b8b70 # 0xc76c51a3 # 0xd192e819 # 0xd6990624 # 0xf40e3585
       # 0x106aa070 # ks)
     [0x98a6e768, 0x3b20c82, 0x5d1da7c9, 0xb156b935, 0xc3ddca11, 0x249c107f, 0xc48d24ef,
      0x5de54c30, 0xdefece65, 0x2ca1480d, 0x3c15332c, 0x1cec9ad, 0x160cccd0, 0xbacda98,
      0x361b8fe0, 0xd2320ba6]
     (0x499911b1, 0x9e58e42f, 0x56e3dc4e, 0xa096535d, 0x716bb025, 0x85a71424, 0xe807ea7f,
      0xfac06aed)
   = sha_rounds ks
     [0xdefece65, 0x2ca1480d, 0x3c15332c, 0x1cec9ad, 0x160cccd0, 0xbacda98, 0x361b8fe0,
      0xd2320ba6, 0x29b7007, 0x7546587c, 0x7f54f39, 0xf808ddc3, 0xdcca7608, 0x5e427188,
      0x44bcec5d, 0x3b5ec49b]
     (0x365a34cd, 0x54982d6c, 0x32fa442b, 0xa40972d4, 0xcbb3f8eb, 0x8a6a82b2, 0xd285c679,
      0xaa2c1810)"
  by (simp add: sha_eval)

lemma rounds_6:
  "sha_rounds (0x19a4c116 # 0x1e376c08 # 0x2748774c # 0x34b0bcb5 # 0x391c0cb3 # 0x4ed8aa4a # 0x5b9cca4f
       # 0x682e6ff3 # ks)
     [0xdefece65, 0x2ca1480d, 0x3c15332c, 0x1cec9ad, 0x160cccd0, 0xbacda98, 0x361b8fe0,
      0xd2320ba6, 0x29b7007, 0x7546587c, 0x7f54f39, 0xf808ddc3, 0xdcca7608, 0x5e427188,
      0x44bcec5d, 0x3b5ec49b]
     (0x365a34cd, 0x54982d6c, 0x32fa442b, 0xa40972d4, 0xcbb3f8eb, 0x8a6a82b2, 0xd285c679,
      0xaa2c1810)
   = sha_rounds ks
     [0x29b7007, 0x7546587c, 0x7f54f39, 0xf808ddc3, 0xdcca7608, 0x5e427188, 0x44bcec5d,
      0x3b5ec49b, 0x8dc76d8c, 0x29847c1, 0x77c3bc44, 0x9b8acc43, 0x25cb445b, 0xb5506e61,
      0x11356af7, 0x6d22c991]
     (0x1638014, 0x2caf58ca, 0x3a0e9477, 0xb1b29c90, 0xadf94e0a, 0xe588e598, 0xfd99936e,
      0x43a5def8)"
  by (simp add: sha_eval)

lemma rounds_7:
  "sha_rounds (0x748f82ee # 0x78a5636f # 0x84c87814 # 0x8cc70208 # 0x90befffa # 0xa4506ceb # 0xbef9a3f7
       # 0xc67178f2 # ks)
     [0x29b7007, 0x7546587c, 0x7f54f39, 0xf808ddc3, 0xdcca7608, 0x5e427188, 0x44bcec5d,
      0x3b5ec49b, 0x8dc76d8c, 0x29847c1, 0x77c3bc44, 0x9b8acc43, 0x25cb445b, 0xb5506e61,
      0x11356af7, 0x6d22c991]
     (0x1638014, 0x2caf58ca, 0x3a0e9477, 0xb1b29c90, 0xadf94e0a, 0xe588e598, 0xfd99936e,
      0x43a5def8)
   = sha_rounds ks
     [0x8dc76d8c, 0x29847c1, 0x77c3bc44, 0x9b8acc43, 0x25cb445b, 0xb5506e61, 0x11356af7,
      0x6d22c991, 0x7db23a9c, 0x4c2aeacb, 0xad04ed5e, 0xdda6d467, 0x46183c4, 0xa90a0ecd,
      0x23b6fc97, 0xd3666279]
     (0x79a6dddb, 0xdd946d8f, 0x5e8d0156, 0xf41fc3ea, 0xd69fef65, 0xc9962ac0, 0x8511bf70,
      0x1c71eb3c)"
  by (simp add: sha_eval)

lemma pad_empty: "be_words (pad_message []) = 0x80000000 # replicate 15 0"
  by code_simp

lemma block_empty:
  "sha_blocks initial_hash (0x80000000 # replicate 15 0)
   = (0xe3b0c442, 0x98fc1c14, 0x9afbf4c8, 0x996fb924, 0x27ae41e4, 0x649b934c, 0xa495991b, 0x7852b855)"
proof -
  have ws: "0x80000000 # replicate 15 (0::int)
      = [0x80000000, 0, 0, 0, 0, 0, 0, 0, 0, 0, 0, 0, 0, 0, 0, 0]"
    by (simp add: numeral_eq_Suc)
  show ?thesis
    unfolding ws
    by (simp add: sha_blocks.simps sha_block_def round_constants_def initial_hash_def
        rounds_0 rounds_1 rounds_2 rounds_3 rounds_4 rounds_5 rounds_6 rounds_7 w32_def
        del: sha_rounds.simps(2) sha_round.simps)
qed

lemma Sum256_empty:
  "Sum256 [] =
    [0xe3, 0xb0, 0xc4, 0x42, 0x98, 0xfc, 0x1c, 0x14]
     @ [0x9a, 0xfb, 0xf4, 0xc8, 0x99, 0x6f, 0xb9, 0x24]
     @ [0x27, 0xae, 0x41, 0xe4, 0x64, 0x9b, 0x93, 0x4c]
     @ [0xa4, 0x95, 0x99, 0x1b, 0x78, 0x52, 0xb8, 0x55]"
  by (simp add: Sum256_def pad_empty block_empty be_bytes32_def)

end
