(* ===== verification/Student.thy ===== *)
theory Student
  imports Prelude
begin

text \<open>
  \<open>core/student.go\<close>: the student records a chain carries and the grade average. A \<open>float64\<close> is
  its bit pattern; the arithmetic of the language on floats (addition, division, conversion from
  an integer) is the argument \<open>F\<close>, so that nothing is assumed about rounding.
\<close>

type_synonym f64 = "64 word"

record float_ops =
  f_add :: "f64 \<Rightarrow> f64 \<Rightarrow> f64"
  f_div :: "f64 \<Rightarrow> f64 \<Rightarrow> f64"
  f_of_int :: "int \<Rightarrow> f64"

type_synonym StudentTxType = byte

definition StudentTxTypeCreate :: StudentTxType where "StudentTxTypeCreate = 0"
definition StudentTxTypeUpdate :: StudentTxType where "StudentTxTypeUpdate = 1"
definition StudentTxTypeDelete :: StudentTxType where "StudentTxTypeDelete = 2"

lemmas student_tx_types = StudentTxTypeCreate_def StudentTxTypeUpdate_def StudentTxTypeDelete_def

record Semester =
  SemesterNumber :: int
  SGPA :: f64

record Student =
  stu_ID :: string
  PaidDues :: bool
  Semesters :: "Semester list"
  CGPA :: f64

record StudentTx =
  stx_Type :: StudentTxType
  stx_StudentID :: string
  stx_Student :: "Student option"
  stx_Fee :: i64

text \<open>The loop that sums the grades; the bit pattern 0 is \<open>0.0\<close>.\<close>

primrec sum_sgpa :: "float_ops \<Rightarrow> f64 \<Rightarrow> Semester list \<Rightarrow> f64" where
  "sum_sgpa F acc [] = acc"
| "sum_sgpa F acc (sem # sems) = sum_sgpa F (f_add F acc (SGPA sem)) sems"

definition CalculateCGPA :: "float_ops \<Rightarrow> Student \<Rightarrow> Student" where
  "CalculateCGPA F s =
     (if length (Semesters s) = 0 then s\<lparr>CGPA := 0\<rparr>
      else s\<lparr>CGPA := f_div F (sum_sgpa F 0 (Semesters s)) (f_of_int F (int (length (Semesters s))))\<rparr>)"

lemma CalculateCGPA_frame [simp]:
  "stu_ID (CalculateCGPA F s) = stu_ID s" "PaidDues (CalculateCGPA F s) = PaidDues s"
  "Semesters (CalculateCGPA F s) = Semesters s"
  by (simp_all add: CalculateCGPA_def)

lemma sum_sgpa_foldl: "sum_sgpa F acc sems = foldl (f_add F) acc (map SGPA sems)"
  by (induction sems arbitrary: acc) simp_all

lemma CalculateCGPA_idem: "CalculateCGPA F (CalculateCGPA F s) = CalculateCGPA F s"
  by (simp add: CalculateCGPA_def)

end
