(* ===== verification/Vm_State.thy ===== *)
theory Vm_State
  imports Prelude
begin

text \<open>
  \<open>core/state.go\<close> and \<open>core/vm.go\<close>: the contract state (a map from byte strings to byte
  strings) and the byte-code machine that writes it. The machine's stack is a slice of 128
  cells of type \<open>any\<close> with an index \<open>sp\<close>; \<open>Push\<close> writes at \<open>sp\<close>, \<open>Pop\<close> takes the cell at
  index 0 and shortens the slice, so the structure is a queue and every \<open>Pop\<close> lowers its
  capacity by one. Reads and writes out of range and failed type assertions panic.
\<close>

section \<open>Contract state\<close>

record State =
  st_data :: "bytes \<rightharpoonup> bytes"

definition NewState :: State where
  "NewState = \<lparr>st_data = Map.empty\<rparr>"

definition State_Put :: "State \<Rightarrow> bytes \<Rightarrow> bytes \<Rightarrow> State" where
  "State_Put s k v = s\<lparr>st_data := (st_data s)(k \<mapsto> v)\<rparr>"

definition State_Delete :: "State \<Rightarrow> bytes \<Rightarrow> State" where
  "State_Delete s k = s\<lparr>st_data := (st_data s)(k := None)\<rparr>"

text \<open>\<open>None\<close> is the error \<open>given key not found\<close>.\<close>

definition State_Get :: "State \<Rightarrow> bytes \<Rightarrow> bytes option" where
  "State_Get s k = st_data s k"

section \<open>The stack\<close>

text \<open>The dynamic types that occur in a cell: \<open>nil\<close>, \<open>int\<close>, \<open>byte\<close> and \<open>[]byte\<close>.\<close>

datatype val = VNil | VInt i64 | VByte byte | VBytes bytes

record Stack =
  stk_data :: "val list"
  sp :: int

definition NewStack :: "nat \<Rightarrow> Stack" where
  "NewStack n = \<lparr>stk_data = replicate n VNil, sp = 0\<rparr>"

definition Stack_Push :: "Stack \<Rightarrow> val \<Rightarrow> Stack option" where
  "Stack_Push s v =
     (if sp s < 0 \<or> sp s \<ge> int (length (stk_data s)) then None
      else Some (s\<lparr>stk_data := (stk_data s)[nat (sp s) := v], sp := sp s + 1\<rparr>))"

definition Stack_Pop :: "Stack \<Rightarrow> (val \<times> Stack) option" where
  "Stack_Pop s =
     (case stk_data s of
        [] \<Rightarrow> None
      | value # rest \<Rightarrow> Some (value, s\<lparr>stk_data := rest, sp := sp s - 1\<rparr>))"

subsection \<open>The stack is a queue of falling capacity\<close>

text \<open>
  What the machine relies on: \<open>items\<close> come out in the order they went in, a push succeeds
  while there is room, and every pop lowers the room by one for good.
\<close>

locale bounded_fifo =
  fixes push :: "'q \<Rightarrow> 'a \<Rightarrow> 'q option"
    and pop :: "'q \<Rightarrow> ('a \<times> 'q) option"
    and items :: "'q \<Rightarrow> 'a list"
    and room :: "'q \<Rightarrow> nat"
    and ok :: "'q \<Rightarrow> bool"
  assumes push_room: "ok q \<Longrightarrow> length (items q) < room q \<Longrightarrow>
      \<exists>q'. push q v = Some q' \<and> ok q' \<and> items q' = items q @ [v] \<and> room q' = room q"
    and push_full: "ok q \<Longrightarrow> room q \<le> length (items q) \<Longrightarrow> push q v = None"
    and pop_item: "ok q \<Longrightarrow> items q = v # vs \<Longrightarrow>
      \<exists>q'. pop q = Some (v, q') \<and> ok q' \<and> items q' = vs \<and> room q' = room q - 1"
    and items_fit: "ok q \<Longrightarrow> length (items q) \<le> room q"
begin

primrec push_all :: "'q \<Rightarrow> 'a list \<Rightarrow> 'q option" where
  "push_all q [] = Some q"
| "push_all q (v # vs) = (case push q v of None \<Rightarrow> None | Some q' \<Rightarrow> push_all q' vs)"

primrec pop_n :: "'q \<Rightarrow> nat \<Rightarrow> ('a list \<times> 'q) option" where
  "pop_n q 0 = Some ([], q)"
| "pop_n q (Suc n) =
     (case pop q of
        None \<Rightarrow> None
      | Some (v, q') \<Rightarrow> (case pop_n q' n of None \<Rightarrow> None | Some (vs, q'') \<Rightarrow> Some (v # vs, q'')))"

lemma push_all_room:
  "ok q \<Longrightarrow> length (items q) + length vs \<le> room q \<Longrightarrow>
   \<exists>q'. push_all q vs = Some q' \<and> ok q' \<and> items q' = items q @ vs \<and> room q' = room q"
proof (induction vs arbitrary: q)
  case Nil
  then show ?case by simp
next
  case (Cons v vs)
  from Cons.prems obtain q' where "push q v = Some q'" "ok q'"
    "items q' = items q @ [v]" "room q' = room q"
    using push_room [of q v] by auto
  with Cons.IH [of q'] Cons.prems show ?case by auto
qed

lemma pop_n_items:
  "ok q \<Longrightarrow> items q = vs @ ws \<Longrightarrow>
   \<exists>q'. pop_n q (length vs) = Some (vs, q') \<and> ok q' \<and> items q' = ws \<and> room q' = room q - length vs"
proof (induction vs arbitrary: q)
  case Nil
  then show ?case by simp
next
  case (Cons v vs)
  from Cons.prems obtain q' where q': "pop q = Some (v, q')" "ok q'"
    "items q' = vs @ ws" "room q' = room q - 1"
    using pop_item [of q v "vs @ ws"] by auto
  from Cons.IH [OF q'(2,3)] obtain q'' where
    "pop_n q' (length vs) = Some (vs, q'')" "ok q''" "items q'' = ws"
    "room q'' = room q' - length vs" by blast
  with q' show ?case by simp
qed

text \<open>First in, first out: what is pushed on an empty queue comes back in the same order.\<close>

lemma first_in_first_out:
  assumes "ok q" and "items q = []" and "length vs \<le> room q"
  shows "\<exists>q' q''. push_all q vs = Some q' \<and> pop_n q' (length vs) = Some (vs, q'')
    \<and> ok q'' \<and> items q'' = [] \<and> room q'' = room q - length vs"
proof -
  from push_all_room [OF assms(1), of vs] assms(2,3)
  obtain q' where q': "push_all q vs = Some q'" "ok q'" "items q' = vs @ []" "room q' = room q"
    by auto
  from pop_n_items [OF q'(2,3)] q' show ?thesis by auto
qed

end

definition stack_ok :: "Stack \<Rightarrow> bool" where
  "stack_ok s \<longleftrightarrow> 0 \<le> sp s \<and> sp s \<le> int (length (stk_data s))"

definition stack_items :: "Stack \<Rightarrow> val list" where
  "stack_items s = take (nat (sp s)) (stk_data s)"

definition stack_room :: "Stack \<Rightarrow> nat" where
  "stack_room s = length (stk_data s)"

lemma stack_items_length: "stack_ok s \<Longrightarrow> int (length (stack_items s)) = sp s"
  by (auto simp: stack_ok_def stack_items_def)

lemma stack_push_room:
  assumes "stack_ok s" and "length (stack_items s) < stack_room s"
  shows "\<exists>s'. Stack_Push s v = Some s' \<and> stack_ok s' \<and> stack_items s' = stack_items s @ [v]
    \<and> stack_room s' = stack_room s"
proof -
  from assms have r: "0 \<le> sp s" "nat (sp s) < length (stk_data s)"
    using stack_items_length [of s] by (auto simp: stack_room_def stack_ok_def)
  then have "take (nat (sp s + 1)) ((stk_data s)[nat (sp s) := v])
      = take (nat (sp s)) (stk_data s) @ [v]"
    by (simp add: nat_add_distrib take_Suc_conv_app_nth)
  with r show ?thesis
    by (simp add: Stack_Push_def stack_ok_def stack_items_def stack_room_def)
qed

lemma stack_pop_item:
  assumes "stack_ok s" and "stack_items s = v # vs"
  shows "\<exists>s'. Stack_Pop s = Some (v, s') \<and> stack_ok s' \<and> stack_items s' = vs
    \<and> stack_room s' = stack_room s - 1"
proof -
  from assms(2) obtain rest where d: "stk_data s = v # rest"
    by (cases "stk_data s") (auto simp: stack_items_def take_Cons split: nat.splits)
  from stack_items_length [OF assms(1)] assms(2) have sp: "sp s = int (Suc (length vs))" by simp
  with assms(2) d have "take (Suc (length vs)) (v # rest) = v # vs"
    by (simp only: stack_items_def nat_int)
  with sp assms d show ?thesis
    by (simp add: Stack_Pop_def stack_ok_def stack_items_def stack_room_def)
qed

interpretation vm_stack: bounded_fifo Stack_Push Stack_Pop stack_items stack_room stack_ok
  using stack_push_room stack_pop_item
  by unfold_locales
    (auto simp: Stack_Push_def stack_room_def stack_ok_def stack_items_def)

lemma NewStack_abstract [simp]:
  "stack_ok (NewStack n)" "stack_items (NewStack n) = []" "stack_room (NewStack n) = n"
  by (simp_all add: NewStack_def stack_ok_def stack_items_def stack_room_def)

section \<open>The machine\<close>

definition InstrPushInt :: byte where "InstrPushInt = 0x0a"
definition InstrAdd :: byte where "InstrAdd = 0x0b"
definition InstrPushByte :: byte where "InstrPushByte = 0x0c"
definition InstrPack :: byte where "InstrPack = 0x0d"
definition InstrSub :: byte where "InstrSub = 0x0e"
definition InstrStore :: byte where "InstrStore = 0x0f"

lemmas opcode_defs = InstrPushInt_def InstrAdd_def InstrPushByte_def InstrPack_def
  InstrSub_def InstrStore_def

record VM =
  vm_data :: bytes
  ip :: int
  stack :: Stack
  contractState :: State

definition NewVM :: "bytes \<Rightarrow> State \<Rightarrow> VM" where
  "NewVM data st = \<lparr>vm_data = data, ip = 0, stack = NewStack 128, contractState = st\<rparr>"

definition serializeInt64 :: "i64 \<Rightarrow> bytes" where
  "serializeInt64 value = le_bytes 8 value"

text \<open>\<open>binary.LittleEndian.Uint64\<close> panics on fewer than eight bytes.\<close>

definition deserializeInt64 :: "bytes \<Rightarrow> i64 option" where
  "deserializeInt64 b = (if length b < 8 then None else Some (le_word (take 8 b)))"

subsection \<open>Steps of one instruction\<close>

definition vm_push :: "val \<Rightarrow> (unit, VM) prog" where
  "vm_push v vm =
     (case Stack_Push (stack vm) v of
        None \<Rightarrow> Panics vm
      | Some s \<Rightarrow> Returns () (vm\<lparr>stack := s\<rparr>))"

definition vm_pop :: "(val, VM) prog" where
  "vm_pop vm =
     (case Stack_Pop (stack vm) of
        None \<Rightarrow> Panics vm
      | Some (v, s) \<Rightarrow> Returns v (vm\<lparr>stack := s\<rparr>))"

text \<open>The type assertions \<open>.(int)\<close>, \<open>.(byte)\<close> and \<open>.([]byte)\<close>.\<close>

definition as_int :: "val \<Rightarrow> (i64, VM) prog" where
  "as_int v = (case v of VInt i \<Rightarrow> ret i | _ \<Rightarrow> panic)"

definition as_byte :: "val \<Rightarrow> (byte, VM) prog" where
  "as_byte v = (case v of VByte b \<Rightarrow> ret b | _ \<Rightarrow> panic)"

definition as_bytes :: "val \<Rightarrow> (bytes, VM) prog" where
  "as_bytes v = (case v of VBytes b \<Rightarrow> ret b | _ \<Rightarrow> panic)"

text \<open>The read \<open>vm.data[vm.ip-1]\<close>.\<close>

definition vm_operand :: "(byte, VM) prog" where
  "vm_operand vm =
     (let i = ip vm - 1 in
      if i < 0 \<or> i \<ge> int (length (vm_data vm)) then Panics vm
      else Returns (vm_data vm ! nat i) vm)"

text \<open>The loop of \<open>Pack\<close>: \<open>n\<close> bytes taken from the stack, in the order they come.\<close>

primrec pop_bytes :: "nat \<Rightarrow> (bytes, VM) prog" where
  "pop_bytes 0 = ret []"
| "pop_bytes (Suc n) =
     seq vm_pop (\<lambda>v. seq (as_byte v) (\<lambda>b. seq (pop_bytes n) (\<lambda>bs. ret (b # bs))))"

definition vm_put :: "bytes \<Rightarrow> bytes \<Rightarrow> (unit, VM) prog" where
  "vm_put k v vm = Returns () (vm\<lparr>contractState := State_Put (contractState vm) k v\<rparr>)"

text \<open>
  One instruction. The result is the error of the call, which is always \<open>nil\<close>; an opcode that
  is none of the six does nothing. \<open>make([]byte, n)\<close> panics on a negative \<open>n\<close>.
\<close>

definition Exec :: "byte \<Rightarrow> (string option, VM) prog" where
  "Exec instr =
     (if instr = InstrStore then
        seq vm_pop (\<lambda>k. seq (as_bytes k) (\<lambda>key.
        seq vm_pop (\<lambda>value.
          case value of
            VInt v \<Rightarrow> seq (vm_put key (serializeInt64 v)) (\<lambda>_. ret None)
          | _ \<Rightarrow> panic)))
      else if instr = InstrPushInt then
        seq vm_operand (\<lambda>b. seq (vm_push (VInt (ucast b))) (\<lambda>_. ret None))
      else if instr = InstrPushByte then
        seq vm_operand (\<lambda>b. seq (vm_push (VByte b)) (\<lambda>_. ret None))
      else if instr = InstrPack then
        seq vm_pop (\<lambda>v. seq (as_int v) (\<lambda>n.
          if sint n < 0 then panic
          else seq (pop_bytes (nat (sint n))) (\<lambda>b. seq (vm_push (VBytes b)) (\<lambda>_. ret None))))
      else if instr = InstrSub then
        seq vm_pop (\<lambda>x. seq (as_int x) (\<lambda>a.
        seq vm_pop (\<lambda>y. seq (as_int y) (\<lambda>b.
        seq (vm_push (VInt (a - b))) (\<lambda>_. ret None)))))
      else if instr = InstrAdd then
        seq vm_pop (\<lambda>x. seq (as_int x) (\<lambda>a.
        seq vm_pop (\<lambda>y. seq (as_int y) (\<lambda>b.
        seq (vm_push (VInt (a + b))) (\<lambda>_. ret None)))))
      else ret None)"

section \<open>What an instruction leaves alone\<close>

text \<open>
  No instruction changes the program or the instruction pointer, none enlarges the stack's
  slice, and the contract state only gains keys, with values of eight bytes.
\<close>

definition vm_frame :: "VM \<Rightarrow> VM \<Rightarrow> bool" where
  "vm_frame vm vm' \<longleftrightarrow> vm_data vm' = vm_data vm \<and> ip vm' = ip vm
     \<and> length (stk_data (stack vm')) \<le> length (stk_data (stack vm))"

definition state_grows :: "State \<Rightarrow> State \<Rightarrow> bool" where
  "state_grows s s' \<longleftrightarrow>
     (\<forall>k. st_data s' k = st_data s k \<or> (\<exists>v. st_data s' k = Some v \<and> length v = 8))"

definition vm_grows :: "VM \<Rightarrow> VM \<Rightarrow> bool" where
  "vm_grows vm vm' \<longleftrightarrow> vm_frame vm vm' \<and> state_grows (contractState vm) (contractState vm')"

lemma state_grows_trans: "state_grows s t \<Longrightarrow> state_grows t u \<Longrightarrow> state_grows s u"
  unfolding state_grows_def by metis

lemma state_grows_refl [simp]: "state_grows s s"
  by (simp add: state_grows_def)

interpretation vm_grows: state_preorder vm_grows
  by unfold_locales
    (auto simp: vm_grows_def vm_frame_def intro: state_grows_trans)

lemma keeps_vm_push: "keeps vm_grows (vm_push v)"
  by (auto simp: keeps_def vm_push_def Stack_Push_def vm_grows_def vm_frame_def)

lemma keeps_vm_pop: "keeps vm_grows vm_pop"
  by (auto simp: keeps_def vm_pop_def Stack_Pop_def vm_grows_def vm_frame_def split: list.split)

lemma keeps_vm_operand: "keeps vm_grows vm_operand"
  by (auto simp: keeps_def vm_operand_def Let_def)

lemma keeps_as_int: "keeps vm_grows (as_int v)"
  by (auto simp: keeps_def as_int_def split: val.split)

lemma keeps_as_byte: "keeps vm_grows (as_byte v)"
  by (auto simp: keeps_def as_byte_def split: val.split)

lemma keeps_as_bytes: "keeps vm_grows (as_bytes v)"
  by (auto simp: keeps_def as_bytes_def split: val.split)

lemma keeps_vm_put: "keeps vm_grows (vm_put k (serializeInt64 v))"
  by (auto simp: keeps_def vm_put_def vm_grows_def vm_frame_def state_grows_def
      State_Put_def serializeInt64_def)

lemma keeps_pop_bytes: "keeps vm_grows (pop_bytes n)"
  by (induction n)
    (auto intro!: vm_grows.keeps_intros keeps_vm_pop keeps_as_byte)

lemmas keeps_vm = vm_grows.keeps_intros keeps_vm_push keeps_vm_pop keeps_vm_operand
  keeps_as_int keeps_as_byte keeps_as_bytes keeps_vm_put keeps_pop_bytes

lemma keeps_Exec: "keeps vm_grows (Exec instr)"
  by (auto simp: Exec_def intro!: keeps_vm split: val.split)

lemma Exec_frame:
  assumes "Exec instr vm = Returns e vm'"
  shows "vm_data vm' = vm_data vm" and "ip vm' = ip vm"
  using vm_grows.keeps_Returns [OF keeps_Exec assms]
  by (simp_all add: vm_grows_def vm_frame_def)

text \<open>No instruction reports an error or waits for a lock: it returns \<open>nil\<close> or panics.\<close>

definition nil_or_panic :: "(string option, VM) outcome \<Rightarrow> bool" where
  "nil_or_panic r \<longleftrightarrow> (case r of Returns e _ \<Rightarrow> e = None | Panics _ \<Rightarrow> True | Blocks _ \<Rightarrow> False)"

lemma nil_or_panic_seq:
  assumes "never_blocks m" and "\<And>x t. nil_or_panic (f x t)"
  shows "nil_or_panic (seq m f s)"
  using assms by (cases "m s") (auto simp: never_blocks_def seq_def nil_or_panic_def)

lemma nil_or_panic_ends [simp]: "nil_or_panic (Returns None t)" "nil_or_panic (Panics t)"
  by (simp_all add: nil_or_panic_def)

lemma never_blocks_parts [simp]:
  "never_blocks (vm_push v)" "never_blocks vm_pop" "never_blocks vm_operand"
  "never_blocks (as_int v)" "never_blocks (as_byte v)" "never_blocks (as_bytes v)"
  "never_blocks (vm_put k w)"
  by (auto simp: never_blocks_def vm_push_def vm_pop_def vm_operand_def Let_def as_int_def
      as_byte_def as_bytes_def vm_put_def split: option.split val.split prod.split)

lemma never_blocks_pop_bytes [simp]: "never_blocks (pop_bytes n)"
  by (induction n) (auto intro!: never_blocks_seq)

lemma Exec_nil_or_panic: "nil_or_panic (Exec instr vm)"
  by (auto simp: Exec_def intro!: nil_or_panic_seq split: val.split)

section \<open>The run loop\<close>

text \<open>
  The body of \<open>for\<close> in \<open>Run\<close>: fetch (a panic out of range), execute, count \<open>ip\<close> up, stop past
  the last byte. What shrinks is the distance of \<open>ip\<close> to the end of the program.
\<close>

function Run :: "(string option, VM) prog" where
  "Run vm =
     (if ip vm < 0 \<or> ip vm \<ge> int (length (vm_data vm)) then Panics vm
      else
        (case Exec (vm_data vm ! nat (ip vm)) vm of
           Returns err vm1 \<Rightarrow>
             (case err of
                Some e \<Rightarrow> Returns (Some e) vm1
              | None \<Rightarrow>
                  (let vm2 = vm1\<lparr>ip := ip vm1 + 1\<rparr> in
                   if ip vm2 > int (length (vm_data vm2)) - 1 then Returns None vm2
                   else Run vm2))
         | Panics vm1 \<Rightarrow> Panics vm1
         | Blocks vm1 \<Rightarrow> Blocks vm1))"
  by pat_completeness auto
termination
  by (relation "measure (\<lambda>vm. nat (int (length (vm_data vm)) - ip vm))")
    (auto simp: Exec_frame)

declare Run.simps [simp del]

end
