(* ===== verification/Vm_Programs.thy ===== *)
theory Vm_Programs
  imports Vm_State
begin

text \<open>
  What programs of the byte-code machine do: the run loop as a chain of single steps, the effect
  of the instructions on the queue of the machine, and the correctness of the program shape that
  stores an integer under a key.
\<close>

section \<open>Steps and runs\<close>

text \<open>One turn of the loop that does not leave it.\<close>

inductive vm_step :: "VM \<Rightarrow> VM \<Rightarrow> bool" where
  turn: "0 \<le> ip vm \<Longrightarrow> ip vm + 1 < int (length (vm_data vm)) \<Longrightarrow>
    Exec (vm_data vm ! nat (ip vm)) vm = Returns None vm1 \<Longrightarrow>
    vm_step vm (vm1\<lparr>ip := ip vm1 + 1\<rparr>)"

inductive_cases vm_stepE: "vm_step vm vm'"

abbreviation vm_steps :: "VM \<Rightarrow> VM \<Rightarrow> bool" where
  "vm_steps \<equiv> rtranclp vm_step"

lemma vm_step_deterministic: "vm_step vm a \<Longrightarrow> vm_step vm b \<Longrightarrow> a = b"
  by (auto elim!: vm_stepE)

lemma Run_step: "vm_step vm vm' \<Longrightarrow> Run vm = Run vm'"
  by (erule vm_stepE) (simp add: Run.simps [of vm] Exec_frame Let_def)

lemma Run_steps: "vm_steps vm vm' \<Longrightarrow> Run vm = Run vm'"
  by (induction rule: rtranclp_induct) (simp_all add: Run_step)

lemma Run_last:
  "0 \<le> ip vm \<Longrightarrow> ip vm + 1 = int (length (vm_data vm)) \<Longrightarrow>
   Exec (vm_data vm ! nat (ip vm)) vm = Returns None vm1 \<Longrightarrow>
   Run vm = Returns None (vm1\<lparr>ip := ip vm1 + 1\<rparr>)"
  by (simp add: Run.simps [of vm] Exec_frame Let_def)

text \<open>
  Every run ends: it returns \<open>nil\<close> with the pointer just past the program, or it panics; and
  whatever it has done by then, the contract state has only gained keys with values of eight
  bytes.
\<close>

lemma Run_outcome:
  assumes "0 \<le> ip vm" and "ip vm < int (length (vm_data vm))"
  shows "(\<exists>vm'. Run vm = Returns None vm' \<and> ip vm' = int (length (vm_data vm)))
    \<or> (\<exists>vm'. Run vm = Panics vm')"
  using assms
proof (induction vm rule: Run.induct)
  case (1 vm)
  let ?r = "Exec (vm_data vm ! nat (ip vm)) vm"
  show ?case
  proof (cases ?r)
    case (Returns err vm1)
    with Exec_nil_or_panic [of "vm_data vm ! nat (ip vm)" vm] have err: "err = None"
      by (simp add: nil_or_panic_def)
    note fr = Exec_frame [OF Returns]
    show ?thesis
    proof (cases "ip vm + 1 < int (length (vm_data vm))")
      case True
      have "(\<exists>vm'. Run (vm1\<lparr>ip := ip vm1 + 1\<rparr>) = Returns None vm'
          \<and> ip vm' = int (length (vm_data (vm1\<lparr>ip := ip vm1 + 1\<rparr>))))
        \<or> (\<exists>vm'. Run (vm1\<lparr>ip := ip vm1 + 1\<rparr>) = Panics vm')"
        using 1(1) [OF _ Returns err refl] 1(2,3) True by (simp add: fr)
      with True 1(2) show ?thesis
        using Run_step [OF vm_step.turn [OF 1(2) True]] Returns err by (simp add: fr)
    next
      case False
      with 1(2,3) Returns err show ?thesis
        using Run_last [of vm vm1] by (simp add: fr)
    qed
  next
    case (Panics vm1)
    with 1(2,3) show ?thesis by (simp add: Run.simps [of vm])
  next
    case (Blocks vm1)
    with Exec_nil_or_panic [of "vm_data vm ! nat (ip vm)" vm] show ?thesis
      by (simp add: nil_or_panic_def)
  qed
qed

lemma Run_grows: "state_grows (contractState vm) (contractState (out_state (Run vm)))"
proof (induction vm rule: Run.induct)
  case (1 vm)
  show ?case
  proof (cases "ip vm < 0 \<or> ip vm \<ge> int (length (vm_data vm))")
    case True
    then show ?thesis by (simp add: Run.simps [of vm])
  next
    case False
    let ?r = "Exec (vm_data vm ! nat (ip vm)) vm"
    have g: "state_grows (contractState vm) (contractState (out_state ?r))"
      using vm_grows.keeps_out [OF keeps_Exec] by (simp add: vm_grows_def)
    show ?thesis
    proof (cases ?r)
      case (Returns err vm1)
      show ?thesis
      proof (cases err)
        case None
        show ?thesis
        proof (cases "ip vm1 + 1 > int (length (vm_data vm1)) - 1")
          case True
          with False Returns None g show ?thesis by (simp add: Run.simps [of vm])
        next
          case inside: False
          with 1 [OF False Returns None refl]
          have "state_grows (contractState vm1) (contractState (out_state (Run (vm1\<lparr>ip := ip vm1 + 1\<rparr>))))"
            by simp
          with g Returns have "state_grows (contractState vm)
              (contractState (out_state (Run (vm1\<lparr>ip := ip vm1 + 1\<rparr>))))"
            by (auto intro: state_grows_trans)
          with False inside Returns None show ?thesis by (simp add: Run.simps [of vm])
        qed
      next
        case (Some e)
        with False Returns g show ?thesis by (simp add: Run.simps [of vm])
      qed
    next
      case (Panics vm1)
      with False g show ?thesis by (simp add: Run.simps [of vm])
    next
      case (Blocks vm1)
      with False g show ?thesis by (simp add: Run.simps [of vm])
    qed
  qed
qed

section \<open>Instructions on the queue\<close>

text \<open>The machine runs program \<open>D\<close> at \<open>i\<close>, with queue \<open>q\<close>, room \<open>r\<close> and contract state \<open>st\<close>.\<close>

definition vm_at :: "bytes \<Rightarrow> int \<Rightarrow> val list \<Rightarrow> nat \<Rightarrow> State \<Rightarrow> VM \<Rightarrow> bool" where
  "vm_at D i q r st vm \<longleftrightarrow> vm_data vm = D \<and> ip vm = i \<and> stack_ok (stack vm)
     \<and> stack_items (stack vm) = q \<and> stack_room (stack vm) = r \<and> contractState vm = st"

definition is_opcode :: "byte \<Rightarrow> bool" where
  "is_opcode b \<longleftrightarrow> b \<in> {InstrPushInt, InstrAdd, InstrPushByte, InstrPack, InstrSub, InstrStore}"

lemma vm_at_NewVM: "vm_at D 0 [] 128 st (NewVM D st)"
  by (simp add: vm_at_def NewVM_def)

lemma vm_pop_at:
  "vm_at D i (v # q) r st vm \<Longrightarrow>
   \<exists>vm'. vm_pop vm = Returns v vm' \<and> vm_at D i q (r - 1) st vm'"
  using vm_stack.pop_item [of "stack vm" v q]
  by (auto simp: vm_at_def vm_pop_def)

lemma vm_push_at:
  "vm_at D i q r st vm \<Longrightarrow> length q < r \<Longrightarrow>
   \<exists>vm'. vm_push v vm = Returns () vm' \<and> vm_at D i (q @ [v]) r st vm'"
  using vm_stack.push_room [of "stack vm" v]
  by (auto simp: vm_at_def vm_push_def)

lemma pop_bytes_at:
  "vm_at D i (map VByte bs @ q) r st vm \<Longrightarrow>
   \<exists>vm'. pop_bytes (length bs) vm = Returns bs vm' \<and> vm_at D i q (r - length bs) st vm'"
proof (induction bs arbitrary: vm r)
  case Nil
  then show ?case by simp
next
  case (Cons b bs)
  from Cons.prems have "vm_at D i (VByte b # (map VByte bs @ q)) r st vm" by simp
  from vm_pop_at [OF this] obtain vm1 where
    pop: "vm_pop vm = Returns (VByte b) vm1" and at: "vm_at D i (map VByte bs @ q) (r - 1) st vm1"
    by blast
  from Cons.IH [OF at] obtain vm2 where
    "pop_bytes (length bs) vm1 = Returns bs vm2" "vm_at D i q (r - 1 - length bs) st vm2" by blast
  with pop show ?case by (simp add: seq_def as_byte_def)
qed

lemma Exec_literal: "\<not> is_opcode b \<Longrightarrow> Exec b vm = Returns None vm"
  by (simp add: Exec_def is_opcode_def)

lemma vm_operand_at:
  "vm_at D i q r st vm \<Longrightarrow> 0 < i \<Longrightarrow> i \<le> int (length D) \<Longrightarrow>
   vm_operand vm = Returns (D ! nat (i - 1)) vm"
  by (simp add: vm_operand_def vm_at_def Let_def)

lemma Exec_PushInt_at:
  assumes "vm_at D i q r st vm" and "0 < i" and "i \<le> int (length D)" and "length q < r"
  shows "\<exists>vm'. Exec InstrPushInt vm = Returns None vm'
    \<and> vm_at D i (q @ [VInt (ucast (D ! nat (i - 1)))]) r st vm'"
proof -
  from vm_push_at [OF assms(1,4), of "VInt (ucast (D ! nat (i - 1)))"] obtain vm' where
    "vm_push (VInt (ucast (D ! nat (i - 1)))) vm = Returns () vm'"
    "vm_at D i (q @ [VInt (ucast (D ! nat (i - 1)))]) r st vm'" by blast
  with vm_operand_at [OF assms(1-3)] show ?thesis
    by (simp add: Exec_def opcode_defs seq_def)
qed

lemma Exec_PushByte_at:
  assumes "vm_at D i q r st vm" and "0 < i" and "i \<le> int (length D)" and "length q < r"
  shows "\<exists>vm'. Exec InstrPushByte vm = Returns None vm'
    \<and> vm_at D i (q @ [VByte (D ! nat (i - 1))]) r st vm'"
proof -
  from vm_push_at [OF assms(1,4), of "VByte (D ! nat (i - 1))"] obtain vm' where
    "vm_push (VByte (D ! nat (i - 1))) vm = Returns () vm'"
    "vm_at D i (q @ [VByte (D ! nat (i - 1))]) r st vm'" by blast
  with vm_operand_at [OF assms(1-3)] show ?thesis
    by (simp add: Exec_def opcode_defs seq_def)
qed

lemma Exec_Pack_at:
  assumes at: "vm_at D i (VInt (of_nat (length bs)) # map VByte bs @ q) r st vm"
    and len: "length bs < 2 ^ 63" and room: "length q + length bs + 1 < r"
  shows "\<exists>vm'. Exec InstrPack vm = Returns None vm'
    \<and> vm_at D i (q @ [VBytes bs]) (r - 1 - length bs) st vm'"
proof -
  have n: "sint (of_nat (length bs) :: i64) = int (length bs)"
    using len by (simp add: signed_of_nat signed_take_bit_int_eq_self)
  from vm_pop_at [OF at] obtain vm1 where
    1: "vm_pop vm = Returns (VInt (of_nat (length bs))) vm1"
    and at1: "vm_at D i (map VByte bs @ q) (r - 1) st vm1" by blast
  from pop_bytes_at [OF at1] obtain vm2 where
    2: "pop_bytes (length bs) vm1 = Returns bs vm2"
    and at2: "vm_at D i q (r - 1 - length bs) st vm2" by blast
  from room have "length q < r - 1 - length bs" by arith
  from vm_push_at [OF at2 this, of "VBytes bs"] obtain vm3 where
    3: "vm_push (VBytes bs) vm2 = Returns () vm3"
    and at3: "vm_at D i (q @ [VBytes bs]) (r - 1 - length bs) st vm3" by blast
  have "Exec InstrPack vm = Returns None vm3"
    using 1 2 3 n by (simp add: Exec_def opcode_defs seq_def as_int_def)
  with at3 show ?thesis by blast
qed

lemma Exec_Store_at:
  assumes at: "vm_at D i (VBytes k # VInt v # q) r st vm"
  shows "\<exists>vm'. Exec InstrStore vm = Returns None vm'
    \<and> vm_at D i q (r - 2) (State_Put st k (serializeInt64 v)) vm'"
proof -
  from vm_pop_at [OF at] obtain vm1 where
    1: "vm_pop vm = Returns (VBytes k) vm1" and at1: "vm_at D i (VInt v # q) (r - 1) st vm1" by blast
  from vm_pop_at [OF at1] obtain vm2 where
    2: "vm_pop vm1 = Returns (VInt v) vm2" and at2: "vm_at D i q (r - 1 - 1) st vm2" by blast
  have "r - 1 - 1 = r - 2" by simp
  with 1 2 at2 show ?thesis
    by (simp add: Exec_def opcode_defs seq_def as_bytes_def vm_put_def vm_at_def)
qed

text \<open>The arithmetic instructions take their operands in the order they were pushed.\<close>

lemma pop_two_at:
  assumes at: "vm_at D i (VInt a # VInt b # q) r st vm" and room: "length q + 2 < r"
  obtains vm1 vm2 vm3 where "vm_pop vm = Returns (VInt a) vm1" and "vm_pop vm1 = Returns (VInt b) vm2"
    and "vm_push c vm2 = Returns () vm3" and "vm_at D i (q @ [c]) (r - 2) st vm3"
proof -
  from vm_pop_at [OF at] obtain vm1 where
    1: "vm_pop vm = Returns (VInt a) vm1" and at1: "vm_at D i (VInt b # q) (r - 1) st vm1" by blast
  from vm_pop_at [OF at1] obtain vm2 where
    2: "vm_pop vm1 = Returns (VInt b) vm2" and at2: "vm_at D i q (r - 1 - 1) st vm2" by blast
  from room have "length q < r - 1 - 1" by arith
  from vm_push_at [OF at2 this, of c] obtain vm3 where
    3: "vm_push c vm2 = Returns () vm3" "vm_at D i (q @ [c]) (r - 1 - 1) st vm3" by blast
  have "r - 1 - 1 = r - 2" by simp
  with 1 2 3 show ?thesis using that by simp
qed

lemma Exec_Sub_at:
  assumes "vm_at D i (VInt a # VInt b # q) r st vm" and "length q + 2 < r"
  shows "\<exists>vm'. Exec InstrSub vm = Returns None vm' \<and> vm_at D i (q @ [VInt (a - b)]) (r - 2) st vm'"
  by (rule pop_two_at [OF assms, of "VInt (a - b)"])
    (simp add: Exec_def opcode_defs seq_def as_int_def)

lemma Exec_Add_at:
  assumes "vm_at D i (VInt a # VInt b # q) r st vm" and "length q + 2 < r"
  shows "\<exists>vm'. Exec InstrAdd vm = Returns None vm' \<and> vm_at D i (q @ [VInt (a + b)]) (r - 2) st vm'"
  by (rule pop_two_at [OF assms, of "VInt (a + b)"])
    (simp add: Exec_def opcode_defs seq_def as_int_def)

section \<open>Chaining instructions along a program\<close>

lemma step_at:
  assumes "vm_at D i q r st vm" and "0 \<le> i" and "i + 1 < int (length D)"
    and "\<exists>vm1. Exec (D ! nat i) vm = Returns None vm1 \<and> vm_at D i q' r' st' vm1"
  shows "\<exists>vm'. vm_steps vm vm' \<and> vm_at D (i + 1) q' r' st' vm'"
proof -
  from assms(4) obtain vm1 where e: "Exec (D ! nat i) vm = Returns None vm1"
    and at: "vm_at D i q' r' st' vm1" by blast
  from assms(1-3) e have "vm_step vm (vm1\<lparr>ip := ip vm1 + 1\<rparr>)"
    by (intro vm_step.turn) (simp_all add: vm_at_def)
  moreover from at have "vm_at D (i + 1) q' r' st' (vm1\<lparr>ip := ip vm1 + 1\<rparr>)"
    by (simp add: vm_at_def)
  ultimately show ?thesis by blast
qed

text \<open>A literal byte and the push that reads it.\<close>

lemma literal_step:
  assumes "vm_at D i q r st vm" and "0 \<le> i" and "i + 1 < int (length D)"
    and "\<not> is_opcode (D ! nat i)"
  shows "\<exists>vm'. vm_steps vm vm' \<and> vm_at D (i + 1) q r st vm'"
  using step_at [OF assms(1-3)] assms(1) Exec_literal [OF assms(4)] by blast

lemma push_int_steps:
  assumes at: "vm_at D i q r st vm" and "0 \<le> i" and "i + 2 < int (length D)"
    and "\<not> is_opcode (D ! nat i)" and "D ! nat (i + 1) = InstrPushInt" and "length q < r"
  shows "\<exists>vm'. vm_steps vm vm' \<and> vm_at D (i + 2) (q @ [VInt (ucast (D ! nat i))]) r st vm'"
proof -
  from literal_step [OF at] assms obtain vm1 where
    1: "vm_steps vm vm1" and at1: "vm_at D (i + 1) q r st vm1" by auto
  from step_at [OF at1, of "q @ [VInt (ucast (D ! nat i))]" r st]
    Exec_PushInt_at [OF at1] assms obtain vm2 where
    "vm_steps vm1 vm2" "vm_at D (i + 1 + 1) (q @ [VInt (ucast (D ! nat i))]) r st vm2" by auto
  with 1 show ?thesis by (auto simp: add.assoc intro: rtranclp_trans)
qed

lemma push_byte_steps:
  assumes at: "vm_at D i q r st vm" and "0 \<le> i" and "i + 2 < int (length D)"
    and "\<not> is_opcode (D ! nat i)" and "D ! nat (i + 1) = InstrPushByte" and "length q < r"
  shows "\<exists>vm'. vm_steps vm vm' \<and> vm_at D (i + 2) (q @ [VByte (D ! nat i)]) r st vm'"
proof -
  from literal_step [OF at] assms obtain vm1 where
    1: "vm_steps vm vm1" and at1: "vm_at D (i + 1) q r st vm1" by auto
  from step_at [OF at1, of "q @ [VByte (D ! nat i)]" r st]
    Exec_PushByte_at [OF at1] assms obtain vm2 where
    "vm_steps vm1 vm2" "vm_at D (i + 1 + 1) (q @ [VByte (D ! nat i)]) r st vm2" by auto
  with 1 show ?thesis by (auto simp: add.assoc intro: rtranclp_trans)
qed

definition push_bytes_code :: "bytes \<Rightarrow> bytes" where
  "push_bytes_code bs = concat (map (\<lambda>b. [b, InstrPushByte]) bs)"

lemma length_push_bytes_code [simp]: "length (push_bytes_code bs) = 2 * length bs"
  by (induction bs) (simp_all add: push_bytes_code_def)

lemma push_bytes_steps:
  "vm_at (pre @ push_bytes_code bs @ post) (int (length pre)) q r st vm \<Longrightarrow> post \<noteq> [] \<Longrightarrow>
   \<forall>b\<in>set bs. \<not> is_opcode b \<Longrightarrow> length q + length bs \<le> r \<Longrightarrow>
   \<exists>vm'. vm_steps vm vm' \<and> vm_at (pre @ push_bytes_code bs @ post)
     (int (length pre) + 2 * int (length bs)) (q @ map VByte bs) r st vm'"
proof (induction bs arbitrary: pre q vm)
  case Nil
  then show ?case by (auto simp: push_bytes_code_def)
next
  case (Cons b bs)
  let ?D = "pre @ push_bytes_code (b # bs) @ post"
  have D: "?D = (pre @ [b, InstrPushByte]) @ push_bytes_code bs @ post"
    by (simp add: push_bytes_code_def)
  have b: "?D ! nat (int (length pre)) = b" "?D ! nat (int (length pre) + 1) = InstrPushByte"
    by (simp_all add: push_bytes_code_def nth_append nat_add_distrib)
  have "int (length pre) + 2 < int (length ?D)" using Cons.prems(2) by (cases post) auto
  from push_byte_steps [OF Cons.prems(1) _ this] Cons.prems(3,4) obtain vm1 where
    1: "vm_steps vm vm1" and at1: "vm_at ?D (int (length pre) + 2) (q @ [VByte b]) r st vm1"
    unfolding b by auto
  from at1 have "vm_at ((pre @ [b, InstrPushByte]) @ push_bytes_code bs @ post)
      (int (length (pre @ [b, InstrPushByte]))) (q @ [VByte b]) r st vm1"
    unfolding D by (simp add: add.commute)
  from Cons.IH [OF this] Cons.prems(2-4) obtain vm2 where
    "vm_steps vm1 vm2" "vm_at ?D (int (length (pre @ [b, InstrPushByte])) + 2 * int (length bs))
      ((q @ [VByte b]) @ map VByte bs) r st vm2"
    unfolding D by auto
  with 1 show ?case by (auto simp: algebra_simps intro: rtranclp_trans)
qed

section \<open>The program that stores an integer\<close>

text \<open>
  The shape of the program in \<open>core/vm_test.go\<close>: the length of the key, the bytes of the key,
  \<open>Pack\<close>, the value, \<open>Store\<close>. Every literal stands before the push that reads it and is itself
  fetched as an instruction, so it must not be an opcode.
\<close>

definition store_code :: "bytes \<Rightarrow> byte \<Rightarrow> bytes" where
  "store_code k v = [of_nat (length k), InstrPushInt] @ push_bytes_code k
     @ [InstrPack, v, InstrPushInt, InstrStore]"

lemma store_code_FOO:
  "store_code [0x46, 0x4f, 0x4f] 5
    = [0x03, 0x0a, 0x46, 0x0c, 0x4f, 0x0c, 0x4f, 0x0c, 0x0d, 0x05, 0x0a, 0x0f]"
  by (simp add: store_code_def push_bytes_code_def opcode_defs)

lemma store_code_run:
  assumes k: "length k \<le> 125" "\<not> is_opcode (of_nat (length k))" "\<forall>b\<in>set k. \<not> is_opcode b"
    and v: "\<not> is_opcode v"
  shows "\<exists>vm'. Run (NewVM (store_code k v) st) = Returns None vm'
    \<and> contractState vm' = State_Put st k (serializeInt64 (ucast v))"
proof -
  define D n where "D = store_code k v" and "n = int (length k)"
  have len: "int (length D) = 2 * n + 6" by (simp add: D_def n_def store_code_def)
  have n0: "0 \<le> n" by (simp add: n_def)
  have D0: "D ! nat 0 = of_nat (length k)" "D ! nat 1 = InstrPushInt"
    by (simp_all add: D_def store_code_def)
  have tl: "nat (2 * n + int j) = length ([of_nat (length k), InstrPushInt] @ push_bytes_code k) + (j - 2)"
    if "2 \<le> j" for j using that by (simp add: n_def nat_add_distrib nat_mult_distrib)
  have Dt: "D ! nat (2 * n + 2) = InstrPack" "D ! nat (2 * n + 3) = v"
    "D ! nat (2 * n + 4) = InstrPushInt" "D ! nat (2 * n + 5) = InstrStore"
    using tl [of 2] tl [of 3] tl [of 4] tl [of 5]
    by (simp_all add: D_def store_code_def nth_append)
  \<comment> \<open>push the length\<close>
  from push_int_steps [OF vm_at_NewVM [of D st]] len n0 k(2) obtain vm1 where
    1: "vm_steps (NewVM D st) vm1"
    and at1: "vm_at D 2 [VInt (ucast (of_nat (length k) :: byte))] 128 st vm1"
    unfolding D0 using D0(2) by auto
  have "ucast (of_nat (length k) :: byte) = (of_nat (length k) :: i64)"
    using k(1) by (simp add: unsigned_of_nat take_bit_nat_eq_self)
  with at1 have at1': "vm_at ([of_nat (length k), InstrPushInt] @ push_bytes_code k
      @ [InstrPack, v, InstrPushInt, InstrStore]) (int (length [of_nat (length k) :: byte, InstrPushInt]))
      [VInt (of_nat (length k))] 128 st vm1"
    by (simp add: D_def store_code_def)
  \<comment> \<open>push the key\<close>
  from push_bytes_steps [OF at1'] k(1,3) obtain vm2 where
    2: "vm_steps vm1 vm2"
    and at2: "vm_at D (2 + 2 * n) (VInt (of_nat (length k)) # map VByte k @ []) 128 st vm2"
    by (auto simp: D_def n_def store_code_def)
  \<comment> \<open>pack it\<close>
  have p2: "D ! nat (2 + 2 * n) = InstrPack" using Dt(1) by (simp add: add.commute)
  from step_at [OF at2] Exec_Pack_at [OF at2] len n0 k(1) obtain vm3 where
    3: "vm_steps vm2 vm3" and at3: "vm_at D (2 + 2 * n + 1) [VBytes k] (127 - length k) st vm3"
    unfolding p2 by fastforce
  \<comment> \<open>push the value\<close>
  have p3: "D ! nat (2 + 2 * n + 1) = v" "D ! nat (2 + 2 * n + 1 + 1) = InstrPushInt"
    using Dt(2,3) by (simp_all add: algebra_simps)
  have r3: "length [VBytes k] < 127 - length k" using k(1) by simp
  from push_int_steps [OF at3 _ _ _ _ r3] len n0 v obtain vm4 where
    4: "vm_steps vm3 vm4"
    and at4: "vm_at D (2 + 2 * n + 1 + 2) [VBytes k, VInt (ucast v)] (127 - length k) st vm4"
    unfolding p3 by auto
  \<comment> \<open>store\<close>
  have p4: "D ! nat (2 + 2 * n + 1 + 2) = InstrStore" using Dt(4) by (simp add: algebra_simps)
  from Exec_Store_at [OF at4] obtain vm5 where
    5: "Exec InstrStore vm4 = Returns None vm5"
    and at5: "vm_at D (2 + 2 * n + 1 + 2) [] (127 - length k - 2) (State_Put st k (serializeInt64 (ucast v))) vm5"
    by blast
  have "Run vm4 = Returns None (vm5\<lparr>ip := ip vm5 + 1\<rparr>)"
    by (rule Run_last) (use at4 5 p4 len n0 in \<open>auto simp: vm_at_def\<close>)
  moreover have "vm_steps (NewVM D st) vm4" using 1 2 3 4 by (meson rtranclp_trans)
  ultimately show ?thesis using at5 Run_steps unfolding D_def by (auto simp: vm_at_def)
qed

lemma deserialize_serialize [simp]: "deserializeInt64 (serializeInt64 v) = Some v"
  by (simp add: deserializeInt64_def serializeInt64_def le_word_64)

section \<open>Properties\<close>

text \<open>
  C29: running any nonempty program ends: it returns \<open>nil\<close> after the last byte or it panics, it
  never reports an error and never waits; and the contract state it leaves differs from the one
  it got only in keys that now hold eight bytes.
\<close>

theorem Run_ends:
  assumes "data \<noteq> []"
  shows "((\<exists>vm'. Run (NewVM data st) = Returns None vm' \<and> ip vm' = int (length data))
      \<or> (\<exists>vm'. Run (NewVM data st) = Panics vm'))
    \<and> state_grows st (contractState (out_state (Run (NewVM data st))))"
  using Run_outcome [of "NewVM data st"] Run_grows [of "NewVM data st"] assms
  by (simp add: NewVM_def)

theorem Run_ends_witness:
  "state_grows NewState (contractState (out_state (Run (NewVM [0x0a] NewState))))"
  using Run_ends [of "[0x0a]" NewState] by simp

text \<open>
  C28: the store program puts the value, as eight little-endian bytes, under exactly the given
  key, for keys of at most 125 bytes whose literals are not opcodes; reading the key back and
  deserializing gives the value.
\<close>

theorem store_program_correct:
  assumes "length k \<le> 125" and "\<not> is_opcode (of_nat (length k))"
    and "\<forall>b\<in>set k. \<not> is_opcode b" and "\<not> is_opcode v"
  shows "\<exists>vm'. Run (NewVM (store_code k v) st) = Returns None vm'
    \<and> contractState vm' = State_Put st k (serializeInt64 (ucast v))
    \<and> Option.bind (State_Get (contractState vm') k) deserializeInt64 = Some (ucast v)"
  using store_code_run [OF assms, of st]
  by (auto simp: State_Get_def State_Put_def)

theorem store_program_correct_witness:
  "\<exists>vm'. Run (NewVM [0x03, 0x0a, 0x46, 0x0c, 0x4f, 0x0c, 0x4f, 0x0c, 0x0d, 0x05, 0x0a, 0x0f] NewState)
      = Returns None vm'
    \<and> contractState vm' = State_Put NewState [0x46, 0x4f, 0x4f] (serializeInt64 5)
    \<and> Option.bind (State_Get (contractState vm') [0x46, 0x4f, 0x4f]) deserializeInt64 = Some 5"
  using store_program_correct [of "[0x46, 0x4f, 0x4f]" 5 NewState]
  unfolding store_code_FOO
  by (simp add: is_opcode_def opcode_defs)

text \<open>
  The stack of the machine is a queue: what is pushed on a new stack comes back in the same
  order, as long as it fits, and after the pops the capacity has fallen by their number.
\<close>

theorem Stack_is_fifo:
  assumes "length vs \<le> n"
  shows "\<exists>s s'. vm_stack.push_all (NewStack n) vs = Some s
    \<and> vm_stack.pop_n s (length vs) = Some (vs, s')
    \<and> stack_items s' = [] \<and> length (stk_data s') = n - length vs"
  using vm_stack.first_in_first_out [of "NewStack n" vs] assms
  by (fastforce simp: stack_room_def [symmetric])

theorem Stack_is_fifo_witness:
  "\<exists>s s'. vm_stack.push_all (NewStack 128) [VInt 1, VInt 2] = Some s
    \<and> vm_stack.pop_n s (length [VInt 1, VInt 2]) = Some ([VInt 1, VInt 2], s')
    \<and> stack_items s' = [] \<and> length (stk_data s') = 128 - length [VInt 1, VInt 2]"
  by (rule Stack_is_fifo) simp

text \<open>
  A program whose first byte is a push panics at once, because the push reads the byte before
  the program; the contract state is untouched.
\<close>

theorem Run_leading_push_panics:
  assumes "b = InstrPushInt \<or> b = InstrPushByte"
  shows "Run (NewVM (b # rest) st) = Panics (NewVM (b # rest) st)"
  using assms
  by (subst Run.simps) (auto simp: NewVM_def Exec_def opcode_defs seq_def
      vm_operand_def Let_def)

theorem Run_leading_push_panics_witness:
  "Run (NewVM [0x0a, 0x0f] NewState) = Panics (NewVM [0x0a, 0x0f] NewState)"
  using Run_leading_push_panics [of "0x0a" "[0x0f]" NewState] by (simp add: opcode_defs)

end
