(* ===== verification/Account_State.thy ===== *)
theory Account_State
  imports Keypair Sha256
begin

text \<open>
  \<open>core/account_state.go\<close>: the balances. Accounts are held by pointer in a map keyed by address;
  every account object belongs to one key, so the map holds the objects themselves. The mutex is
  taken once per exported operation and never twice, so it does not appear. Balances are 64-bit
  and wrap around.
\<close>

section \<open>State and operations\<close>

record Account =
  acc_Address :: address
  acc_Balance :: u64

record AccountState =
  accounts :: "address \<rightharpoonup> Account"

datatype account_error = ErrAccountNotFound | ErrInsufficientBalance

definition NewAccountState :: AccountState where
  "NewAccountState = \<lparr>accounts = Map.empty\<rparr>"

text \<open>Creating an account replaces the one under that address, if any.\<close>

definition CreateAccount :: "AccountState \<Rightarrow> address \<Rightarrow> Account \<times> AccountState" where
  "CreateAccount s a =
     (let acc = \<lparr>acc_Address = a, acc_Balance = 0\<rparr>
      in (acc, s\<lparr>accounts := (accounts s)(a \<mapsto> acc)\<rparr>))"

definition getAccountWithoutLock :: "AccountState \<Rightarrow> address \<Rightarrow> account_error + Account" where
  "getAccountWithoutLock s a =
     (case accounts s a of None \<Rightarrow> Inl ErrAccountNotFound | Some account \<Rightarrow> Inr account)"

definition GetAccount :: "AccountState \<Rightarrow> address \<Rightarrow> account_error + Account" where
  "GetAccount s a = getAccountWithoutLock s a"

definition GetBalance :: "AccountState \<Rightarrow> address \<Rightarrow> account_error + u64" where
  "GetBalance s a =
     (case getAccountWithoutLock s a of
        Inl err \<Rightarrow> Inl err
      | Inr account \<Rightarrow> Inr (acc_Balance account))"

text \<open>The address literal of \<open>Transfer\<close>.\<close>

definition coinbase_text :: string where
  "coinbase_text = ''996fb92427ae41e4649b934ca495991b7852b855''"

text \<open>Assignment to the \<open>Balance\<close> field of the account object under a key.\<close>

definition set_balance :: "AccountState \<Rightarrow> address \<Rightarrow> u64 \<Rightarrow> AccountState" where
  "set_balance s a v =
     (case accounts s a of
        None \<Rightarrow> s
      | Some account \<Rightarrow> s\<lparr>accounts := (accounts s)(a \<mapsto> account\<lparr>acc_Balance := v\<rparr>)\<rparr>)"

definition balance_of :: "AccountState \<Rightarrow> address \<Rightarrow> u64" where
  "balance_of s a = (case accounts s a of None \<Rightarrow> 0 | Some account \<Rightarrow> acc_Balance account)"

definition Transfer ::
  "AccountState \<Rightarrow> address \<Rightarrow> address \<Rightarrow> u64 \<Rightarrow> account_error option \<times> AccountState" where
  "Transfer s from to amount =
     (case getAccountWithoutLock s from of
        Inl err \<Rightarrow> (Some err, s)
      | Inr fromAccount \<Rightarrow>
          if Address_String (acc_Address fromAccount) \<noteq> coinbase_text
             \<and> acc_Balance fromAccount < amount
          then (Some ErrInsufficientBalance, s)
          else
            (let s1 = (if acc_Balance fromAccount \<noteq> 0
                       then set_balance s from (acc_Balance fromAccount - amount) else s);
                 s2 = (if accounts s1 to = None
                       then s1\<lparr>accounts := (accounts s1)(to \<mapsto> \<lparr>acc_Address = to, acc_Balance = 0\<rparr>)\<rparr>
                       else s1)
             in (None, set_balance s2 to (balance_of s2 to + amount))))"

section \<open>Invariant\<close>

text \<open>Every account is stored under its own address, and there are finitely many.\<close>

definition accounts_ok :: "AccountState \<Rightarrow> bool" where
  "accounts_ok s \<longleftrightarrow> finite (dom (accounts s))
     \<and> (\<forall>a account. accounts s a = Some account \<longrightarrow> acc_Address account = a)"

lemma accounts_ok_New [simp]: "accounts_ok NewAccountState"
  by (simp add: accounts_ok_def NewAccountState_def)

lemma accounts_ok_finite: "accounts_ok s \<Longrightarrow> finite (dom (accounts s))"
  by (simp add: accounts_ok_def)

lemma accounts_ok_Create: "accounts_ok s \<Longrightarrow> accounts_ok (snd (CreateAccount s a))"
  by (auto simp: accounts_ok_def CreateAccount_def Let_def)

lemma accounts_ok_set_balance: "accounts_ok s \<Longrightarrow> accounts_ok (set_balance s a v)"
  by (auto simp: accounts_ok_def set_balance_def split: option.split)

lemma accounts_ok_fresh:
  "accounts_ok s \<Longrightarrow> accounts_ok (s\<lparr>accounts := (accounts s)(a \<mapsto> \<lparr>acc_Address = a, acc_Balance = v\<rparr>)\<rparr>)"
  by (auto simp: accounts_ok_def)

lemma accounts_ok_Transfer:
  "accounts_ok s \<Longrightarrow> accounts_ok (snd (Transfer s from to amount))"
  by (auto simp: Transfer_def Let_def intro!: accounts_ok_set_balance accounts_ok_fresh
      split: sum.split)

section \<open>Balances after a transfer\<close>

lemma balance_of_set_balance:
  "accounts s a \<noteq> None \<Longrightarrow>
   balance_of (set_balance s a v) b = (if b = a then v else balance_of s b)"
  by (auto simp: balance_of_def set_balance_def split: option.split)

lemma dom_set_balance [simp]: "dom (accounts (set_balance s a v)) = dom (accounts s)"
  by (auto simp: set_balance_def split: option.split)

lemma set_balance_present [simp]:
  "accounts (set_balance s a v) b = None \<longleftrightarrow> accounts s b = None"
  by (auto simp: set_balance_def split: option.split)

lemma balance_of_fresh:
  "accounts s a = None \<Longrightarrow>
   balance_of (s\<lparr>accounts := (accounts s)(a \<mapsto> \<lparr>acc_Address = a, acc_Balance = 0\<rparr>)\<rparr>) b = balance_of s b"
  by (simp add: balance_of_def)

lemma Transfer_cases:
  obtains (absent) "accounts s from = None"
      and "Transfer s from to amount = (Some ErrAccountNotFound, s)"
    | (insufficient) account where "accounts s from = Some account"
      and "Address_String (acc_Address account) \<noteq> coinbase_text" and "acc_Balance account < amount"
      and "Transfer s from to amount = (Some ErrInsufficientBalance, s)"
    | (success) account s' where "accounts s from = Some account"
      and "Address_String (acc_Address account) = coinbase_text \<or> amount \<le> acc_Balance account"
      and "Transfer s from to amount = (None, s')"
proof (cases "accounts s from")
  case None
  with absent show thesis by (simp add: Transfer_def getAccountWithoutLock_def)
next
  case (Some account)
  show thesis
  proof (cases "Address_String (acc_Address account) \<noteq> coinbase_text \<and> acc_Balance account < amount")
    case True
    with Some insufficient show thesis by (simp add: Transfer_def getAccountWithoutLock_def)
  next
    case False
    then obtain s' where "Transfer s from to amount = (None, s')"
      using Some by (simp add: Transfer_def getAccountWithoutLock_def Let_def)
    with False Some success show thesis by (auto simp: not_less)
  qed
qed

lemma Transfer_fails_unchanged:
  "Transfer s from to amount = (Some e, s') \<Longrightarrow> s' = s"
  by (auto simp: Transfer_def Let_def split: sum.splits if_splits)

lemma Transfer_success_from:
  "Transfer s from to amount = (None, s') \<Longrightarrow> accounts s from \<noteq> None"
  by (auto simp: Transfer_def getAccountWithoutLock_def split: option.splits)

text \<open>The balances after a successful transfer, as the code computes them, with wrap-around.\<close>

lemma Transfer_balances:
  assumes ok: "Transfer s from to amount = (None, s')"
  shows "balance_of s' x =
      (let debit = (\<lambda>a. if a = from \<and> balance_of s from \<noteq> 0
                        then balance_of s from - amount else balance_of s a)
       in if x = to then debit to + amount else debit x)"
    and "dom (accounts s') = insert to (dom (accounts s))"
proof -
  from Transfer_success_from [OF ok] obtain account where acc: "accounts s from = Some account"
    by auto
  define s1 where "s1 = (if acc_Balance account \<noteq> 0
    then set_balance s from (acc_Balance account - amount) else s)"
  define s2 where "s2 = (if accounts s1 to = None
    then s1\<lparr>accounts := (accounts s1)(to \<mapsto> \<lparr>acc_Address = to, acc_Balance = 0\<rparr>)\<rparr> else s1)"
  have bal: "balance_of s from = acc_Balance account" by (simp add: balance_of_def acc)
  have "Transfer s from to amount =
      (if Address_String (acc_Address account) \<noteq> coinbase_text \<and> acc_Balance account < amount
       then (Some ErrInsufficientBalance, s)
       else (None, set_balance s2 to (balance_of s2 to + amount)))"
    by (simp only: Transfer_def getAccountWithoutLock_def acc option.case sum.case Let_def
        s1_def s2_def)
  with ok have s': "s' = set_balance s2 to (balance_of s2 to + amount)"
    by (simp split: if_splits)
  have b1: "balance_of s1 y = (if y = from \<and> balance_of s from \<noteq> 0
      then balance_of s from - amount else balance_of s y)" for y
    by (simp add: s1_def balance_of_set_balance acc bal)
  have b2: "balance_of s2 y = balance_of s1 y" for y
    by (simp add: s2_def balance_of_fresh)
  have "accounts s2 to \<noteq> None" by (simp add: s2_def)
  then show "balance_of s' x =
      (let debit = (\<lambda>a. if a = from \<and> balance_of s from \<noteq> 0
                        then balance_of s from - amount else balance_of s a)
       in if x = to then debit to + amount else debit x)"
    by (simp add: s' balance_of_set_balance b2 b1 Let_def)
  have "dom (accounts s1) = dom (accounts s)" by (simp add: s1_def)
  then show "dom (accounts s') = insert to (dom (accounts s))"
    by (auto simp: s' s2_def)
qed

section \<open>The sum of all balances\<close>

text \<open>The sum modulo \<open>2 ^ 64\<close>, which is what the code's arithmetic works in.\<close>

definition total_supply :: "AccountState \<Rightarrow> u64" where
  "total_supply s = sum (balance_of s) (dom (accounts s))"

text \<open>What a transfer creates: from an account with balance zero, the amount itself.\<close>

definition minted :: "AccountState \<Rightarrow> address \<Rightarrow> u64 \<Rightarrow> u64" where
  "minted s from amount = (if balance_of s from = 0 then amount else 0)"

lemma sum_fun_upd:
  fixes f :: "'a \<Rightarrow> 'b::ab_group_add"
  assumes "finite A" and "x \<in> A"
  shows "sum (f(x := v)) A = sum f A - f x + v"
proof -
  have "sum (f(x := v)) A = v + sum (f(x := v)) (A - {x})"
    using assms by (subst sum.remove [of A x]) simp_all
  also have "sum (f(x := v)) (A - {x}) = sum f (A - {x})"
    by (rule sum.cong) auto
  also have "sum f (A - {x}) = sum f A - f x"
    using assms by (simp add: sum_diff1)
  finally show ?thesis by simp
qed

lemma total_supply_superset:
  assumes "finite A" and "dom (accounts s) \<subseteq> A"
  shows "total_supply s = sum (balance_of s) A"
  unfolding total_supply_def
  by (rule sum.mono_neutral_left) (use assms in \<open>auto simp: balance_of_def split: option.splits\<close>)

lemma Transfer_total_supply:
  assumes ok: "Transfer s from to amount = (None, s')" and fin: "finite (dom (accounts s))"
  shows "total_supply s' = total_supply s + minted s from amount"
proof -
  let ?A = "insert to (dom (accounts s))"
  let ?d = "if balance_of s from \<noteq> 0 then (balance_of s)(from := balance_of s from - amount)
    else balance_of s"
  have A: "finite ?A" "from \<in> ?A" "to \<in> ?A" using fin Transfer_success_from [OF ok] by auto
  have "balance_of s' = ?d(to := ?d to + amount)"
    by (rule ext) (simp add: Transfer_balances(1) [OF ok] Let_def)
  moreover have "total_supply s' = sum (balance_of s') ?A"
    using A(1) Transfer_balances(2) [OF ok] by (intro total_supply_superset) auto
  ultimately have "total_supply s' = sum (?d(to := ?d to + amount)) ?A" by simp
  then have "total_supply s' = sum ?d ?A + amount"
    unfolding sum_fun_upd [OF A(1,3)] by simp
  moreover have "sum ((balance_of s)(from := balance_of s from - amount)) ?A
      = sum (balance_of s) ?A - amount"
    unfolding sum_fun_upd [OF A(1,2)] by simp
  then have "sum ?d ?A = sum (balance_of s) ?A - (if balance_of s from \<noteq> 0 then amount else 0)"
    by simp
  moreover have "total_supply s = sum (balance_of s) ?A"
    using A(1) by (intro total_supply_superset) auto
  ultimately show ?thesis by (simp add: minted_def)
qed

section \<open>The contract of a ledger\<close>

text \<open>
  What the chain relies on when it processes the transfers of a block: a failed transfer changes
  nothing, a successful one changes the supply by what it mints, and senders that are \<open>plain\<close>
  mint nothing.
\<close>

locale ledger =
  fixes transfer :: "'s \<Rightarrow> 'a \<Rightarrow> 'a \<Rightarrow> 'v::ab_group_add \<Rightarrow> 'e option \<times> 's"
    and wealth :: "'s \<Rightarrow> 'v"
    and mint :: "'s \<Rightarrow> 'a \<Rightarrow> 'v \<Rightarrow> 'v"
    and ok :: "'s \<Rightarrow> bool"
    and plain :: "'a \<Rightarrow> bool"
  assumes failed: "transfer s f t v = (Some e, s') \<Longrightarrow> s' = s"
    and supplied: "ok s \<Longrightarrow> transfer s f t v = (None, s') \<Longrightarrow> wealth s' = wealth s + mint s f v"
    and kept: "ok s \<Longrightarrow> ok (snd (transfer s f t v))"
    and plain_mints_nothing: "ok s \<Longrightarrow> plain f \<Longrightarrow> transfer s f t v = (None, s') \<Longrightarrow> mint s f v = 0"
begin

primrec run :: "'s \<Rightarrow> ('a \<times> 'a \<times> 'v) list \<Rightarrow> 's" where
  "run s [] = s"
| "run s (op # ops) = (case op of (f, t, v) \<Rightarrow> run (snd (transfer s f t v)) ops)"

primrec created :: "'s \<Rightarrow> ('a \<times> 'a \<times> 'v) list \<Rightarrow> 'v" where
  "created s [] = 0"
| "created s (op # ops) =
     (case op of (f, t, v) \<Rightarrow>
        (if fst (transfer s f t v) = None then mint s f v else 0)
        + created (snd (transfer s f t v)) ops)"

lemma step_wealth:
  "ok s \<Longrightarrow> wealth (snd (transfer s f t v))
    = wealth s + (if fst (transfer s f t v) = None then mint s f v else 0)"
  by (cases "transfer s f t v"; cases "fst (transfer s f t v)") (auto dest: failed supplied)

lemma run_ok: "ok s \<Longrightarrow> ok (run s ops)"
  by (induction ops arbitrary: s) (auto simp: kept)

lemma run_wealth: "ok s \<Longrightarrow> wealth (run s ops) = wealth s + created s ops"
  by (induction ops arbitrary: s) (auto simp: kept step_wealth add.assoc)

lemma plain_created:
  "ok s \<Longrightarrow> (\<And>f t v. (f, t, v) \<in> set ops \<Longrightarrow> plain f) \<Longrightarrow> created s ops = 0"
proof (induction ops arbitrary: s)
  case Nil
  then show ?case by simp
next
  case (Cons op ops)
  obtain f t v where op: "op = (f, t, v)" by (cases op)
  from Cons.prems op have "plain f" by auto
  with Cons.prems(1) have "fst (transfer s f t v) = None \<Longrightarrow> mint s f v = 0"
    by (cases "transfer s f t v") (auto dest: plain_mints_nothing)
  moreover have "created (snd (transfer s f t v)) ops = 0"
    by (rule Cons.IH) (use Cons.prems kept in auto)
  ultimately show ?case by (simp add: op)
qed

lemma plain_run_wealth:
  "ok s \<Longrightarrow> (\<And>f t v. (f, t, v) \<in> set ops \<Longrightarrow> plain f) \<Longrightarrow> wealth (run s ops) = wealth s"
  by (simp add: run_wealth plain_created)

end

definition ordinary :: "address \<Rightarrow> bool" where
  "ordinary a \<longleftrightarrow> Address_String a \<noteq> coinbase_text"

lemma ordinary_mints_nothing:
  assumes "accounts_ok s" and "ordinary f" and "Transfer s f t v = (None, s')"
  shows "minted s f v = 0"
proof -
  from Transfer_success_from [OF assms(3)] obtain account where acc: "accounts s f = Some account"
    by auto
  with assms(1,2) have "Address_String (acc_Address account) \<noteq> coinbase_text"
    by (simp add: accounts_ok_def ordinary_def)
  with acc assms(3) have "v \<le> acc_Balance account"
    by (auto simp: Transfer_def getAccountWithoutLock_def not_less split: if_splits)
  with acc show ?thesis
    by (auto simp: minted_def balance_of_def dest: word_le_0_iff [THEN iffD1])
qed

interpretation account_ledger: ledger Transfer total_supply minted accounts_ok ordinary
  by unfold_locales
    (auto intro: Transfer_fails_unchanged Transfer_total_supply accounts_ok_Transfer
      ordinary_mints_nothing accounts_ok_finite)

text \<open>The address bytes of the literal.\<close>

definition coinbase_address :: address where
  "coinbase_address =
     [0x99, 0x6f, 0xb9, 0x24, 0x27, 0xae, 0x41, 0xe4, 0x64, 0x9b]
     @ [0x93, 0x4c, 0xa4, 0x95, 0x99, 0x1b, 0x78, 0x52, 0xb8, 0x55]"

lemma coinbase_address_text: "Address_String coinbase_address = coinbase_text"
  by (simp add: Address_String_def coinbase_address_def coinbase_text_def hex_digit_def
      hextable_def)

text \<open>Addresses for closed instances.\<close>

definition demo_address :: "byte \<Rightarrow> address" where
  "demo_address b = replicate 20 b"

lemma demo_address_inject [simp]: "demo_address a = demo_address b \<longleftrightarrow> a = b"
  by (simp add: demo_address_def)

lemma demo_address_not_coinbase [simp]:
  "demo_address b \<noteq> coinbase_address" "coinbase_address \<noteq> demo_address b"
proof -
  have "demo_address b ! 0 = demo_address b ! 1" by (simp add: demo_address_def)
  moreover have "coinbase_address ! 0 \<noteq> coinbase_address ! 1" by (simp add: coinbase_address_def)
  ultimately show "demo_address b \<noteq> coinbase_address" by metis
  then show "coinbase_address \<noteq> demo_address b" by metis
qed

lemma demo_address_ordinary [simp]: "Address_String (demo_address b) \<noteq> coinbase_text"
  by (metis Address_String_inject coinbase_address_text demo_address_not_coinbase(1))

section \<open>Properties\<close>

text \<open>
  Any sequence of transfers between accounts, none sent by the coinbase address, leaves the
  sum of all balances (modulo \<open>2 ^ 64\<close>) as it was, whichever of them fail.
\<close>

theorem transfers_conserve_supply:
  assumes "accounts_ok s"
    and "\<And>f t v. (f, t, v) \<in> set ops \<Longrightarrow> Address_String f \<noteq> coinbase_text"
  shows "total_supply (account_ledger.run s ops) = total_supply s
    \<and> accounts_ok (account_ledger.run s ops)"
  using account_ledger.plain_run_wealth [OF assms(1), of ops]
    account_ledger.run_ok [OF assms(1), of ops] assms(2)
  by (auto simp: ordinary_def)

theorem transfers_conserve_supply_witness:
  "total_supply (account_ledger.run (snd (CreateAccount NewAccountState (demo_address 1)))
     [(demo_address 1, demo_address 2, 7), (demo_address 3, demo_address 1, 0)])
   = total_supply (snd (CreateAccount NewAccountState (demo_address 1)))"
  by (rule conjunct1 [OF transfers_conserve_supply]) (auto intro: accounts_ok_Create)

text \<open>
  C35: a transfer between two different accounts from an ordinary sender succeeds exactly when the
  sender exists and holds the amount; then, if the receiver does not overflow, the sender has the
  amount less, the receiver the amount more, and every other balance is unchanged. A failed
  transfer changes nothing.
\<close>

theorem Transfer_moves_amount:
  assumes ok: "accounts_ok s" and plain: "Address_String from \<noteq> coinbase_text"
    and ne: "from \<noteq> to" and fits: "unat (balance_of s to) + unat amount < 2 ^ 64"
  shows "(fst (Transfer s from to amount) = None
      \<longleftrightarrow> accounts s from \<noteq> None \<and> amount \<le> balance_of s from)
    \<and> (fst (Transfer s from to amount) = None \<longrightarrow>
        (let s' = snd (Transfer s from to amount) in
         unat (balance_of s' from) = unat (balance_of s from) - unat amount
         \<and> unat (balance_of s' to) = unat (balance_of s to) + unat amount
         \<and> (\<forall>x. x \<noteq> from \<longrightarrow> x \<noteq> to \<longrightarrow> balance_of s' x = balance_of s x)))
    \<and> (fst (Transfer s from to amount) \<noteq> None \<longrightarrow> snd (Transfer s from to amount) = s)"
proof (cases rule: Transfer_cases [of s "from" to amount])
  case absent
  then show ?thesis by simp
next
  case (insufficient account)
  then show ?thesis by (simp add: balance_of_def not_le)
next
  case (success account s')
  with ok plain have le: "amount \<le> acc_Balance account" by (auto simp: accounts_ok_def)
  have b: "balance_of s from = acc_Balance account" using success(1) by (simp add: balance_of_def)
  note bal = Transfer_balances(1) [OF success(3)]
  have "unat (balance_of s' from) = unat (balance_of s from) - unat amount"
    using ne le b by (auto simp: bal Let_def unat_sub word_le_nat_alt)
  moreover have "unat (balance_of s' to) = unat (balance_of s to) + unat amount"
    using ne fits by (simp add: bal Let_def unat_word_ariths)
  moreover have "\<forall>x. x \<noteq> from \<longrightarrow> x \<noteq> to \<longrightarrow> balance_of s' x = balance_of s x"
    by (simp add: bal Let_def)
  ultimately show ?thesis using success le b by simp
qed

theorem Transfer_moves_amount_witness:
  "unat (balance_of (snd (Transfer
      \<lparr>accounts = [demo_address 1 \<mapsto> \<lparr>acc_Address = demo_address 1, acc_Balance = 100\<rparr>]\<rparr>
      (demo_address 1) (demo_address 2) 60)) (demo_address 2)) = 60"
proof -
  let ?s = "\<lparr>accounts = [demo_address 1 \<mapsto> \<lparr>acc_Address = demo_address 1, acc_Balance = 100\<rparr>]\<rparr>"
  have "accounts_ok ?s" by (simp add: accounts_ok_def)
  then show ?thesis
    using Transfer_moves_amount [of ?s "demo_address 1" "demo_address 2" 60]
    by (simp add: balance_of_def Let_def)
qed

text \<open>
  The balance check does not apply to the coinbase address. With a nonzero balance below the
  amount its transfer succeeds and its own balance wraps around to \<open>2 ^ 64 + balance - amount\<close>;
  with balance zero the amount is created.
\<close>

theorem coinbase_overdraws:
  assumes "accounts s from = Some \<lparr>acc_Address = from, acc_Balance = b\<rparr>"
    and "Address_String from = coinbase_text" and "b < amount" and "to \<noteq> from"
  shows "\<exists>s'. Transfer s from to amount = (None, s')
    \<and> unat (balance_of s' from) = (if b = 0 then 0 else 2 ^ 64 + unat b - unat amount)
    \<and> balance_of s' to = balance_of s to + amount"
proof (cases rule: Transfer_cases [of s "from" to amount])
  case absent
  with assms show ?thesis by simp
next
  case (insufficient account)
  with assms show ?thesis by simp
next
  case (success account s')
  note bal = Transfer_balances(1) [OF success(3)]
  have "balance_of s from = b" using assms(1) by (simp add: balance_of_def)
  moreover have "unat (b - amount) = 2 ^ 64 + unat b - unat amount"
    using assms(3) by (simp add: unat_sub_if' word_less_nat_alt)
  ultimately show ?thesis using success assms(4) by (simp add: bal Let_def)
qed

theorem coinbase_overdraws_witness:
  "\<exists>s'. Transfer \<lparr>accounts = [coinbase_address \<mapsto> \<lparr>acc_Address = coinbase_address, acc_Balance = 5\<rparr>]\<rparr>
      coinbase_address (demo_address 1) 10 = (None, s')
    \<and> unat (balance_of s' coinbase_address) = 18446744073709551611"
  using coinbase_overdraws [of "\<lparr>accounts = [coinbase_address \<mapsto> \<lparr>acc_Address = coinbase_address, acc_Balance = 5\<rparr>]\<rparr>"
      coinbase_address 5 10 "demo_address 1"]
  by (auto simp: coinbase_address_text)

text \<open>
  The address literal of \<open>Transfer\<close> is the address of the empty public key under SHA-256,
  which is the coinbase key of the genesis block.
\<close>

theorem coinbase_literal_is_empty_key:
  "\<exists>a. PublicKey_Address (P\<lparr>sha256 := Sum256\<rparr>) [] = Some a \<and> Address_String a = coinbase_text"
  by (simp add: PublicKey_Address_def Sum256_empty AddressFromBytes_def Let_def
      coinbase_address_text [unfolded coinbase_address_def append.simps])

end
