(* ===== verification/Transaction.thy ===== *)
theory Transaction
  imports Keypair Student
begin

text \<open>
  \<open>core/transaction.go\<close>, the transaction part of \<open>core/hasher.go\<close> and of \<open>core/encoding.go\<close>.
  A transaction is passed by pointer and caches its hash in the exported field \<open>TxHash\<close>, which
  travels with it; \<open>Hash\<close>, \<open>Sign\<close> and \<open>Verify\<close> write that field, so they run on the transaction
  as state. The \<open>gob\<close> encodings of the standard library are fields of \<open>tx_prims\<close>.
\<close>

section \<open>Data\<close>

record CollectionTx =
  col_Fee :: i64
  col_MetaData :: bytes

record MintTx =
  mint_Fee :: i64
  mint_NFT :: hash
  mint_Collection :: hash
  mint_MetaData :: bytes
  mint_CollectionOwner :: PublicKey
  mint_Signature :: Signature

text \<open>
  The field \<open>TxInner\<close> of type \<open>any\<close>: \<open>nil\<close>, one of the three types the code dispatches on, or a
  value of any other type, of which only the bytes of its encoding are kept.
\<close>

datatype tx_inner =
  NoInner
| InCollection CollectionTx
| InMint MintTx
| InStudent StudentTx
| InOther bytes

record Transaction =
  tx_TxInner :: tx_inner
  tx_Data :: bytes
  tx_To :: PublicKey
  tx_Value :: u64
  tx_From :: PublicKey
  tx_Signature :: "Signature option"
  tx_Nonce :: i64
  tx_TxHash :: hash

text \<open>
  \<open>gob_inner\<close> encodes the dynamic value of \<open>TxInner\<close> and \<open>gob_tx\<close> a whole transaction, \<open>None\<close>
  where the encoder reports an error (a type it cannot encode or that is not registered);
  \<open>gob_untx\<close> decodes.
\<close>

record tx_prims = crypto_prims +
  gob_inner :: "tx_inner \<Rightarrow> bytes option"
  gob_tx :: "Transaction \<Rightarrow> bytes option"
  gob_untx :: "bytes \<Rightarrow> Transaction option"

text \<open>What is encoded decodes to the same transaction.\<close>

definition gob_tx_roundtrip :: "'z tx_prims_scheme \<Rightarrow> bool" where
  "gob_tx_roundtrip P \<longleftrightarrow> (\<forall>tx b. gob_tx P tx = Some b \<longrightarrow> gob_untx P b = Some tx)"

datatype tx_error = TxSignFailed | TxNoSignature | TxInvalidSignature

section \<open>Operations\<close>

text \<open>\<open>rand.Int63n\<close> supplies the nonce.\<close>

definition NewTransaction :: "bytes \<Rightarrow> i64 \<Rightarrow> Transaction" where
  "NewTransaction data nonce = \<lparr>tx_TxInner = NoInner, tx_Data = data, tx_To = [], tx_Value = 0,
     tx_From = [], tx_Signature = None, tx_Nonce = nonce, tx_TxHash = zero_hash\<rparr>"

text \<open>
  The bytes that are hashed: the encoded inner value, then the fields one after another, the
  slices without a length. \<open>None\<close> is the panic on an inner value that cannot be encoded.
\<close>

definition tx_fields_bytes :: "Transaction \<Rightarrow> bytes" where
  "tx_fields_bytes tx = tx_Data tx @ tx_To tx @ le_bytes 8 (tx_Value tx) @ tx_From tx
     @ le_bytes 8 (tx_Nonce tx)"

definition tx_preimage :: "'z tx_prims_scheme \<Rightarrow> Transaction \<Rightarrow> bytes option" where
  "tx_preimage P tx =
     (case tx_TxInner tx of
        NoInner \<Rightarrow> Some (tx_fields_bytes tx)
      | inner \<Rightarrow>
          (case gob_inner P inner of
             None \<Rightarrow> None
           | Some b \<Rightarrow> Some (b @ tx_fields_bytes tx)))"

definition TxHasher_Hash :: "'z tx_prims_scheme \<Rightarrow> Transaction \<Rightarrow> hash option" where
  "TxHasher_Hash P tx = map_option (sha256 P) (tx_preimage P tx)"

definition Transaction_Hash :: "'z tx_prims_scheme \<Rightarrow> (hash, Transaction) prog" where
  "Transaction_Hash P tx =
     (if Hash_IsZero (tx_TxHash tx) then
        (case TxHasher_Hash P tx of
           None \<Rightarrow> Panics tx
         | Some h \<Rightarrow> Returns h (tx\<lparr>tx_TxHash := h\<rparr>))
      else Returns (tx_TxHash tx) tx)"

definition Transaction_Sign ::
  "'z tx_prims_scheme \<Rightarrow> PrivateKey \<Rightarrow> nat \<Rightarrow> (tx_error option, Transaction) prog" where
  "Transaction_Sign P privKey rnd =
     seq (Transaction_Hash P) (\<lambda>hash tx.
       case PrivateKey_Sign P privKey rnd (Hash_ToSlice hash) of
         None \<Rightarrow> Returns (Some TxSignFailed) tx
       | Some sg \<Rightarrow>
           Returns None (tx\<lparr>tx_From := PrivateKey_PublicKey P privKey, tx_Signature := Some sg\<rparr>))"

definition Transaction_Verify :: "'z tx_prims_scheme \<Rightarrow> (tx_error option, Transaction) prog" where
  "Transaction_Verify P tx0 =
     (case tx_Signature tx0 of
        None \<Rightarrow> Returns (Some TxNoSignature) tx0
      | Some _ \<Rightarrow>
          seq (Transaction_Hash P) (\<lambda>hash tx.
            case tx_Signature tx of
              None \<Rightarrow> Panics tx
            | Some sg \<Rightarrow>
                (case Signature_Verify P sg (tx_From tx) (Hash_ToSlice hash) of
                   None \<Rightarrow> Panics tx
                 | Some valid \<Rightarrow>
                     if \<not> valid then Returns (Some TxInvalidSignature) tx
                     else Returns None tx)) tx0)"

text \<open>
  The encoder of \<open>core/encoding.go\<close> is made for a writer, the decoder for a reader; each call makes
  a new \<open>gob\<close> coder. Encoding appends to the writer; decoding overwrites the receiver, which is
  fresh.
\<close>

definition GobTxEncoder_Encode ::
  "'z tx_prims_scheme \<Rightarrow> bytes \<Rightarrow> Transaction \<Rightarrow> bytes option" where
  "GobTxEncoder_Encode P w tx = (case gob_tx P tx of None \<Rightarrow> None | Some b \<Rightarrow> Some (w @ b))"

definition GobTxDecoder_Decode :: "'z tx_prims_scheme \<Rightarrow> bytes \<Rightarrow> Transaction option" where
  "GobTxDecoder_Decode P r = gob_untx P r"

definition Transaction_Encode ::
  "'z tx_prims_scheme \<Rightarrow> Transaction \<Rightarrow> bytes \<Rightarrow> bytes option" where
  "Transaction_Encode P tx w = GobTxEncoder_Encode P w tx"

definition Transaction_Decode :: "'z tx_prims_scheme \<Rightarrow> bytes \<Rightarrow> Transaction option" where
  "Transaction_Decode P r = GobTxDecoder_Decode P r"

lemmas tx_coding = Transaction_Encode_def GobTxEncoder_Encode_def Transaction_Decode_def
  GobTxDecoder_Decode_def

section \<open>The cached hash\<close>

text \<open>
  Transactions and blocks cache their hash alike: the method computes it only when the cache is
  zero. What a client may rely on holds for both: the hash does not depend on the cache field,
  asking twice gives the same answer, and a nonzero cache is believed whatever the contents are.
\<close>

locale cached_hash =
  fixes hash_of :: "(hash, 't) prog"
    and fresh :: "'t \<Rightarrow> hash option"
    and cache :: "'t \<Rightarrow> hash"
    and store :: "'t \<Rightarrow> hash \<Rightarrow> 't"
  assumes hash_of_cached: "\<not> Hash_IsZero (cache t) \<Longrightarrow> hash_of t = Returns (cache t) t"
    and hash_of_fresh: "Hash_IsZero (cache t) \<Longrightarrow> fresh t = Some h \<Longrightarrow> hash_of t = Returns h (store t h)"
    and hash_of_panic: "Hash_IsZero (cache t) \<Longrightarrow> fresh t = None \<Longrightarrow> hash_of t = Panics t"
    and fresh_store: "fresh (store t h) = fresh t"
    and cache_store: "cache (store t h) = h"
    and store_store: "store (store t h) h = store t h"
begin

lemma hash_of_cases:
  obtains (cached) "\<not> Hash_IsZero (cache t)" and "hash_of t = Returns (cache t) t"
    | (computed) h where "Hash_IsZero (cache t)" and "fresh t = Some h" and "hash_of t = Returns h (store t h)"
    | (panics) "Hash_IsZero (cache t)" and "fresh t = None" and "hash_of t = Panics t"
  using hash_of_cached hash_of_fresh hash_of_panic by (cases "fresh t") blast+

lemma hash_of_again:
  assumes "hash_of t = Returns h t'"
  shows "hash_of t' = Returns h t'"
proof (cases rule: hash_of_cases [of t])
  case cached
  with assms show ?thesis by (metis outcome.inject(1))
next
  case (computed k)
  from Returns_unique [OF computed(3) assms] have t': "h = k" "t' = store t h" by simp_all
  show ?thesis
  proof (cases "Hash_IsZero h")
    case True
    with computed t' show ?thesis
      using hash_of_fresh [of t' h] by (simp add: cache_store fresh_store store_store)
  next
    case False
    with t' show ?thesis using hash_of_cached [of t'] by (simp add: cache_store)
  qed
next
  case panics
  with assms show ?thesis by simp
qed

lemma hash_of_result:
  assumes "hash_of t = Returns h t'"
  shows "cache t' = h" and "fresh t' = fresh t"
  using assms
  by (cases rule: hash_of_cases [of t]; metis outcome.inject(1) outcome.distinct(1)
      cache_store fresh_store)+

lemma hash_of_never_blocks: "hash_of t \<noteq> Blocks t'"
  by (cases rule: hash_of_cases [of t]) auto

lemma hash_of_consistent:
  assumes "Hash_IsZero (cache t) \<or> fresh t = Some (cache t)" and "hash_of t = Returns h t'"
  shows "fresh t = Some h"
  using assms by (cases rule: hash_of_cases [of t]) auto

end

lemma tx_fields_bytes_TxHash [simp]: "tx_fields_bytes (t\<lparr>tx_TxHash := h\<rparr>) = tx_fields_bytes t"
  by (simp add: tx_fields_bytes_def)

interpretation tx_cache: cached_hash "Transaction_Hash P" "TxHasher_Hash P" tx_TxHash
    "\<lambda>t h. t\<lparr>tx_TxHash := h\<rparr>" for P :: "'z tx_prims_scheme"
proof
  show "TxHasher_Hash P (t\<lparr>tx_TxHash := h\<rparr>) = TxHasher_Hash P t" for t h
    by (simp add: TxHasher_Hash_def tx_preimage_def split: tx_inner.split option.split)
qed (simp_all add: Transaction_Hash_def)

lemma Transaction_Hash_frame:
  assumes "Transaction_Hash P tx = Returns h tx'"
  shows "tx_TxInner tx' = tx_TxInner tx" "tx_Data tx' = tx_Data tx" "tx_To tx' = tx_To tx"
    "tx_Value tx' = tx_Value tx" "tx_From tx' = tx_From tx" "tx_Signature tx' = tx_Signature tx"
    "tx_Nonce tx' = tx_Nonce tx" "tx_TxHash tx' = h"
  using assms by (auto simp: Transaction_Hash_def split: if_splits option.splits)

lemmas tx_hash_cases = tx_cache.hash_of_cases

text \<open>What a transaction is apart from the cached hash.\<close>

definition same_content :: "Transaction \<Rightarrow> Transaction \<Rightarrow> bool" where
  "same_content tx tx' \<longleftrightarrow> (\<exists>h. tx' = tx\<lparr>tx_TxHash := h\<rparr>)"

lemma same_content_refl [simp]: "same_content tx tx"
  unfolding same_content_def by (rule exI [of _ "tx_TxHash tx"]) simp

lemma same_content_trans: "same_content a b \<Longrightarrow> same_content b c \<Longrightarrow> same_content a c"
  by (auto simp: same_content_def)

interpretation same_content: state_preorder same_content
  by unfold_locales (auto intro: same_content_trans)

lemma same_content_TxHash [simp]: "same_content tx (tx\<lparr>tx_TxHash := h\<rparr>)"
  by (auto simp: same_content_def)

lemma keeps_Transaction_Hash: "keeps same_content (Transaction_Hash P)"
  by (auto simp: keeps_def Transaction_Hash_def split: option.split)

lemma keeps_Transaction_Verify: "keeps same_content (Transaction_Verify P)"
proof -
  have "keeps same_content (seq (Transaction_Hash P) (\<lambda>hash tx.
      case tx_Signature tx of None \<Rightarrow> Panics tx
      | Some sg \<Rightarrow> (case Signature_Verify P sg (tx_From tx) (Hash_ToSlice hash) of
          None \<Rightarrow> Panics tx
        | Some valid \<Rightarrow> if \<not> valid then Returns (Some TxInvalidSignature) tx else Returns None tx)))"
    by (rule same_content.keeps_seq [OF keeps_Transaction_Hash])
      (auto simp: keeps_def split: option.split)
  then show ?thesis
    by (auto simp: keeps_def Transaction_Verify_def split: option.split)
qed

section \<open>Signing and verifying\<close>

lemma Transaction_Sign_Returns:
  assumes "Transaction_Sign P k rnd tx = Returns None tx'"
  obtains hash tx1 sg where "Transaction_Hash P tx = Returns hash tx1"
    and "PrivateKey_Sign P k rnd hash = Some sg"
    and "tx' = tx1\<lparr>tx_From := PrivateKey_PublicKey P k, tx_Signature := Some sg\<rparr>"
  using assms
  by (cases "Transaction_Hash P tx") (auto simp: Transaction_Sign_def seq_def split: option.splits)

lemma Transaction_Verify_accepts:
  assumes "tx_Signature tx = Some sg" and "Transaction_Hash P tx = Returns h tx'"
    and "Signature_Verify P sg (tx_From tx) h = Some True"
  shows "Transaction_Verify P tx = Returns None tx'"
  using assms Transaction_Hash_frame [OF assms(2)]
  by (simp add: Transaction_Verify_def seq_def)

lemma Transaction_Verify_accepted:
  assumes "Transaction_Verify P tx = Returns None tx'"
  obtains sg h where "tx_Signature tx = Some sg" and "Transaction_Hash P tx = Returns h tx'"
    and "Signature_Verify P sg (tx_From tx) h = Some True"
proof (cases "tx_Signature tx")
  case None
  with assms show ?thesis by (simp add: Transaction_Verify_def)
next
  case (Some sg)
  show ?thesis
  proof (cases "Transaction_Hash P tx")
    case (Returns h tx1)
    with assms Some show ?thesis
      using that [OF Some] Transaction_Hash_frame [OF Returns]
      by (auto simp: Transaction_Verify_def seq_def split: option.splits if_splits)
  qed (use assms Some in \<open>simp_all add: Transaction_Verify_def seq_def\<close>)
qed

text \<open>Verifying again, as every node that relays or includes the transaction does, agrees.\<close>

lemma Transaction_Verify_again:
  assumes "Transaction_Verify P tx = Returns None tx'"
  shows "Transaction_Verify P tx' = Returns None tx'"
proof (rule Transaction_Verify_accepted [OF assms])
  fix sg h
  assume a: "tx_Signature tx = Some sg" "Transaction_Hash P tx = Returns h tx'"
    "Signature_Verify P sg (tx_From tx) h = Some True"
  note fr = Transaction_Hash_frame [OF a(2)]
  from a(1) have "tx_Signature tx' = Some sg" by (simp add: fr(6))
  moreover from a(3) have "Signature_Verify P sg (tx_From tx') h = Some True" by (simp add: fr(5))
  ultimately show "Transaction_Verify P tx' = Returns None tx'"
    using tx_cache.hash_of_again [OF a(2)] by (intro Transaction_Verify_accepts)
qed

section \<open>Concrete primitives for evaluation\<close>

definition demo_tx_prims :: tx_prims where
  "demo_tx_prims = \<lparr>
     sha256 = demo_sha,
     ecdsa_verify = ecdsa_verify demo_prims,
     ecdsa_sign = ecdsa_sign demo_prims,
     marshal_public = marshal_public demo_prims,
     gob_inner = (\<lambda>i. case i of InOther b \<Rightarrow> None | InStudent s \<Rightarrow> Some [stx_Type s] | _ \<Rightarrow> Some [9]),
     gob_tx = (\<lambda>tx. Some (tx_fields_bytes tx @ tx_TxHash tx)),
     gob_untx = (\<lambda>b. None)\<rparr>"

lemma demo_tx_prims_ok: "sha_fixed_length demo_tx_prims \<and> signatures_verify demo_tx_prims"
  using demo_prims_ok
  by (simp add: sha_fixed_length_def signatures_verify_def demo_tx_prims_def demo_prims_def)

section \<open>Properties\<close>

lemma signed_hash_kept:
  assumes h: "Transaction_Hash P tx = Returns hash tx1"
    and tx': "tx' = tx1\<lparr>tx_From := pk, tx_Signature := Some sg\<rparr>"
    and c: "tx_From tx = pk \<or> \<not> Hash_IsZero hash"
  shows "Transaction_Hash P tx' = Returns hash tx'"
proof (cases "Hash_IsZero hash")
  case False
  then show ?thesis using Transaction_Hash_frame(8) [OF h] by (simp add: tx' Transaction_Hash_def)
next
  case True
  note fr = Transaction_Hash_frame [OF h]
  from True c have "tx_From tx1 = pk" by (simp add: fr(5))
  then have same: "TxHasher_Hash P tx' = TxHasher_Hash P tx1"
    by (simp add: tx' TxHasher_Hash_def tx_preimage_def tx_fields_bytes_def split: tx_inner.split option.split)
  from tx_cache.hash_of_again [OF h] True fr(8) have "TxHasher_Hash P tx1 = Some hash"
    by (auto simp: Transaction_Hash_def split: option.splits)
  with same True show ?thesis by (simp add: Transaction_Hash_def tx' fr(8))
qed

lemma signed_verifies:
  assumes "signatures_verify P" and sign: "Transaction_Sign P k rnd tx = Returns None tx'"
    and "tx_From tx = PrivateKey_PublicKey P k \<or> \<not> Hash_IsZero (tx_TxHash tx')"
  shows "Transaction_Verify P tx' = Returns None tx' \<and> tx_From tx' = PrivateKey_PublicKey P k"
proof (rule Transaction_Sign_Returns [OF sign])
  fix hash tx1 sg
  assume h: "Transaction_Hash P tx = Returns hash tx1"
    and sg: "PrivateKey_Sign P k rnd hash = Some sg"
    and tx': "tx' = tx1\<lparr>tx_From := PrivateKey_PublicKey P k, tx_Signature := Some sg\<rparr>"
  have "Transaction_Hash P tx' = Returns hash tx'"
    using signed_hash_kept [OF h tx'] assms(3) Transaction_Hash_frame(8) [OF h] by (simp add: tx')
  moreover have "Signature_Verify P sg (tx_From tx') hash = Some True"
    using Sign_then_Verify [OF assms(1) sg] by (simp add: tx')
  ultimately show ?thesis by (auto intro: Transaction_Verify_accepts simp: tx')
qed

text \<open>
  C36: a transaction that was signed verifies under the signer's key, provided the sender field
  was set before signing or the hash is not zero, and verifying leaves it as it is.
\<close>

theorem signed_transaction_verifies:
  assumes "signatures_verify P" and sign: "Transaction_Sign P k rnd tx = Returns None tx'"
    and "tx_From tx = PrivateKey_PublicKey P k \<or> \<not> Hash_IsZero (tx_TxHash tx')"
  shows "Transaction_Verify P tx' = Returns None tx' \<and> tx_From tx' = PrivateKey_PublicKey P k"
  by (rule signed_verifies [OF assms])

theorem signed_transaction_verifies_witness:
  "\<exists>tx'. Transaction_Sign demo_tx_prims 3 0 (NewTransaction [1, 2] 5) = Returns None tx'
    \<and> Transaction_Verify demo_tx_prims tx' = Returns None tx'"
proof -
  have P: "signatures_verify demo_tx_prims" using demo_tx_prims_ok by simp
  obtain tx' where tx': "Transaction_Sign demo_tx_prims 3 0 (NewTransaction [1, 2] 5) = Returns None tx'"
    "\<not> Hash_IsZero (tx_TxHash tx')"
    by (auto simp: Transaction_Sign_def seq_def Transaction_Hash_def NewTransaction_def
        TxHasher_Hash_def tx_preimage_def PrivateKey_Sign_def demo_tx_prims_def demo_prims_def)
  with signed_transaction_verifies [OF P tx'(1)] show ?thesis by blast
qed

text \<open>
  C37: verification believes the hash a transaction carries. Once it accepts a transaction with a
  nonzero \<open>TxHash\<close>, it accepts the same transaction with any other data, receiver, value, nonce
  and inner value.
\<close>

theorem Verify_ignores_content:
  assumes "Transaction_Verify P tx = Returns None tx" and "\<not> Hash_IsZero (tx_TxHash tx)"
  shows "Transaction_Verify P
      (tx\<lparr>tx_Data := d, tx_To := t, tx_Value := v, tx_Nonce := n, tx_TxInner := i\<rparr>)
    = Returns None (tx\<lparr>tx_Data := d, tx_To := t, tx_Value := v, tx_Nonce := n, tx_TxInner := i\<rparr>)"
proof (rule Transaction_Verify_accepted [OF assms(1)])
  fix sg h
  assume a: "tx_Signature tx = Some sg" "Transaction_Hash P tx = Returns h tx"
    "Signature_Verify P sg (tx_From tx) h = Some True"
  from a(2) assms(2) have "h = tx_TxHash tx" by (simp add: Transaction_Hash_def)
  with a(1,3) assms(2) show ?thesis
    by (intro Transaction_Verify_accepts) (simp_all add: Transaction_Hash_def)
qed

definition demo_tx :: Transaction where
  "demo_tx = \<lparr>tx_TxInner = NoInner, tx_Data = [], tx_To = [4], tx_Value = 7, tx_From = [3],
     tx_Signature = Some \<lparr>sig_S = Some 45, sig_R = Some 3\<rparr>, tx_Nonce = 0,
     tx_TxHash = 7 # 38 # replicate 30 0\<rparr>"

lemma demo_tx_hash: "Transaction_Hash P demo_tx = Returns (tx_TxHash demo_tx) demo_tx"
  by (simp add: Transaction_Hash_def demo_tx_def Hash_IsZero_def)

theorem Verify_ignores_content_witness:
  "Transaction_Verify demo_tx_prims demo_tx = Returns None demo_tx
   \<and> Transaction_Verify demo_tx_prims (demo_tx\<lparr>tx_Data := [], tx_To := [66], tx_Value := 1000000,
       tx_Nonce := 0, tx_TxInner := NoInner\<rparr>)
     = Returns None (demo_tx\<lparr>tx_Data := [], tx_To := [66], tx_Value := 1000000, tx_Nonce := 0,
       tx_TxInner := NoInner\<rparr>)"
proof -
  have a: "Transaction_Verify demo_tx_prims demo_tx = Returns None demo_tx"
    and b: "\<not> Hash_IsZero (tx_TxHash demo_tx)"
    by (simp_all add: Transaction_Verify_def seq_def Transaction_Hash_def demo_tx_def
        Hash_IsZero_def Signature_Verify_def demo_tx_prims_def demo_prims_def sum_list_replicate)
  from a Verify_ignores_content [OF a b] show ?thesis by blast
qed

text \<open>
  The hashed bytes do not separate the data from the receiver. Moving bytes across that
  boundary keeps the hash, and with an uncached hash also the verdict of verification.
\<close>

theorem TxHasher_data_receiver_malleable:
  assumes "tx_Data tx @ tx_To tx = d @ t"
  shows "TxHasher_Hash P (tx\<lparr>tx_Data := d, tx_To := t\<rparr>) = TxHasher_Hash P tx
    \<and> (Transaction_Verify P tx = Returns None tx' \<longrightarrow>
        Transaction_Verify P (tx\<lparr>tx_Data := d, tx_To := t\<rparr>)
          = Returns None (tx'\<lparr>tx_Data := d, tx_To := t\<rparr>))"
proof -
  let ?u = "tx\<lparr>tx_Data := d, tx_To := t\<rparr>"
  have "tx_fields_bytes ?u = tx_fields_bytes tx"
    using assms by (simp add: tx_fields_bytes_def append_assoc [symmetric] del: append_assoc)
  then have same: "TxHasher_Hash P ?u = TxHasher_Hash P tx"
    by (simp add: TxHasher_Hash_def tx_preimage_def split: tx_inner.split option.split)
  have "Transaction_Verify P ?u = Returns None (tx'\<lparr>tx_Data := d, tx_To := t\<rparr>)"
    if "Transaction_Verify P tx = Returns None tx'"
  proof (rule Transaction_Verify_accepted [OF that])
    fix sg h
    assume a: "tx_Signature tx = Some sg" "Transaction_Hash P tx = Returns h tx'"
      "Signature_Verify P sg (tx_From tx) h = Some True"
    from a(2) same have "Transaction_Hash P ?u = Returns h (tx'\<lparr>tx_Data := d, tx_To := t\<rparr>)"
      by (auto simp: Transaction_Hash_def split: if_splits option.splits)
    with a(1,3) show ?thesis by (intro Transaction_Verify_accepts) simp_all
  qed
  with same show ?thesis by blast
qed

theorem TxHasher_data_receiver_malleable_witness:
  "TxHasher_Hash demo_tx_prims (NewTransaction [1, 2, 3] 5) = TxHasher_Hash demo_tx_prims ((NewTransaction [] 5)\<lparr>tx_To := [1, 2, 3]\<rparr>)"
  using TxHasher_data_receiver_malleable [of "NewTransaction [1, 2, 3] 5" "[]" "[1, 2, 3]" demo_tx_prims]
  by (simp add: NewTransaction_def)

text \<open>
  What the hash does bind. For two transactions with the same inner value and equally long
  data and receiver fields, on whose hashed bytes the hash function does not collide, equal
  hashes mean equal data, receiver, value, sender and nonce.
\<close>

theorem TxHasher_binds_content:
  assumes "tx_TxInner a = tx_TxInner b" and "length (tx_Data a) = length (tx_Data b)"
    and "length (tx_To a) = length (tx_To b)"
    and "TxHasher_Hash P a = Some h" and "TxHasher_Hash P b = Some h"
    and "\<And>x y. tx_preimage P a = Some x \<Longrightarrow> tx_preimage P b = Some y \<Longrightarrow>
          sha256 P x = sha256 P y \<Longrightarrow> x = y"
  shows "tx_Data a = tx_Data b \<and> tx_To a = tx_To b \<and> tx_Value a = tx_Value b
    \<and> tx_From a = tx_From b \<and> tx_Nonce a = tx_Nonce b"
proof -
  from assms(4,5) obtain x y where x: "tx_preimage P a = Some x" and y: "tx_preimage P b = Some y"
    and "sha256 P x = sha256 P y" by (auto simp: TxHasher_Hash_def)
  with assms(6) have "x = y" by blast
  with x y assms(1) have "tx_fields_bytes a = tx_fields_bytes b"
    by (auto simp: tx_preimage_def split: tx_inner.splits option.splits)
  then show ?thesis using assms(2,3) by (auto simp: tx_fields_bytes_def le_bytes_inject_64)
qed

theorem TxHasher_binds_content_witness:
  "tx_Value demo_tx = 7 \<and> TxHasher_Hash demo_tx_prims demo_tx \<noteq> None"
proof -
  obtain h where h: "TxHasher_Hash demo_tx_prims demo_tx = Some h"
    by (auto simp: TxHasher_Hash_def tx_preimage_def demo_tx_def)
  have "tx_Value demo_tx = tx_Value (demo_tx\<lparr>tx_TxHash := zero_hash\<rparr>)"
    using TxHasher_binds_content [of demo_tx "demo_tx\<lparr>tx_TxHash := zero_hash\<rparr>" demo_tx_prims h] h
    by (simp add: tx_cache.fresh_store tx_preimage_def)
  then show ?thesis using h by (simp add: demo_tx_def)
qed

end
