(* ===== verification/Block.thy ===== *)
theory Block
  imports Transaction
begin

text \<open>
  \<open>core/block.go\<close> and the block part of \<open>core/hasher.go\<close>: headers, blocks, the data hash over
  the encoded transactions, signing and verification. A block holds its header and its
  transactions by pointer; \<open>Verify\<close> and \<open>Hash\<close> write the hash caches inside it, so they run on
  the block as state. The header of a block is present (a decoded block without one is a case of
  the message layer).
\<close>

section \<open>Data\<close>

record Header =
  Version :: u32
  DataHash :: hash
  PrevBlockHash :: hash
  Height :: u32
  Timestamp :: i64

record Block =
  blk_Header :: Header
  blk_Transactions :: "Transaction list"
  blk_Validator :: PublicKey
  blk_Signature :: "Signature option"
  blk_hash :: hash

text \<open>\<open>gob_header\<close> is the \<open>gob\<close> encoding of a header, which always succeeds.\<close>

record prims = tx_prims +
  gob_header :: "Header \<Rightarrow> bytes"

datatype block_error =
  BlockSignFailed
| BlockNoSignature
| BlockInvalidSignature
| BlockTxError tx_error
| BlockEncodeFailed
| BlockInvalidDataHash

section \<open>Operations\<close>

definition Header_Bytes :: "'z prims_scheme \<Rightarrow> Header \<Rightarrow> bytes" where
  "Header_Bytes P h = gob_header P h"

definition BlockHasher_Hash :: "'z prims_scheme \<Rightarrow> Header \<Rightarrow> hash" where
  "BlockHasher_Hash P h = sha256 P (Header_Bytes P h)"

definition Block_Hash :: "'z prims_scheme \<Rightarrow> (hash, Block) prog" where
  "Block_Hash P b =
     (if Hash_IsZero (blk_hash b) then
        (let h = BlockHasher_Hash P (blk_Header b) in Returns h (b\<lparr>blk_hash := h\<rparr>))
      else Returns (blk_hash b) b)"

definition NewBlock :: "Header \<Rightarrow> Transaction list \<Rightarrow> Block" where
  "NewBlock h txx = \<lparr>blk_Header = h, blk_Transactions = txx, blk_Validator = [],
     blk_Signature = None, blk_hash = zero_hash\<rparr>"

text \<open>The encodings of all transactions, one after another; \<open>None\<close> is the encoder's error.\<close>

primrec encode_txs :: "'z tx_prims_scheme \<Rightarrow> bytes \<Rightarrow> Transaction list \<Rightarrow> bytes option" where
  "encode_txs P buf [] = Some buf"
| "encode_txs P buf (tx # txx) =
     (case Transaction_Encode P tx buf of
        None \<Rightarrow> None
      | Some buf' \<Rightarrow> encode_txs P buf' txx)"

definition CalculateDataHash :: "'z tx_prims_scheme \<Rightarrow> Transaction list \<Rightarrow> hash option" where
  "CalculateDataHash P txx = map_option (sha256 P) (encode_txs P [] txx)"

text \<open>\<open>now\<close> is the clock reading. The data hash is computed twice and compared.\<close>

definition NewBlockFromPrevHeader ::
  "'z prims_scheme \<Rightarrow> i64 \<Rightarrow> Header \<Rightarrow> Transaction list \<Rightarrow> block_error + Block" where
  "NewBlockFromPrevHeader P now prevHeader txx =
     (case CalculateDataHash P txx of
        None \<Rightarrow> Inl BlockEncodeFailed
      | Some dataHash \<Rightarrow>
          (let header = \<lparr>Version = 1, DataHash = dataHash,
                 PrevBlockHash = BlockHasher_Hash P prevHeader,
                 Height = Height prevHeader + 1, Timestamp = now\<rparr>;
               block = NewBlock header txx
           in case CalculateDataHash P (blk_Transactions block) of
                None \<Rightarrow> Inl BlockEncodeFailed
              | Some verifyHash \<Rightarrow>
                  if verifyHash \<noteq> DataHash (blk_Header block) then Inl BlockInvalidDataHash
                  else Inr block))"

text \<open>An encoding error of the data hash is dropped, leaving the zero hash.\<close>

definition AddTransaction :: "'z tx_prims_scheme \<Rightarrow> Block \<Rightarrow> Transaction \<Rightarrow> Block" where
  "AddTransaction P b tx =
     (let txx = blk_Transactions b @ [tx];
          hash = (case CalculateDataHash P txx of None \<Rightarrow> zero_hash | Some h \<Rightarrow> h)
      in b\<lparr>blk_Transactions := txx, blk_Header := (blk_Header b)\<lparr>DataHash := hash\<rparr>\<rparr>)"

definition Block_Sign ::
  "'z prims_scheme \<Rightarrow> PrivateKey \<Rightarrow> nat \<Rightarrow> (block_error option, Block) prog" where
  "Block_Sign P privKey rnd b =
     (case PrivateKey_Sign P privKey rnd (Header_Bytes P (blk_Header b)) of
        None \<Rightarrow> Returns (Some BlockSignFailed) b
      | Some sg \<Rightarrow>
          Returns None (b\<lparr>blk_Validator := PrivateKey_PublicKey P privKey, blk_Signature := Some sg\<rparr>))"

text \<open>The loop over the transactions: it stops at the first error and keeps what it cached.\<close>

primrec verify_txs ::
  "'z tx_prims_scheme \<Rightarrow> (tx_error option, Transaction list) prog" where
  "verify_txs P [] = Returns None []"
| "verify_txs P (tx # txx) =
     (case Transaction_Verify P tx of
        Returns err tx' \<Rightarrow>
          (case err of
             Some e \<Rightarrow> Returns (Some e) (tx' # txx)
           | None \<Rightarrow> map_outcome id (\<lambda>ts. tx' # ts) (verify_txs P txx))
      | Panics tx' \<Rightarrow> Panics (tx' # txx)
      | Blocks tx' \<Rightarrow> Blocks (tx' # txx))"

definition Block_Verify_txs :: "'z tx_prims_scheme \<Rightarrow> (tx_error option, Block) prog" where
  "Block_Verify_txs P b =
     map_outcome id (\<lambda>ts. b\<lparr>blk_Transactions := ts\<rparr>) (verify_txs P (blk_Transactions b))"

text \<open>The last check formats the block's hash into its error and so caches it.\<close>

definition Block_Verify :: "'z prims_scheme \<Rightarrow> (block_error option, Block) prog" where
  "Block_Verify P b =
     (case blk_Signature b of
        None \<Rightarrow> Returns (Some BlockNoSignature) b
      | Some sg \<Rightarrow>
          (case Signature_Verify P sg (blk_Validator b) (Header_Bytes P (blk_Header b)) of
             None \<Rightarrow> Panics b
           | Some valid \<Rightarrow>
               if \<not> valid then Returns (Some BlockInvalidSignature) b
               else
                 seq (Block_Verify_txs P) (\<lambda>err b1.
                   case err of
                     Some e \<Rightarrow> Returns (Some (BlockTxError e)) b1
                   | None \<Rightarrow>
                       (case CalculateDataHash P (blk_Transactions b1) of
                          None \<Rightarrow> Returns (Some BlockEncodeFailed) b1
                        | Some dataHash \<Rightarrow>
                            if dataHash \<noteq> DataHash (blk_Header b1) then
                              seq (Block_Hash P) (\<lambda>_. ret (Some BlockInvalidDataHash)) b1
                            else Returns None b1)) b))"

section \<open>The cached block hash\<close>

interpretation block_cache: cached_hash "Block_Hash P"
    "\<lambda>b. Some (BlockHasher_Hash P (blk_Header b))" blk_hash
    "\<lambda>b h. b\<lparr>blk_hash := h\<rparr>" for P :: "'z prims_scheme"
  by unfold_locales (simp_all add: Block_Hash_def Let_def)

lemma Block_Hash_returns: "\<exists>h b'. Block_Hash P b = Returns h b' \<and> b' = b\<lparr>blk_hash := h\<rparr>"
  by (auto simp: Block_Hash_def Let_def)

lemma Block_Hash_frame:
  assumes "Block_Hash P b = Returns h b'"
  shows "blk_Header b' = blk_Header b" "blk_Transactions b' = blk_Transactions b"
    "blk_Validator b' = blk_Validator b" "blk_Signature b' = blk_Signature b" "blk_hash b' = h"
  using assms by (auto simp: Block_Hash_def Let_def split: if_splits)

text \<open>A block whose cache is empty or holds the hash of its header.\<close>

definition hash_cache_ok :: "'z prims_scheme \<Rightarrow> Block \<Rightarrow> bool" where
  "hash_cache_ok P b \<longleftrightarrow> Hash_IsZero (blk_hash b) \<or> blk_hash b = BlockHasher_Hash P (blk_Header b)"

lemma Block_Hash_ok:
  assumes "hash_cache_ok P b"
  shows "\<exists>b'. Block_Hash P b = Returns (BlockHasher_Hash P (blk_Header b)) b'
    \<and> hash_cache_ok P b' \<and> b' = b\<lparr>blk_hash := BlockHasher_Hash P (blk_Header b)\<rparr>"
  using assms by (auto simp: Block_Hash_def hash_cache_ok_def Let_def)

section \<open>Verifying the transactions\<close>

lemma verify_txs_accepts_iff:
  "verify_txs P txx = Returns None txx' \<longleftrightarrow>
   list_all2 (\<lambda>tx tx'. Transaction_Verify P tx = Returns None tx') txx txx'"
proof (induction txx arbitrary: txx')
  case Nil
  show ?case by auto
next
  case (Cons tx txx)
  show ?case
  proof (cases "Transaction_Verify P tx")
    case (Returns err tx1)
    show ?thesis
    proof (cases err)
      case None
      have "verify_txs P (tx # txx) = Returns None txx' \<longleftrightarrow>
          (\<exists>ts. txx' = tx1 # ts \<and> verify_txs P txx = Returns None ts)"
        using Returns None by (cases "verify_txs P txx") auto
      with Returns None Cons.IH show ?thesis by (auto simp: list_all2_Cons1)
    next
      case (Some e)
      with Returns show ?thesis by (auto simp: list_all2_Cons1)
    qed
  qed (auto simp: list_all2_Cons1)
qed

lemma verify_txs_fixed:
  "\<forall>tx\<in>set txx. Transaction_Verify P tx = Returns None tx \<Longrightarrow> verify_txs P txx = Returns None txx"
  by (simp add: verify_txs_accepts_iff list_all2_same)

lemma verify_txs_accepted_fixed:
  assumes "verify_txs P txx = Returns None txx'" and "tx \<in> set txx'"
  shows "Transaction_Verify P tx = Returns None tx"
proof -
  from assms obtain tx0 where "Transaction_Verify P tx0 = Returns None tx"
    by (auto simp: verify_txs_accepts_iff list_all2_conv_all_nth in_set_conv_nth)
  then show ?thesis by (rule Transaction_Verify_again)
qed

lemma verify_txs_never_blocks: "verify_txs P txx \<noteq> Blocks ts"
proof (induction txx arbitrary: ts)
  case Nil
  show ?case by simp
next
  case (Cons tx txx)
  have "Transaction_Verify P tx \<noteq> Blocks u" for u
    by (cases rule: tx_hash_cases [of tx P])
      (auto simp: Transaction_Verify_def seq_def split: option.split)
  with Cons show ?case
    by (cases "verify_txs P txx") (auto split: outcome.splits option.splits)
qed

lemma Block_Verify_txs_Returns:
  assumes "Block_Verify_txs P b = Returns e b'"
  obtains ts where "verify_txs P (blk_Transactions b) = Returns e ts" and "b' = b\<lparr>blk_Transactions := ts\<rparr>"
  using assms by (cases "verify_txs P (blk_Transactions b)") (auto simp: Block_Verify_txs_def)

section \<open>Verifying a block\<close>

lemma Block_Verify_accepts_iff:
  "Block_Verify P b = Returns None b' \<longleftrightarrow>
   (\<exists>sg ts. blk_Signature b = Some sg
      \<and> Signature_Verify P sg (blk_Validator b) (Header_Bytes P (blk_Header b)) = Some True
      \<and> verify_txs P (blk_Transactions b) = Returns None ts
      \<and> CalculateDataHash P ts = Some (DataHash (blk_Header b))
      \<and> b' = b\<lparr>blk_Transactions := ts\<rparr>)"
proof (cases "blk_Signature b")
  case None
  then show ?thesis by (simp add: Block_Verify_def)
next
  case (Some sg)
  show ?thesis
  proof (cases "Signature_Verify P sg (blk_Validator b) (Header_Bytes P (blk_Header b)) = Some True")
    case False
    with Some show ?thesis by (auto simp: Block_Verify_def split: option.split)
  next
    case True
    show ?thesis
    proof (cases "verify_txs P (blk_Transactions b)")
      case (Returns e ts)
      obtain h b1 where "Block_Hash P (b\<lparr>blk_Transactions := ts\<rparr>) = Returns h b1"
        using Block_Hash_returns by blast
      with Some True Returns show ?thesis
        by (auto simp: Block_Verify_def Block_Verify_txs_def seq_def split: option.split)
    qed (use Some True in \<open>auto simp: Block_Verify_def Block_Verify_txs_def seq_def\<close>)
  qed
qed

lemma Block_Verify_data_hash:
  "Block_Verify P b = Returns None b'
   \<Longrightarrow> CalculateDataHash P (blk_Transactions b') = Some (DataHash (blk_Header b'))"
  by (auto simp: Block_Verify_accepts_iff)

text \<open>An accepted block is accepted again, unchanged, whatever its hash cache.\<close>

lemma Block_Verify_again:
  assumes "Block_Verify P b = Returns None b'"
  shows "Block_Verify P (b'\<lparr>blk_hash := h\<rparr>) = Returns None (b'\<lparr>blk_hash := h\<rparr>)"
proof -
  from assms obtain sg ts where a: "blk_Signature b = Some sg"
    "Signature_Verify P sg (blk_Validator b) (Header_Bytes P (blk_Header b)) = Some True"
    "verify_txs P (blk_Transactions b) = Returns None ts"
    "CalculateDataHash P ts = Some (DataHash (blk_Header b))" "b' = b\<lparr>blk_Transactions := ts\<rparr>"
    by (auto simp: Block_Verify_accepts_iff)
  have "verify_txs P ts = Returns None ts"
    using verify_txs_accepted_fixed [OF a(3)] by (intro verify_txs_fixed) blast
  with a show ?thesis by (simp add: Block_Verify_accepts_iff)
qed

lemma Block_Verify_hash_cache:
  "Block_Verify P b = Returns None b'
   \<Longrightarrow> Block_Verify P (b\<lparr>blk_hash := h\<rparr>) = Returns None (b'\<lparr>blk_hash := h\<rparr>)"
  by (auto simp: Block_Verify_accepts_iff)

lemma Block_Verify_never_blocks: "Block_Verify P b \<noteq> Blocks b'"
proof -
  have "Block_Verify_txs P b \<noteq> Blocks u" for u
    using verify_txs_never_blocks [of P "blk_Transactions b"]
    by (cases "verify_txs P (blk_Transactions b)") (auto simp: Block_Verify_txs_def)
  moreover have "Block_Hash P b1 \<noteq> Blocks u" for b1 u
    by (simp add: Block_Hash_def Let_def)
  ultimately show ?thesis
    by (auto simp: Block_Verify_def seq_def split: option.splits outcome.splits)
qed

text \<open>What verification, however it ends, leaves alone in a block.\<close>

definition block_frame :: "'z prims_scheme \<Rightarrow> Block \<Rightarrow> Block \<Rightarrow> bool" where
  "block_frame P b b' \<longleftrightarrow> blk_Header b' = blk_Header b \<and> blk_Validator b' = blk_Validator b
     \<and> blk_Signature b' = blk_Signature b
     \<and> (hash_cache_ok P b \<longrightarrow> hash_cache_ok P b')
     \<and> list_all2 same_content (blk_Transactions b) (blk_Transactions b')"

lemma list_all2_same_content_trans:
  "list_all2 same_content xs ys \<Longrightarrow> list_all2 same_content ys zs \<Longrightarrow> list_all2 same_content xs zs"
  by (rule list_all2_trans [OF same_content_trans])

lemma list_all2_same_content_refl [simp]: "list_all2 same_content xs xs"
  by (simp add: list_all2_same)

interpretation block_frame: state_preorder "block_frame P" for P :: "'z prims_scheme"
  by unfold_locales
    (auto simp: block_frame_def hash_cache_ok_def intro: list_all2_same_content_trans)

lemma keeps_Block_Hash: "keeps (block_frame P) (Block_Hash P)"
  by (auto simp: keeps_def block_frame_def Block_Hash_def Let_def hash_cache_ok_def)

lemma verify_txs_same_content: "list_all2 same_content txx (out_state (verify_txs P txx))"
proof (induction txx)
  case Nil
  show ?case by simp
next
  case (Cons tx txx)
  have "same_content tx (out_state (Transaction_Verify P tx))"
    by (rule same_content.keeps_out [OF keeps_Transaction_Verify])
  with Cons show ?case
    by (cases "Transaction_Verify P tx"; cases "verify_txs P txx") (auto split: option.split)
qed

lemma keeps_Block_Verify_txs: "keeps (block_frame P) (Block_Verify_txs P)"
  unfolding keeps_def
proof
  fix b
  show "block_frame P b (out_state (Block_Verify_txs P b))"
    using verify_txs_same_content [of "blk_Transactions b" P]
    by (cases "verify_txs P (blk_Transactions b)")
      (auto simp: Block_Verify_txs_def block_frame_def hash_cache_ok_def)
qed

lemma keeps_Block_Verify: "keeps (block_frame P) (Block_Verify P)"
proof -
  let ?cont = "\<lambda>err b1.
    case err of
      Some e \<Rightarrow> Returns (Some (BlockTxError e)) b1
    | None \<Rightarrow>
        (case CalculateDataHash P (blk_Transactions b1) of
           None \<Rightarrow> Returns (Some BlockEncodeFailed) b1
         | Some dataHash \<Rightarrow>
             if dataHash \<noteq> DataHash (blk_Header b1) then
               seq (Block_Hash P) (\<lambda>_. ret (Some BlockInvalidDataHash)) b1
             else Returns None b1)"
  have "keeps (block_frame P) (seq (Block_Hash P) (\<lambda>_. ret (Some BlockInvalidDataHash)))"
    by (intro block_frame.keeps_intros keeps_Block_Hash)
  then have "keeps (block_frame P) (?cont err)" for err
    by (cases err) (auto simp: keeps_def split: option.split)
  then have "keeps (block_frame P) (seq (Block_Verify_txs P) ?cont)"
    by (rule block_frame.keeps_seq [OF keeps_Block_Verify_txs])
  then show ?thesis
    by (auto simp: keeps_def Block_Verify_def split: option.split)
qed

lemma Block_Verify_frame:
  assumes "Block_Verify P b = Returns e b'"
  shows "blk_Header b' = blk_Header b" and "hash_cache_ok P b \<Longrightarrow> hash_cache_ok P b'"
    and "blk_Signature b' = blk_Signature b" and "blk_Validator b' = blk_Validator b"
  using block_frame.keeps_Returns [OF keeps_Block_Verify assms] by (simp_all add: block_frame_def)

section \<open>Properties\<close>

text \<open>
  C19: a block that verification accepts carries a signature of its validator over its header,
  consists of transactions that all verify, and has the hash of their encodings as its data hash;
  verifying it again accepts it unchanged.
\<close>

theorem Block_Verify_sound:
  assumes "Block_Verify P b = Returns None b'"
  shows "(\<exists>sg. blk_Signature b = Some sg
      \<and> Signature_Verify P sg (blk_Validator b) (Header_Bytes P (blk_Header b)) = Some True)
    \<and> (\<forall>tx\<in>set (blk_Transactions b'). Transaction_Verify P tx = Returns None tx)
    \<and> CalculateDataHash P (blk_Transactions b') = Some (DataHash (blk_Header b))
    \<and> list_all2 same_content (blk_Transactions b) (blk_Transactions b')
    \<and> Block_Verify P b' = Returns None b'"
proof -
  from assms obtain sg ts where a: "blk_Signature b = Some sg"
    "Signature_Verify P sg (blk_Validator b) (Header_Bytes P (blk_Header b)) = Some True"
    "verify_txs P (blk_Transactions b) = Returns None ts"
    "CalculateDataHash P ts = Some (DataHash (blk_Header b))" "b' = b\<lparr>blk_Transactions := ts\<rparr>"
    by (auto simp: Block_Verify_accepts_iff)
  have fixed: "\<forall>tx\<in>set ts. Transaction_Verify P tx = Returns None tx"
    using verify_txs_accepted_fixed [OF a(3)] by blast
  have "list_all2 same_content (blk_Transactions b) ts"
    using verify_txs_same_content [of "blk_Transactions b" P] a(3) by simp
  moreover have "Block_Verify P b' = Returns None b'"
    using Block_Verify_again [OF assms, of "blk_hash b'"] by simp
  ultimately show ?thesis using a fixed by simp
qed

lemma Block_Sign_Returns:
  "Block_Sign P k rnd b = Returns None b' \<longleftrightarrow>
   (\<exists>sg. PrivateKey_Sign P k rnd (Header_Bytes P (blk_Header b)) = Some sg
      \<and> b' = b\<lparr>blk_Validator := PrivateKey_PublicKey P k, blk_Signature := Some sg\<rparr>)"
  by (auto simp: Block_Sign_def split: option.split)

lemma NewBlockFromPrevHeader_Inr:
  "NewBlockFromPrevHeader P now prev txx = Inr b \<longleftrightarrow>
   (\<exists>dh. CalculateDataHash P txx = Some dh
      \<and> b = NewBlock \<lparr>Version = 1, DataHash = dh, PrevBlockHash = BlockHasher_Hash P prev,
            Height = Height prev + 1, Timestamp = now\<rparr> txx)"
  by (auto simp: NewBlockFromPrevHeader_def NewBlock_def Let_def split: option.splits if_splits)

lemma built_and_signed_block:
  assumes "signatures_verify P"
    and txs: "\<forall>tx\<in>set txx. Transaction_Verify P tx = Returns None tx"
    and new: "NewBlockFromPrevHeader P now prev txx = Inr b"
    and sign: "Block_Sign P k rnd b = Returns None b'"
  shows "Block_Verify P b' = Returns None b'" and "blk_Transactions b' = txx"
    and "Height (blk_Header b') = Height prev + 1"
    and "PrevBlockHash (blk_Header b') = BlockHasher_Hash P prev" and "hash_cache_ok P b'"
proof -
  from sign obtain sg where sg: "PrivateKey_Sign P k rnd (Header_Bytes P (blk_Header b)) = Some sg"
    and b': "b' = b\<lparr>blk_Validator := PrivateKey_PublicKey P k, blk_Signature := Some sg\<rparr>"
    by (auto simp: Block_Sign_Returns)
  from new obtain dh where dh: "CalculateDataHash P txx = Some dh"
    and b: "b = NewBlock \<lparr>Version = 1, DataHash = dh, PrevBlockHash = BlockHasher_Hash P prev,
      Height = Height prev + 1, Timestamp = now\<rparr> txx" by (auto simp: NewBlockFromPrevHeader_Inr)
  show "Block_Verify P b' = Returns None b'"
    unfolding Block_Verify_accepts_iff
    using Sign_then_Verify [OF assms(1) sg] verify_txs_fixed [OF txs] dh
    by (simp add: b' b NewBlock_def)
qed (use new sign in \<open>auto simp: Block_Sign_Returns NewBlockFromPrevHeader_Inr NewBlock_def
    hash_cache_ok_def\<close>)

text \<open>
  C20: a block built from the header of its predecessor over transactions that verify with their
  hashes cached, and then signed, verifies; its header links to the predecessor.
\<close>

theorem built_and_signed_block_verifies:
  assumes "signatures_verify P"
    and "\<forall>tx\<in>set txx. Transaction_Verify P tx = Returns None tx"
    and "NewBlockFromPrevHeader P now prev txx = Inr b"
    and "Block_Sign P k rnd b = Returns None b'"
  shows "Block_Verify P b' = Returns None b'
    \<and> Height (blk_Header b') = Height prev + 1
    \<and> PrevBlockHash (blk_Header b') = BlockHasher_Hash P prev
    \<and> blk_Transactions b' = txx \<and> hash_cache_ok P b'"
  using built_and_signed_block [OF assms] by blast

text \<open>Concrete primitives for evaluation: the header's height, data hash and time as its bytes.\<close>

definition demo_block_prims :: prims where
  "demo_block_prims = \<lparr>
     sha256 = demo_sha,
     ecdsa_verify = ecdsa_verify demo_prims,
     ecdsa_sign = ecdsa_sign demo_prims,
     marshal_public = marshal_public demo_prims,
     gob_inner = gob_inner demo_tx_prims,
     gob_tx = gob_tx demo_tx_prims,
     gob_untx = gob_untx demo_tx_prims,
     gob_header = (\<lambda>h. le_bytes 4 (Height h) @ DataHash h @ PrevBlockHash h
       @ le_bytes 8 (Timestamp h))\<rparr>"

lemma demo_block_prims_ok: "sha_fixed_length demo_block_prims \<and> signatures_verify demo_block_prims"
  using demo_prims_ok
  by (simp add: sha_fixed_length_def signatures_verify_def demo_block_prims_def demo_prims_def)

lemma demo_tx_verifies: "Transaction_Verify demo_block_prims demo_tx = Returns None demo_tx"
  by (simp add: Transaction_Verify_def seq_def Transaction_Hash_def demo_tx_def Hash_IsZero_def
      Signature_Verify_def demo_block_prims_def demo_prims_def sum_list_replicate)

definition demo_header :: Header where
  "demo_header = \<lparr>Version = 1, DataHash = zero_hash, PrevBlockHash = zero_hash, Height = 0,
     Timestamp = 0\<rparr>"

definition demo_block :: Block where
  "demo_block =
     (case NewBlockFromPrevHeader demo_block_prims 1000 demo_header [demo_tx] of
        Inr b \<Rightarrow> out_state (Block_Sign demo_block_prims 5 0 b)
      | Inl _ \<Rightarrow> NewBlock demo_header [])"

lemma demo_block_built:
  "\<exists>b. NewBlockFromPrevHeader demo_block_prims 1000 demo_header [demo_tx] = Inr b
    \<and> Block_Sign demo_block_prims 5 0 b = Returns None demo_block"
proof -
  obtain b where b: "NewBlockFromPrevHeader demo_block_prims 1000 demo_header [demo_tx] = Inr b"
    by (auto simp: NewBlockFromPrevHeader_def Let_def CalculateDataHash_def tx_coding
        demo_block_prims_def demo_tx_prims_def NewBlock_def)
  then show ?thesis
    by (auto simp: demo_block_def Block_Sign_def PrivateKey_Sign_def demo_block_prims_def
        demo_prims_def)
qed

lemma demo_block_verifies:
  "Block_Verify demo_block_prims demo_block = Returns None demo_block"
  and demo_block_transactions: "blk_Transactions demo_block = [demo_tx]"
  using demo_block_built built_and_signed_block(1,2) [of demo_block_prims "[demo_tx]"]
    demo_block_prims_ok demo_tx_verifies by auto

theorem built_and_signed_block_verifies_witness:
  "Block_Verify demo_block_prims demo_block = Returns None demo_block
   \<and> Height (blk_Header demo_block) = 1"
proof -
  obtain b where b: "NewBlockFromPrevHeader demo_block_prims 1000 demo_header [demo_tx] = Inr b"
    and s: "Block_Sign demo_block_prims 5 0 b = Returns None demo_block"
    using demo_block_built by blast
  have "Height demo_header + 1 = 1" by (simp add: demo_header_def)
  with built_and_signed_block_verifies [OF _ _ b s] demo_block_prims_ok demo_tx_verifies
  show ?thesis by simp
qed

theorem Block_Verify_sound_witness:
  "Block_Verify demo_block_prims demo_block = Returns None demo_block
   \<and> CalculateDataHash demo_block_prims (blk_Transactions demo_block)
      = Some (DataHash (blk_Header demo_block))"
  using Block_Verify_sound [OF demo_block_verifies] by (simp add: demo_block_verifies)

end
