(* ===== verification/Storage.thy ===== *)
theory Storage
  imports Block
begin

text \<open>
  \<open>core/storage.go\<close> and \<open>core/persistent_storage.go\<close>. The blocks file is the list of what the
  calls of \<open>Put\<close> wrote to it. Each call makes a fresh \<open>gob\<close> encoder, which first writes the
  definitions of the types of a block and then the value; the definitions are written even when
  encoding the value fails. The readers run one decoder over the whole file, and a decoder
  refuses a type definition it has seen already. Faults of the disk are arguments; a write torn
  in the middle of a message is not modelled. The mutex is released by every operation
  (\<open>defer\<close>) and no operation calls another one that takes it, so it does not appear.
\<close>

section \<open>Data\<close>

text \<open>What one encoder wrote: the type definitions, followed by a block unless its value failed.\<close>

type_synonym gob_record = "Block option"

datatype gob_error = GobEOF | GobUnexpectedEOF | GobDuplicateType

datatype store_error =
  ErrSeekEnd
| ErrEncode
| ErrSync
| ErrSeekStart
| ErrBlockNotFound hash
| ErrDecode gob_error
| ErrCloseFile
| ErrMkdir

record PersistentStore =
  ps_file :: "gob_record list"
  ps_open :: bool
  ps_blockHashes :: "hash \<rightharpoonup> u32"

text \<open>How the file system answers one call.\<close>

datatype write_result = WritesAll | WritesTypesOnly | WritesNothing

record disk =
  seek_fails :: bool
  write_result :: write_result
  sync_fails :: bool

definition good_disk :: disk where
  "good_disk = \<lparr>seek_fails = False, write_result = WritesAll, sync_fails = False\<rparr>"

text \<open>
  A block travels without its unexported hash cache. The value fails to encode when one of its
  transactions does.
\<close>

definition wire_block :: "Block \<Rightarrow> Block" where
  "wire_block b = b\<lparr>blk_hash := zero_hash\<rparr>"

definition encodable :: "'z tx_prims_scheme \<Rightarrow> Block \<Rightarrow> bool" where
  "encodable P b \<longleftrightarrow> (\<forall>tx\<in>set (blk_Transactions b). gob_tx P tx \<noteq> None)"

definition fresh_encoding :: "'z tx_prims_scheme \<Rightarrow> disk \<Rightarrow> Block \<Rightarrow> gob_record list" where
  "fresh_encoding P d b =
     (case write_result d of
        WritesNothing \<Rightarrow> []
      | WritesTypesOnly \<Rightarrow> [None]
      | WritesAll \<Rightarrow> if encodable P b then [Some (wire_block b)] else [None])"

text \<open>
  One \<open>Decode\<close>: \<open>seen\<close> tells that the decoder has read the type definitions before. The variable
  \<open>old\<close> it decodes into keeps its hash cache.
\<close>

fun gob_decode ::
  "bool \<Rightarrow> Block \<Rightarrow> gob_record list \<Rightarrow> gob_error + Block \<times> gob_record list" where
  "gob_decode seen old [] = Inl GobEOF"
| "gob_decode True old (_ # _) = Inl GobDuplicateType"
| "gob_decode False old (Some b # rest) = Inr (b\<lparr>blk_hash := blk_hash old\<rparr>, rest)"
| "gob_decode False old (None # []) = Inl GobUnexpectedEOF"
| "gob_decode False old (None # _ # _) = Inl GobDuplicateType"

lemma gob_decode_shorter: "gob_decode seen old rs = Inr (b, rest) \<Longrightarrow> length rest < length rs"
  by (cases "(seen, old, rs)" rule: gob_decode.cases) auto

section \<open>Operations\<close>

definition Memorystore_Put :: "(store_error option, unit \<times> Block) prog" where
  "Memorystore_Put = (\<lambda>(s, b). Returns None (s, b))"

definition PersistentStore_Put ::
  "'z prims_scheme \<Rightarrow> disk \<Rightarrow> (store_error option, PersistentStore \<times> Block) prog" where
  "PersistentStore_Put P d = (\<lambda>(s, b).
     if \<not> ps_open s \<or> seek_fails d then Returns (Some ErrSeekEnd) (s, b)
     else
       (let s1 = s\<lparr>ps_file := ps_file s @ fresh_encoding P d b\<rparr>
        in if write_result d \<noteq> WritesAll \<or> \<not> encodable P b then Returns (Some ErrEncode) (s1, b)
           else
             (case Block_Hash P b of
                Panics b' \<Rightarrow> Panics (s1, b')
              | Blocks b' \<Rightarrow> Blocks (s1, b')
              | Returns hash b' \<Rightarrow>
                  (let s2 = s1\<lparr>ps_blockHashes :=
                         (ps_blockHashes s1)(hash \<mapsto> Height (blk_Header b'))\<rparr>
                   in if sync_fails d then Returns (Some ErrSync) (s2, b')
                      else Returns None (s2, b')))))"

text \<open>The zero value of a block variable. A decoded block always has a header.\<close>

definition empty_block :: Block where
  "empty_block = NewBlock \<lparr>Version = 0, DataHash = zero_hash, PrevBlockHash = zero_hash,
     Height = 0, Timestamp = 0\<rparr> []"

text \<open>The reading loop of \<open>GetBlockByHash\<close>.\<close>

function find_height ::
  "hash \<Rightarrow> u32 \<Rightarrow> bool \<Rightarrow> Block \<Rightarrow> gob_record list \<Rightarrow> store_error + Block" where
  "find_height hash height seen block rs =
     (case gob_decode seen block rs of
        Inl e \<Rightarrow> if e = GobEOF then Inl (ErrBlockNotFound hash) else Inl (ErrDecode e)
      | Inr (b, rest) \<Rightarrow>
          if Height (blk_Header b) = height then Inr b
          else find_height hash height True b rest)"
  by pat_completeness auto
termination
  by (relation "measure (\<lambda>(_, _, _, _, rs). length rs)") (auto simp: gob_decode_shorter)

definition PersistentStore_GetBlockByHash ::
  "disk \<Rightarrow> PersistentStore \<Rightarrow> hash \<Rightarrow> store_error + Block" where
  "PersistentStore_GetBlockByHash d s hash =
     (case ps_blockHashes s hash of
        None \<Rightarrow> Inl (ErrBlockNotFound hash)
      | Some height \<Rightarrow>
          if \<not> ps_open s \<or> seek_fails d then Inl ErrSeekStart
          else find_height hash height False empty_block (ps_file s))"

definition PersistentStore_GetAllBlockHashes :: "PersistentStore \<Rightarrow> hash \<rightharpoonup> u32" where
  "PersistentStore_GetAllBlockHashes s = ps_blockHashes s"

definition PersistentStore_Close :: "PersistentStore \<Rightarrow> store_error option \<times> PersistentStore" where
  "PersistentStore_Close s =
     (if ps_open s then (None, s\<lparr>ps_open := False\<rparr>) else (Some ErrCloseFile, s))"

text \<open>The reading loop of \<open>loadBlockHashes\<close>: it keeps what it read before an error.\<close>

function load_hashes ::
  "'z prims_scheme \<Rightarrow> (hash \<rightharpoonup> u32) \<Rightarrow> bool \<Rightarrow> Block \<Rightarrow> gob_record list
   \<Rightarrow> store_error option \<times> (hash \<rightharpoonup> u32)" where
  "load_hashes P m seen block rs =
     (case gob_decode seen block rs of
        Inl e \<Rightarrow> (if e = GobEOF then None else Some (ErrDecode e), m)
      | Inr (b, rest) \<Rightarrow>
          (let b' = out_state (Block_Hash P b)
           in load_hashes P (m(blk_hash b' \<mapsto> Height (blk_Header b'))) True b' rest))"
  by pat_completeness auto
termination
  by (relation "measure (\<lambda>(_, _, _, _, rs). length rs)") (auto simp: gob_decode_shorter)

definition loadBlockHashes ::
  "'z prims_scheme \<Rightarrow> disk \<Rightarrow> PersistentStore \<Rightarrow> store_error option \<times> PersistentStore" where
  "loadBlockHashes P d s =
     (if \<not> ps_open s \<or> seek_fails d then (Some ErrSeekStart, s)
      else
        (case load_hashes P (ps_blockHashes s) False empty_block (ps_file s) of
           (err, m) \<Rightarrow> (err, s\<lparr>ps_blockHashes := m\<rparr>)))"

text \<open>
  The package variables \<open>storeInstance\<close> and \<open>storeOnce\<close>, with the contents of the file in the
  directory. The inner \<open>:=\<close> of the source declares a second \<open>err\<close>, so the errors of opening and
  loading are lost: only that of \<open>MkdirAll\<close> reaches the caller, and only in the first call.
\<close>

record store_package =
  storeInstance :: "PersistentStore option"
  storeOnce :: bool
  data_file :: "gob_record list"

record startup =
  mkdir_fails :: bool
  open_fails :: bool
  load_disk :: disk

definition NewPersistentStore ::
  "'z prims_scheme \<Rightarrow> startup \<Rightarrow> store_package
   \<Rightarrow> (store_error + PersistentStore option) \<times> store_package" where
  "NewPersistentStore P e g =
     (if storeOnce g then (Inr (storeInstance g), g)
      else
        (let g = g\<lparr>storeOnce := True\<rparr>
         in if mkdir_fails e then (Inl ErrMkdir, g)
            else if open_fails e then (Inr (storeInstance g), g)
            else
              (case loadBlockHashes P (load_disk e)
                  \<lparr>ps_file = data_file g, ps_open = True, ps_blockHashes = Map.empty\<rparr> of
                 (err, s) \<Rightarrow>
                   (let s' = (if err = None then s else snd (PersistentStore_Close s))
                    in (Inr (Some s'), g\<lparr>storeInstance := Some s'\<rparr>)))))"

text \<open>
  The chain holds a store through the interface \<open>Storage\<close>: a memory store, or a pointer to a
  persistent store that may be \<open>nil\<close>, whose operations panic.
\<close>

datatype Storage = InMemory | Persistent "PersistentStore option"

definition Storage_Put ::
  "'z prims_scheme \<Rightarrow> disk \<Rightarrow> (store_error option, Storage \<times> Block) prog" where
  "Storage_Put P d = (\<lambda>(st, b).
     case st of
       InMemory \<Rightarrow> map_outcome id (\<lambda>(_, b'). (InMemory, b')) (Memorystore_Put ((), b))
     | Persistent None \<Rightarrow> Panics (st, b)
     | Persistent (Some s) \<Rightarrow>
         map_outcome id (\<lambda>(s', b'). (Persistent (Some s'), b')) (PersistentStore_Put P d (s, b)))"

declare find_height.simps [simp del] load_hashes.simps [simp del]

section \<open>The contract of a store\<close>

text \<open>
  What the chain relies on when it hands over a block: the call comes back (or panics), and of
  the block it touches only the hash cache.
\<close>

definition only_caches :: "Block \<Rightarrow> Block \<Rightarrow> bool" where
  "only_caches b b' \<longleftrightarrow> (\<exists>h. b' = b\<lparr>blk_hash := h\<rparr>)"

lemma only_caches_refl [simp]: "only_caches b b"
  unfolding only_caches_def by (rule exI [of _ "blk_hash b"]) simp

lemma only_caches_trans: "only_caches a b \<Longrightarrow> only_caches b c \<Longrightarrow> only_caches a c"
  by (auto simp: only_caches_def)

lemma only_caches_fields:
  assumes "only_caches b b'"
  shows "blk_Header b' = blk_Header b" "blk_Transactions b' = blk_Transactions b"
    "blk_Validator b' = blk_Validator b" "blk_Signature b' = blk_Signature b"
  using assms by (auto simp: only_caches_def)

lemma only_caches_Block_Hash: "Block_Hash P b = Returns h b' \<Longrightarrow> only_caches b b'"
  using Block_Hash_returns [of P b] by (auto simp: only_caches_def)

locale block_sink =
  fixes put :: "('e option, 's \<times> Block) prog"
  assumes put_only_caches: "only_caches b (snd (out_state (put (s, b))))"
    and put_comes_back: "put (s, b) \<noteq> Blocks t"
begin

lemma put_cases:
  obtains (returns) e s' b' where "put (s, b) = Returns e (s', b')" and "only_caches b b'"
    | (panics) s' b' where "put (s, b) = Panics (s', b')" and "only_caches b b'"
proof (cases "put (s, b)")
  case (Returns e t)
  then show ?thesis using returns [of e "fst t" "snd t"] put_only_caches [of b s] by simp
next
  case (Panics t)
  then show ?thesis using panics [of "fst t" "snd t"] put_only_caches [of b s] by simp
next
  case (Blocks t)
  then show ?thesis using put_comes_back by simp
qed

text \<open>Storing a list of blocks in turn, stopping at the first error.\<close>

primrec put_list :: "'s \<Rightarrow> Block list \<Rightarrow> ('e option, 's) outcome" where
  "put_list s [] = Returns None s"
| "put_list s (b # bs) =
     (case put (s, b) of
        Returns e t \<Rightarrow> (if e = None then put_list (fst t) bs else Returns e (fst t))
      | Panics t \<Rightarrow> Panics (fst t)
      | Blocks t \<Rightarrow> Blocks (fst t))"

lemma put_list_comes_back: "put_list s bs \<noteq> Blocks t"
  by (induction bs arbitrary: s) (auto simp: put_comes_back split: outcome.split)

lemma put_list_append:
  "put_list s (bs @ cs) =
     (case put_list s bs of
        Returns e t \<Rightarrow> (if e = None then put_list t cs else Returns e t)
      | r \<Rightarrow> r)"
  by (induction bs arbitrary: s) (auto split: outcome.split)

end

interpretation memory_sink: block_sink Memorystore_Put
  by unfold_locales (simp_all add: Memorystore_Put_def)

interpretation persistent_sink: block_sink "PersistentStore_Put P d" for P :: "'z prims_scheme" and d
proof
  fix s b t
  obtain h b' where h: "Block_Hash P b = Returns h b'" using Block_Hash_returns by blast
  show "only_caches b (snd (out_state (PersistentStore_Put P d (s, b))))"
    using only_caches_Block_Hash [OF h] by (simp add: PersistentStore_Put_def Let_def h)
  show "PersistentStore_Put P d (s, b) \<noteq> Blocks t"
    by (simp add: PersistentStore_Put_def Let_def h)
qed

interpretation storage_sink: block_sink "Storage_Put P d" for P :: "'z prims_scheme" and d
proof
  fix s b t
  have "only_caches b (snd (out_state (Storage_Put P d (s, b)))) \<and> Storage_Put P d (s, b) \<noteq> Blocks t"
  proof (cases s)
    case InMemory
    then show ?thesis by (simp add: Storage_Put_def Memorystore_Put_def)
  next
    case (Persistent st)
    show ?thesis
    proof (cases st)
      case None
      with Persistent show ?thesis by (simp add: Storage_Put_def)
    next
      case (Some st')
      show ?thesis
        by (cases rule: persistent_sink.put_cases [of P d st' b])
          (simp_all add: Storage_Put_def Persistent Some)
    qed
  qed
  then show "only_caches b (snd (out_state (Storage_Put P d (s, b))))"
    and "Storage_Put P d (s, b) \<noteq> Blocks t" by blast+
qed

section \<open>What a store returns\<close>

lemma PersistentStore_Put_success:
  "PersistentStore_Put P d (s, b) = Returns None (s', b') \<longleftrightarrow>
   ps_open s \<and> \<not> seek_fails d \<and> write_result d = WritesAll \<and> encodable P b \<and> \<not> sync_fails d
   \<and> (\<exists>h. Block_Hash P b = Returns h b'
      \<and> s' = s\<lparr>ps_file := ps_file s @ [Some (wire_block b)],
          ps_blockHashes := (ps_blockHashes s)(h \<mapsto> Height (blk_Header b))\<rparr>)"
proof -
  obtain h b1 where h: "Block_Hash P b = Returns h b1" using Block_Hash_returns by blast
  show ?thesis
    using Block_Hash_frame(1) [OF h]
    by (auto simp: PersistentStore_Put_def Let_def h fresh_encoding_def)
qed

lemma find_height_first:
  "find_height hash ht False blk (Some b0 # rs) =
     (if Height (blk_Header b0) = ht then Inr (b0\<lparr>blk_hash := blk_hash blk\<rparr>)
      else if rs = [] then Inl (ErrBlockNotFound hash) else Inl (ErrDecode GobDuplicateType))"
  by (cases rs) (simp_all add: find_height.simps)

lemma load_hashes_two:
  assumes "2 \<le> length rs"
  shows "fst (load_hashes P m False blk rs) = Some (ErrDecode GobDuplicateType)"
proof -
  from assms obtain r r' rs' where "rs = r # r' # rs'"
    by (cases rs; cases "tl rs") auto
  then show ?thesis by (cases r) (simp_all add: load_hashes.simps Let_def)
qed

lemma empty_block_hash [simp]: "blk_hash empty_block = zero_hash"
  by (simp add: empty_block_def NewBlock_def)

lemma wire_block_fields [simp]:
  "blk_Header (wire_block b) = blk_Header b" "blk_hash (wire_block b) = zero_hash"
  "(wire_block b)\<lparr>blk_hash := zero_hash\<rparr> = wire_block b"
  "blk_Transactions (wire_block b) = blk_Transactions b"
  by (simp_all add: wire_block_def)

text \<open>
  A block put into an empty store is found again under its hash, with its contents and an
  empty hash cache.
\<close>

theorem first_block_roundtrip:
  assumes "ps_file s = []" and "\<not> seek_fails d'"
    and "PersistentStore_Put P d (s, b) = Returns None (s', b')"
  shows "PersistentStore_GetBlockByHash d' s' (blk_hash b') = Inr (wire_block b)
    \<and> PersistentStore_GetAllBlockHashes s' (blk_hash b') = Some (Height (blk_Header b))"
proof -
  from assms(3) obtain h where h: "Block_Hash P b = Returns h b'" and o: "ps_open s"
    and s': "s' = s\<lparr>ps_file := ps_file s @ [Some (wire_block b)],
      ps_blockHashes := (ps_blockHashes s)(h \<mapsto> Height (blk_Header b))\<rparr>"
    by (auto simp: PersistentStore_Put_success)
  then show ?thesis
    using assms Block_Hash_frame(5) [OF h]
    by (simp add: PersistentStore_GetBlockByHash_def PersistentStore_GetAllBlockHashes_def
        find_height_first)
qed

text \<open>
  The second block put into a store cannot be read back: the store knows its hash, but the
  lookup answers with the first block when the heights agree and with a decoding error otherwise.
\<close>

theorem second_block_unreadable:
  assumes "ps_file s = []" and "\<not> seek_fails d'"
    and p1: "PersistentStore_Put P d (s, b1) = Returns None (s1, b1')"
    and p2: "PersistentStore_Put P d (s1, b2) = Returns None (s2, b2')"
  shows "PersistentStore_GetAllBlockHashes s2 (blk_hash b2') = Some (Height (blk_Header b2))
    \<and> PersistentStore_GetBlockByHash d' s2 (blk_hash b2')
      = (if Height (blk_Header b1) = Height (blk_Header b2) then Inr (wire_block b1)
         else Inl (ErrDecode GobDuplicateType))"
proof -
  from p1 obtain h1 where s1: "s1 = s\<lparr>ps_file := ps_file s @ [Some (wire_block b1)],
      ps_blockHashes := (ps_blockHashes s)(h1 \<mapsto> Height (blk_Header b1))\<rparr>"
    by (auto simp: PersistentStore_Put_success)
  from p2 obtain h2 where h2: "Block_Hash P b2 = Returns h2 b2'" and o: "ps_open s1"
    and s2: "s2 = s1\<lparr>ps_file := ps_file s1 @ [Some (wire_block b2)],
      ps_blockHashes := (ps_blockHashes s1)(h2 \<mapsto> Height (blk_Header b2))\<rparr>"
    by (auto simp: PersistentStore_Put_success)
  show ?thesis
    using assms(1,2) Block_Hash_frame(5) [OF h2] o
    by (simp add: s1 s2 PersistentStore_GetBlockByHash_def PersistentStore_GetAllBlockHashes_def
        find_height_first)
qed

lemma restart_closed_store:
  assumes "\<not> storeOnce g" and "2 \<le> length (data_file g)"
    and "\<not> mkdir_fails e" and "\<not> open_fails e" and "\<not> seek_fails (load_disk e)"
  shows "\<exists>s. fst (NewPersistentStore P e g) = Inr (Some s) \<and> \<not> ps_open s
    \<and> (\<forall>d b. PersistentStore_Put P d (s, b) = Returns (Some ErrSeekEnd) (s, b))
    \<and> (\<forall>d h. \<exists>err. PersistentStore_GetBlockByHash d s h = Inl err)"
proof -
  let ?s0 = "\<lparr>ps_file = data_file g, ps_open = True, ps_blockHashes = Map.empty\<rparr> :: PersistentStore"
  obtain m where m: "loadBlockHashes P (load_disk e) ?s0
      = (Some (ErrDecode GobDuplicateType), ?s0\<lparr>ps_blockHashes := m\<rparr>)"
    using load_hashes_two [OF assms(2), of P Map.empty empty_block] assms(5)
    by (cases "load_hashes P Map.empty False empty_block (data_file g)")
      (auto simp: loadBlockHashes_def)
  let ?s = "?s0\<lparr>ps_blockHashes := m, ps_open := False\<rparr>"
  have "fst (NewPersistentStore P e g) = Inr (Some ?s)"
    using assms m by (simp add: NewPersistentStore_def Let_def PersistentStore_Close_def)
  moreover have "\<forall>d b. PersistentStore_Put P d (?s, b) = Returns (Some ErrSeekEnd) (?s, b)"
    by (simp add: PersistentStore_Put_def)
  moreover have "\<forall>d h. \<exists>err. PersistentStore_GetBlockByHash d ?s h = Inl err"
    by (simp add: PersistentStore_GetBlockByHash_def split: option.split)
  ultimately show ?thesis by (intro exI [of _ ?s]) simp
qed

text \<open>
  A node that restarts on a file of two or more blocks gets, without an error, a store whose
  file is closed; no block can be put into it or read from it afterwards.
\<close>

theorem restart_loses_store:
  assumes "\<not> storeOnce g" and "2 \<le> length (data_file g)"
    and "\<not> mkdir_fails e" and "\<not> open_fails e" and "\<not> seek_fails (load_disk e)"
  shows "\<exists>s. fst (NewPersistentStore P e g) = Inr (Some s) \<and> \<not> ps_open s
    \<and> (\<forall>d b. PersistentStore_Put P d (s, b) = Returns (Some ErrSeekEnd) (s, b))
    \<and> (\<forall>d h. \<exists>err. PersistentStore_GetBlockByHash d s h = Inl err)"
  by (rule restart_closed_store [OF assms])

text \<open>A store on an empty file and two empty blocks of different heights.\<close>

definition demo_store :: PersistentStore where
  "demo_store = \<lparr>ps_file = [], ps_open = True, ps_blockHashes = Map.empty\<rparr>"

definition demo_empty :: "u32 \<Rightarrow> Block" where
  "demo_empty n = NewBlock (demo_header\<lparr>Height := n\<rparr>) []"

lemma demo_Put:
  "ps_open s \<Longrightarrow> PersistentStore_Put demo_block_prims good_disk (s, demo_empty n)
    = Returns None
       (s\<lparr>ps_file := ps_file s @ [Some (demo_empty n)],
          ps_blockHashes := (ps_blockHashes s)(BlockHasher_Hash demo_block_prims (demo_header\<lparr>Height := n\<rparr>) \<mapsto> n)\<rparr>,
        (demo_empty n)\<lparr>blk_hash := BlockHasher_Hash demo_block_prims (demo_header\<lparr>Height := n\<rparr>)\<rparr>)"
  by (auto simp: PersistentStore_Put_success good_disk_def encodable_def demo_empty_def NewBlock_def
      Block_Hash_def wire_block_def Let_def)

theorem first_block_roundtrip_witness:
  "PersistentStore_GetBlockByHash good_disk
     (fst (out_state (PersistentStore_Put demo_block_prims good_disk (demo_store, demo_empty 0))))
     (BlockHasher_Hash demo_block_prims demo_header) = Inr (demo_empty 0)"
proof -
  have "ps_open demo_store" and e: "ps_file demo_store = []" "\<not> seek_fails good_disk"
    by (simp_all add: demo_store_def good_disk_def)
  note p = demo_Put [OF this(1), of 0]
  have "wire_block (demo_empty 0) = demo_empty 0" and "demo_header\<lparr>Height := 0\<rparr> = demo_header"
    by (simp_all add: wire_block_def demo_empty_def NewBlock_def demo_header_def)
  with first_block_roundtrip [OF e p] p show ?thesis by simp
qed

theorem second_block_unreadable_witness:
  "\<exists>s h. PersistentStore_GetAllBlockHashes s h = Some 1
    \<and> PersistentStore_GetBlockByHash good_disk s h = Inl (ErrDecode GobDuplicateType)"
proof -
  have "ps_open demo_store" and e: "ps_file demo_store = []" "\<not> seek_fails good_disk"
    by (simp_all add: demo_store_def good_disk_def)
  note p1 = demo_Put [OF this(1), of 0]
  let ?s1 = "demo_store\<lparr>ps_file := ps_file demo_store @ [Some (demo_empty 0)],
    ps_blockHashes := (ps_blockHashes demo_store)
      (BlockHasher_Hash demo_block_prims (demo_header\<lparr>Height := 0\<rparr>) \<mapsto> 0)\<rparr>"
  have "ps_open ?s1" by (simp add: demo_store_def)
  note p2 = demo_Put [OF this, of 1]
  have "Height (blk_Header (demo_empty n)) = n" for n by (simp add: demo_empty_def NewBlock_def)
  with second_block_unreadable [OF e p1 p2] show ?thesis by auto
qed

theorem restart_loses_store_witness:
  "\<exists>s. fst (NewPersistentStore demo_block_prims
       \<lparr>mkdir_fails = False, open_fails = False, load_disk = good_disk\<rparr>
       \<lparr>storeInstance = None, storeOnce = False,
         data_file = [Some (demo_empty 0), Some (demo_empty 1)]\<rparr>) = Inr (Some s)
     \<and> \<not> ps_open s"
  using restart_loses_store
    [of "\<lparr>storeInstance = None, storeOnce = False,
        data_file = [Some (demo_empty 0), Some (demo_empty 1)]\<rparr>"
      "\<lparr>mkdir_fails = False, open_fails = False, load_disk = good_disk\<rparr>" demo_block_prims]
  by (auto simp: good_disk_def)

end
