(* ===== verification/Inspect.thy ===== *)
theory Inspect
  imports Storage
begin

text \<open>
  \<open>cmd/inspect/main.go\<close>: the command that reads the store of a node and prints its hashes, a
  transaction or a block. What it prints is a value of \<open>report\<close>; the JSON text of a transaction or
  a block, which has an indented form, is an argument. \<open>None\<close> is a panic. A range over the map of
  hashes visits them in an order that is an argument as well.
\<close>

section \<open>What is printed\<close>

record inspect_flags =
  fl_list :: bool
  fl_hash :: string
  fl_tx :: string
  fl_pretty :: bool

text \<open>The marshallers answer \<open>None\<close> on an error (a grade that is no number).\<close>

record json_prims =
  json_tx :: "bool \<Rightarrow> Transaction \<Rightarrow> string option"
  json_block :: "bool \<Rightarrow> Block \<Rightarrow> string option"

text \<open>The details of the inner value; a student's semesters are numbered from one.\<close>

datatype inner_report =
  PrintStudent string StudentTxType "(string \<times> bool \<times> nat \<times> (nat \<times> f64) list) option"
| PrintCollection i64 bytes
| PrintMint i64 hash hash bytes PublicKey
| PrintNothing

record tx_report =
  tr_From :: PublicKey
  tr_To :: PublicKey
  tr_Value :: u64
  tr_Hash :: string
  tr_Inner :: "inner_report option"

datatype report =
  StoreError store_error
| HashList "(u32 \<times> string) list"
| MarshalError
| TxDetails string "inner_report option"
| TxNotFound hash
| BlockError store_error
| BlockDetails string "tx_report list"
| Usage

definition inner_details :: "tx_inner \<Rightarrow> inner_report option" where
  "inner_details inner =
     (case inner of
        NoInner \<Rightarrow> None
      | InStudent t \<Rightarrow>
          Some (PrintStudent (stx_StudentID t) (stx_Type t)
            (map_option (\<lambda>s. (stu_ID s, PaidDues s, length (Semesters s),
                map (\<lambda>(j, sem). (j + 1, SGPA sem)) (enumerate 0 (Semesters s)))) (stx_Student t)))
      | InCollection c \<Rightarrow> Some (PrintCollection (col_Fee c) (col_MetaData c))
      | InMint m \<Rightarrow>
          Some (PrintMint (mint_Fee m) (mint_NFT m) (mint_Collection m) (mint_MetaData m)
            (mint_CollectionOwner m))
      | InOther _ \<Rightarrow> Some PrintNothing)"

section \<open>Searching a transaction\<close>

text \<open>The inner loop: the first transaction of a block whose hash field is the one asked for.\<close>

primrec find_tx :: "hash \<Rightarrow> Transaction list \<Rightarrow> Transaction option" where
  "find_tx hash [] = None"
| "find_tx hash (tx # txs) = (if tx_TxHash tx = hash then Some tx else find_tx hash txs)"

text \<open>The outer loop: blocks that cannot be read are skipped.\<close>

primrec search_tx :: "disk \<Rightarrow> PersistentStore \<Rightarrow> hash \<Rightarrow> hash list \<Rightarrow> Transaction option" where
  "search_tx d store hash [] = None"
| "search_tx d store hash (blockHash # hashes) =
     (case PersistentStore_GetBlockByHash d store blockHash of
        Inl _ \<Rightarrow> search_tx d store hash hashes
      | Inr block \<Rightarrow>
          (case find_tx hash (blk_Transactions block) of
             None \<Rightarrow> search_tx d store hash hashes
           | Some tx \<Rightarrow> Some tx))"

section \<open>The command\<close>

text \<open>The lines of a block's transactions; their hashes may have to be computed.\<close>

primrec print_txs :: "'z tx_prims_scheme \<Rightarrow> Transaction list \<Rightarrow> tx_report list option" where
  "print_txs P [] = Some []"
| "print_txs P (tx # txs) =
     (case Transaction_Hash P tx of
        Returns h _ \<Rightarrow>
          map_option ((#) \<lparr>tr_From = tx_From tx, tr_To = tx_To tx, tr_Value = tx_Value tx,
              tr_Hash = Hash_String h, tr_Inner = inner_details (tx_TxInner tx)\<rparr>) (print_txs P txs)
      | _ \<Rightarrow> None)"

definition inspect_tx ::
  "json_prims \<Rightarrow> disk \<Rightarrow> hash list \<Rightarrow> PersistentStore \<Rightarrow> bool \<Rightarrow> string \<Rightarrow> report option" where
  "inspect_tx J d order store pretty txHash =
     (case HashFromString txHash of
        None \<Rightarrow> None
      | Some hash \<Rightarrow>
          (case search_tx d store hash order of
             None \<Rightarrow> Some (TxNotFound hash)
           | Some tx \<Rightarrow>
               (case json_tx J pretty tx of
                  None \<Rightarrow> Some MarshalError
                | Some jsonData \<Rightarrow> Some (TxDetails jsonData (inner_details (tx_TxInner tx))))))"

definition inspect_block ::
  "'z tx_prims_scheme \<Rightarrow> json_prims \<Rightarrow> disk \<Rightarrow> PersistentStore \<Rightarrow> bool \<Rightarrow> string \<Rightarrow> report option" where
  "inspect_block P J d store pretty blockHash =
     (case HashFromString blockHash of
        None \<Rightarrow> None
      | Some hash \<Rightarrow>
          (case PersistentStore_GetBlockByHash d store hash of
             Inl err \<Rightarrow> Some (BlockError err)
           | Inr block \<Rightarrow>
               (case json_block J pretty block of
                  None \<Rightarrow> Some MarshalError
                | Some jsonData \<Rightarrow>
                    map_option (BlockDetails jsonData) (print_txs P (blk_Transactions block)))))"

text \<open>
  \<open>main\<close>. A start that gives a \<open>nil\<close> store without an error ends in a panic: of the operation, or
  of the deferred \<open>Close\<close>.
\<close>

definition inspect_main ::
  "'z prims_scheme \<Rightarrow> json_prims \<Rightarrow> disk \<Rightarrow> startup \<Rightarrow> store_package \<Rightarrow> hash list \<Rightarrow> inspect_flags
   \<Rightarrow> report option" where
  "inspect_main P J d e g order fl =
     (case fst (NewPersistentStore P e g) of
        Inl err \<Rightarrow> Some (StoreError err)
      | Inr None \<Rightarrow> None
      | Inr (Some store) \<Rightarrow>
          if fl_list fl then
            Some (HashList (map (\<lambda>h. (the (PersistentStore_GetAllBlockHashes store h), Hash_String h)) order))
          else if fl_tx fl \<noteq> [] then inspect_tx J d order store (fl_pretty fl) (fl_tx fl)
          else if fl_hash fl \<noteq> [] then inspect_block P J d store (fl_pretty fl) (fl_hash fl)
          else Some Usage)"

section \<open>Facts\<close>

lemma find_tx_Some: "find_tx hash txs = Some tx \<Longrightarrow> tx \<in> set txs \<and> tx_TxHash tx = hash"
  by (induction txs) (auto split: if_splits)

lemma find_tx_None: "find_tx hash txs = None \<longleftrightarrow> (\<forall>tx\<in>set txs. tx_TxHash tx \<noteq> hash)"
  by (induction txs) auto

lemma search_tx_Some:
  "search_tx d store hash hashes = Some tx \<Longrightarrow>
   \<exists>h\<in>set hashes. \<exists>b. PersistentStore_GetBlockByHash d store h = Inr b
     \<and> tx \<in> set (blk_Transactions b) \<and> tx_TxHash tx = hash"
  by (induction hashes) (auto split: sum.splits option.splits dest: find_tx_Some)

lemma search_tx_None:
  "search_tx d store hash hashes = None \<longleftrightarrow>
   (\<forall>h\<in>set hashes. \<forall>b. PersistentStore_GetBlockByHash d store h = Inr b
     \<longrightarrow> (\<forall>tx\<in>set (blk_Transactions b). tx_TxHash tx \<noteq> hash))"
  by (induction hashes) (auto split: sum.splits option.splits simp: find_tx_None dest: find_tx_Some)

section \<open>Properties\<close>

text \<open>
  Asked for the text of a hash, the inspector answers that a transaction is not found exactly
  when no block it can read has it, in whatever order it visits the blocks; otherwise it shows a
  transaction with that hash from a readable block, when its JSON text can be made.
\<close>

theorem inspect_tx_spec:
  assumes "set order = dom (PersistentStore_GetAllBlockHashes store)" and "length hash = 32"
    and json: "\<forall>tx. json_tx J pretty tx \<noteq> None"
  shows "if \<exists>h b. PersistentStore_GetBlockByHash d store h = Inr b
        \<and> (\<exists>tx\<in>set (blk_Transactions b). tx_TxHash tx = hash)
    then \<exists>h b tx x. PersistentStore_GetBlockByHash d store h = Inr b \<and> tx \<in> set (blk_Transactions b)
      \<and> tx_TxHash tx = hash \<and> json_tx J pretty tx = Some x
      \<and> inspect_tx J d order store pretty (Hash_String hash)
        = Some (TxDetails x (inner_details (tx_TxInner tx)))
    else inspect_tx J d order store pretty (Hash_String hash) = Some (TxNotFound hash)"
proof -
  have h: "HashFromString (Hash_String hash) = Some hash"
    using assms(2) by (simp add: HashFromString_def Hash_String_def HashFromBytes_def)
  have dom: "PersistentStore_GetBlockByHash d store k = Inr b \<Longrightarrow> k \<in> set order" for k b
    using assms(1)
    by (auto simp: PersistentStore_GetBlockByHash_def PersistentStore_GetAllBlockHashes_def
        split: option.splits)
  show ?thesis
  proof (cases "search_tx d store hash order")
    case None
    with dom have "\<not> (\<exists>h b. PersistentStore_GetBlockByHash d store h = Inr b
        \<and> (\<exists>tx\<in>set (blk_Transactions b). tx_TxHash tx = hash))"
      unfolding search_tx_None by blast
    with None h show ?thesis by (simp add: inspect_tx_def)
  next
    case (Some tx)
    from search_tx_Some [OF this] obtain k b where "PersistentStore_GetBlockByHash d store k = Inr b"
      "tx \<in> set (blk_Transactions b)" "tx_TxHash tx = hash" by blast
    moreover obtain x where "json_tx J pretty tx = Some x" using json by blast
    ultimately show ?thesis using Some h by (auto simp: inspect_tx_def)
  qed
qed

text \<open>
  Started on the file of a node that stored two or more blocks, the inspector reports no
  error but finds nothing: every transaction is not found, and for every block it prints an error.
\<close>

theorem inspector_blind:
  assumes "\<not> storeOnce g" and "2 \<le> length (data_file g)"
    and "\<not> mkdir_fails e" and "\<not> open_fails e" and "\<not> seek_fails (load_disk e)"
    and "length hash = 32" and "fl_list fl = False"
  shows "inspect_main P J d e g order (fl\<lparr>fl_tx := Hash_String hash\<rparr>) = Some (TxNotFound hash)
    \<and> (\<exists>err. inspect_main P J d e g order (fl\<lparr>fl_tx := [], fl_hash := Hash_String hash\<rparr>)
      = Some (BlockError err))"
proof -
  obtain s where s: "fst (NewPersistentStore P e g) = Inr (Some s)"
    "\<forall>d h. \<exists>err. PersistentStore_GetBlockByHash d s h = Inl err"
    using restart_closed_store [OF assms(1-5), of P] by blast
  have h: "HashFromString (Hash_String hash) = Some hash"
    using assms(6) by (simp add: HashFromString_def Hash_String_def HashFromBytes_def)
  have ne: "Hash_String hash \<noteq> []"
    using assms(6) by (cases hash) (simp_all add: Hash_String_def Hash_ToSlice_id)
  from s(2) obtain err where err: "PersistentStore_GetBlockByHash d s hash = Inl err" by blast
  have "search_tx d s hash order = None" unfolding search_tx_None using s(2) by (metis Inl_Inr_False)
  then show ?thesis using s(1) h ne err assms(7) by (simp add: inspect_main_def inspect_tx_def inspect_block_def)
qed

section \<open>Instances\<close>

definition demo_json :: json_prims where
  "demo_json = \<lparr>json_tx = \<lambda>pretty tx. Some ''tx'', json_block = \<lambda>pretty b. Some ''block''\<rparr>"

definition demo_readable :: PersistentStore where
  "demo_readable = \<lparr>ps_file = [Some (NewBlock demo_header [demo_tx])], ps_open = True,
     ps_blockHashes = [zero_hash \<mapsto> 0]\<rparr>"

lemma demo_readable_block:
  "\<exists>b. PersistentStore_GetBlockByHash good_disk demo_readable zero_hash = Inr b
    \<and> blk_Transactions b = [demo_tx]"
  by (simp add: PersistentStore_GetBlockByHash_def demo_readable_def good_disk_def find_height_first
      NewBlock_def demo_header_def)

theorem inspect_tx_spec_witness:
  "\<exists>i. inspect_tx demo_json good_disk [zero_hash] demo_readable False (Hash_String (tx_TxHash demo_tx))
    = Some (TxDetails ''tx'' i)"
proof -
  have a: "set [zero_hash] = dom (PersistentStore_GetAllBlockHashes demo_readable)"
    by (simp add: PersistentStore_GetAllBlockHashes_def demo_readable_def)
  have l: "length (tx_TxHash demo_tx) = 32" by (simp add: demo_tx_def)
  have j: "\<forall>tx. json_tx demo_json False tx \<noteq> None" by (simp add: demo_json_def)
  have "\<exists>h b. PersistentStore_GetBlockByHash good_disk demo_readable h = Inr b
      \<and> (\<exists>tx\<in>set (blk_Transactions b). tx_TxHash tx = tx_TxHash demo_tx)"
    using demo_readable_block by fastforce
  with inspect_tx_spec [OF a l j, of good_disk] show ?thesis by (auto simp: demo_json_def)
qed

theorem inspector_blind_witness:
  "inspect_main demo_block_prims demo_json good_disk
     \<lparr>mkdir_fails = False, open_fails = False, load_disk = good_disk\<rparr>
     \<lparr>storeInstance = None, storeOnce = False, data_file = [Some (demo_empty 0), Some (demo_empty 1)]\<rparr>
     [] \<lparr>fl_list = False, fl_hash = [], fl_tx = Hash_String zero_hash, fl_pretty = True\<rparr>
   = Some (TxNotFound zero_hash)"
  using inspector_blind [of "\<lparr>storeInstance = None, storeOnce = False,
        data_file = [Some (demo_empty 0), Some (demo_empty 1)]\<rparr>"
      "\<lparr>mkdir_fails = False, open_fails = False, load_disk = good_disk\<rparr>" zero_hash
      "\<lparr>fl_list = False, fl_hash = [], fl_tx = [], fl_pretty = True\<rparr>" demo_block_prims demo_json good_disk "[]"]
  by (simp add: good_disk_def zero_hash_def)

end
