(* ===== verification/Blockchain.thy ===== *)
theory Blockchain
  imports Storage Account_State Vm_Programs
begin

text \<open>
  \<open>core/blockchain.go\<close>: the chain, its state and the handling of transactions. Handlers get the
  chain and a transaction by pointer, so they run on the pair of both. The lock \<open>stateLock\<close> is a
  field, because it is taken by two operations of which one calls the other; Go's locks are not
  reentrant, so taking it a second time blocks for ever. The lock \<open>lock\<close> is released by every
  operation that takes it before another one takes it, and does not appear. A block and its
  header are appended to the chain as pointers and are not changed afterwards: the hash cache is
  filled before.
\<close>

section \<open>State\<close>

datatype chain_error =
  ErrTransfer account_error
| ErrNoCollection hash
| ErrUnsupportedTx
| ErrCode string
| ErrStudentExists string
| ErrStudentUnknown string
| ErrBlockKnown
| ErrHeightTooHigh u32
| ErrPrevHeader chain_error
| ErrPrevHash hash hash
| ErrVerify block_error
| ErrDataHashFails
| ErrDataHash hash hash
| ErrNoBlock hash
| ErrNoTx hash
| ErrStore store_error

record Blockchain =
  bc_store :: Storage
  bc_Headers :: "Header list"
  bc_blocks :: "Block list"
  bc_txStore :: "hash \<rightharpoonup> Transaction"
  bc_blockStore :: "hash \<rightharpoonup> Block"
  bc_AccountState :: AccountState
  bc_stateLock :: bool
  bc_collectionState :: "hash \<rightharpoonup> CollectionTx"
  bc_mintState :: "hash \<rightharpoonup> MintTx"
  bc_studentState :: "string \<rightharpoonup> Student option"
  bc_contractState :: State

type_synonym on_tx = "Blockchain \<times> Transaction"
type_synonym on_block = "Blockchain \<times> Block"

section \<open>Reading the chain\<close>

text \<open>The conversion to \<open>uint32\<close> makes the height of an empty chain the largest number.\<close>

definition bc_Height :: "Blockchain \<Rightarrow> u32" where
  "bc_Height bc = of_nat (length (bc_Headers bc)) - 1"

definition HasBlock :: "Blockchain \<Rightarrow> u32 \<Rightarrow> bool" where
  "HasBlock bc height \<longleftrightarrow> height \<le> bc_Height bc"

text \<open>\<open>None\<close> is the panic of an index out of range.\<close>

definition GetBlock :: "Blockchain \<Rightarrow> u32 \<Rightarrow> (chain_error + Block) option" where
  "GetBlock bc height =
     (if bc_Height bc < height then Some (Inl (ErrHeightTooHigh height))
      else if unat height < length (bc_blocks bc) then Some (Inr (bc_blocks bc ! unat height))
      else None)"

definition GetHeader :: "Blockchain \<Rightarrow> u32 \<Rightarrow> (chain_error + Header) option" where
  "GetHeader bc height =
     (if bc_Height bc < height then Some (Inl (ErrHeightTooHigh height))
      else if unat height < length (bc_Headers bc) then Some (Inr (bc_Headers bc ! unat height))
      else None)"

definition GetTxByHash :: "Blockchain \<Rightarrow> hash \<Rightarrow> chain_error + Transaction" where
  "GetTxByHash bc hash =
     (case bc_txStore bc hash of None \<Rightarrow> Inl (ErrNoTx hash) | Some tx \<Rightarrow> Inr tx)"

text \<open>\<open>None\<close> is the panic on a \<open>nil\<close> store.\<close>

definition GetBlockByHash :: "disk \<Rightarrow> Blockchain \<Rightarrow> hash \<Rightarrow> (chain_error + Block) option" where
  "GetBlockByHash d bc hash =
     (case bc_blockStore bc hash of
        Some block \<Rightarrow> Some (Inr block)
      | None \<Rightarrow>
          (case bc_store bc of
             InMemory \<Rightarrow> Some (Inl (ErrNoBlock hash))
           | Persistent None \<Rightarrow> None
           | Persistent (Some s) \<Rightarrow>
               (case PersistentStore_GetBlockByHash d s hash of
                  Inl e \<Rightarrow> Some (Inl (ErrStore e))
                | Inr block \<Rightarrow> Some (Inr block))))"

text \<open>The \<open>nil\<close> map of a memory store reads as the empty map; \<open>None\<close> is a panic.\<close>

definition GetAllBlockHashes :: "Blockchain \<Rightarrow> (hash \<rightharpoonup> u32) option" where
  "GetAllBlockHashes bc =
     (case bc_store bc of
        InMemory \<Rightarrow> Some Map.empty
      | Persistent None \<Rightarrow> None
      | Persistent (Some s) \<Rightarrow> Some (PersistentStore_GetAllBlockHashes s))"

section \<open>Handling a transaction\<close>

definition tx_hash :: "'z tx_prims_scheme \<Rightarrow> (hash, on_tx) prog" where
  "tx_hash P = (\<lambda>(bc, tx). map_outcome id (Pair bc) (Transaction_Hash P tx))"

definition handleNativeTransfer ::
  "'z tx_prims_scheme \<Rightarrow> (chain_error option, on_tx) prog" where
  "handleNativeTransfer P = (\<lambda>(bc, tx).
     case PublicKey_Address P (tx_From tx) of
       None \<Rightarrow> Panics (bc, tx)
     | Some from_addr \<Rightarrow>
         (case PublicKey_Address P (tx_To tx) of
            None \<Rightarrow> Panics (bc, tx)
          | Some to_addr \<Rightarrow>
              (case Transfer (bc_AccountState bc) from_addr to_addr (tx_Value tx) of
                 (err, accs) \<Rightarrow>
                   Returns (map_option ErrTransfer err) (bc\<lparr>bc_AccountState := accs\<rparr>, tx))))"

definition handleNativeNFT :: "'z tx_prims_scheme \<Rightarrow> (chain_error option, on_tx) prog" where
  "handleNativeNFT P = seq (tx_hash P) (\<lambda>hash (bc, tx).
     case tx_TxInner tx of
       InCollection t \<Rightarrow>
         Returns None (bc\<lparr>bc_collectionState := (bc_collectionState bc)(hash \<mapsto> t)\<rparr>, tx)
     | InMint t \<Rightarrow>
         (if bc_collectionState bc (mint_Collection t) = None
          then Returns (Some (ErrNoCollection (mint_Collection t))) (bc, tx)
          else Returns None (bc\<lparr>bc_mintState := (bc_mintState bc)(hash \<mapsto> t)\<rparr>, tx))
     | _ \<Rightarrow> Returns (Some ErrUnsupportedTx) (bc, tx))"

text \<open>The \<open>switch\<close> under the lock; a type byte outside the three is accepted and does nothing.\<close>

definition student_switch ::
  "StudentTx \<Rightarrow> (string \<rightharpoonup> Student option) \<Rightarrow> chain_error option \<times> (string \<rightharpoonup> Student option)" where
  "student_switch t m =
     (if stx_Type t = StudentTxTypeCreate then
        (if m (stx_StudentID t) \<noteq> None then (Some (ErrStudentExists (stx_StudentID t)), m)
         else (None, m(stx_StudentID t \<mapsto> stx_Student t)))
      else if stx_Type t = StudentTxTypeUpdate then
        (if m (stx_StudentID t) = None then (Some (ErrStudentUnknown (stx_StudentID t)), m)
         else (None, m(stx_StudentID t \<mapsto> stx_Student t)))
      else if stx_Type t = StudentTxTypeDelete then
        (if m (stx_StudentID t) = None then (Some (ErrStudentUnknown (stx_StudentID t)), m)
         else (None, m(stx_StudentID t := None)))
      else (None, m))"

text \<open>
  On another inner type the error is returned, but the deferred function repeats the type
  assertion without \<open>ok\<close> and panics.
\<close>

definition handleStudentTx :: "(chain_error option, on_tx) prog" where
  "handleStudentTx = (\<lambda>(bc, tx).
     case tx_TxInner tx of
       InStudent studentTx \<Rightarrow>
         (if bc_stateLock bc then Blocks (bc, tx)
          else
            (let bc1 = bc\<lparr>bc_stateLock := True\<rparr> in
             case student_switch studentTx (bc_studentState bc1) of
               (err, m) \<Rightarrow>
                 Returns err (bc1\<lparr>bc_studentState := m, bc_stateLock := False\<rparr>, tx)))
     | _ \<Rightarrow> Panics (bc, tx))"

text \<open>Executing the data as code, on the contract state of the chain itself.\<close>

definition run_code :: "(chain_error option, on_tx) prog" where
  "run_code = (\<lambda>(bc, tx).
     if length (tx_Data tx) > 0 then
       map_outcome (map_option ErrCode) (\<lambda>vm. (bc\<lparr>bc_contractState := contractState vm\<rparr>, tx))
         (Run (NewVM (tx_Data tx) (bc_contractState bc)))
     else Returns None (bc, tx))"

definition handle_nft_part :: "'z tx_prims_scheme \<Rightarrow> (chain_error option, on_tx) prog" where
  "handle_nft_part P = (\<lambda>(bc, tx).
     if tx_TxInner tx \<noteq> NoInner then handleNativeNFT P (bc, tx) else Returns None (bc, tx))"

definition handle_value_part :: "'z tx_prims_scheme \<Rightarrow> (chain_error option, on_tx) prog" where
  "handle_value_part P = (\<lambda>(bc, tx).
     if tx_Value tx > 0 then handleNativeTransfer P (bc, tx) else Returns None (bc, tx))"

text \<open>Continue unless there is an error.\<close>

definition unless_error ::
  "(chain_error option, 's) prog \<Rightarrow> chain_error option \<Rightarrow> (chain_error option, 's) prog" where
  "unless_error m err = (case err of Some e \<Rightarrow> ret (Some e) | None \<Rightarrow> m)"

definition handle_dispatch :: "'z tx_prims_scheme \<Rightarrow> (chain_error option, on_tx) prog" where
  "handle_dispatch P = (\<lambda>(bc, tx).
     case tx_TxInner tx of
       InStudent _ \<Rightarrow> handleStudentTx (bc, tx)
     | _ \<Rightarrow> seq (handle_nft_part P) (unless_error (handle_value_part P)) (bc, tx))"

text \<open>
  The hash is asked for by the first log line that runs, with or without data, so it is cached
  before anything is handled; what was done before an error stays done.
\<close>

definition handleTransaction :: "'z tx_prims_scheme \<Rightarrow> (chain_error option, on_tx) prog" where
  "handleTransaction P =
     seq (tx_hash P) (\<lambda>_. seq run_code (unless_error (handle_dispatch P)))"

section \<open>Adding a block\<close>

text \<open>
  The loop over the transactions: the value is the list of those that succeeded, the state the
  chain and all transactions with the hashes cached so far.
\<close>

primrec handle_txs ::
  "'z tx_prims_scheme \<Rightarrow> Transaction list \<Rightarrow> Blockchain
   \<Rightarrow> (Transaction list, Blockchain \<times> Transaction list) outcome" where
  "handle_txs P [] bc = Returns [] (bc, [])"
| "handle_txs P (tx # txx) bc =
     (case handleTransaction P (bc, tx) of
        Returns err (bc', tx') \<Rightarrow>
          map_outcome (\<lambda>ok. if err = None then tx' # ok else ok) (apsnd ((#) tx'))
            (handle_txs P txx bc')
      | Panics (bc', tx') \<Rightarrow> Panics (bc', tx' # txx)
      | Blocks (bc', tx') \<Rightarrow> Blocks (bc', tx' # txx))"

text \<open>The update under \<open>lock\<close>: the block is stored under its hash, each transaction under its own.\<close>

definition append_block :: "hash \<Rightarrow> Blockchain \<Rightarrow> Block \<Rightarrow> Blockchain" where
  "append_block hash bc b = bc\<lparr>
     bc_Headers := bc_Headers bc @ [blk_Header b],
     bc_blocks := bc_blocks bc @ [b],
     bc_blockStore := (bc_blockStore bc)(hash \<mapsto> b),
     bc_txStore := fold (\<lambda>tx m. m(tx_TxHash tx \<mapsto> tx)) (blk_Transactions b) (bc_txStore bc)\<rparr>"

definition put_block :: "'z prims_scheme \<Rightarrow> disk \<Rightarrow> (chain_error option, on_block) prog" where
  "put_block P d = (\<lambda>(bc, b).
     map_outcome (map_option ErrStore) (\<lambda>(st, b'). (bc\<lparr>bc_store := st\<rparr>, b'))
       (Storage_Put P d (bc_store bc, b)))"

text \<open>
  The lock is taken without \<open>defer\<close>: a panic of a handler leaves it held. The deferred log line
  asks for the block's hash however the call ends.
\<close>

definition addBlockWithoutValidation ::
  "'z prims_scheme \<Rightarrow> disk \<Rightarrow> (chain_error option, on_block) prog" where
  "addBlockWithoutValidation P d = (\<lambda>(bc, b).
     if bc_stateLock bc then Blocks (bc, b)
     else
       (case handle_txs P (blk_Transactions b) (bc\<lparr>bc_stateLock := True\<rparr>) of
          Panics (bc1, ts) \<Rightarrow> Panics (bc1, out_state (Block_Hash P (b\<lparr>blk_Transactions := ts\<rparr>)))
        | Blocks (bc1, ts) \<Rightarrow> Blocks (bc1, b\<lparr>blk_Transactions := ts\<rparr>)
        | Returns successfulTxs (bc1, _) \<Rightarrow>
            (let bc2 = bc1\<lparr>bc_stateLock := False\<rparr>;
                 b1 = b\<lparr>blk_Transactions := successfulTxs\<rparr>
             in case Block_Hash P b1 of
                  Panics b2 \<Rightarrow> Panics (bc2, b2)
                | Blocks b2 \<Rightarrow> Blocks (bc2, b2)
                | Returns hash b2 \<Rightarrow> put_block P d (append_block hash bc2 b2, b2))))"

text \<open>The validator is a value of the interface \<open>Validator\<close>, set by \<open>SetValidator\<close>.\<close>

type_synonym Validator = "(chain_error option, on_block) prog"

definition AddBlock ::
  "'z prims_scheme \<Rightarrow> disk \<Rightarrow> Validator \<Rightarrow> (chain_error option, on_block) prog" where
  "AddBlock P d validate =
     seq validate (\<lambda>err (bc, b).
       case err of
         Some e \<Rightarrow> map_outcome (\<lambda>_. Some e) (Pair bc) (Block_Hash P b)
       | None \<Rightarrow> addBlockWithoutValidation P d (bc, b))"

text \<open>
  \<open>core/validator.go\<close>. The message of the last error formats two hashes of the header, not the
  block's own, so nothing is cached.
\<close>

definition prev_check :: "'z prims_scheme \<Rightarrow> Blockchain \<Rightarrow> Block \<Rightarrow> chain_error option option" where
  "prev_check P bc b =
     (if Height (blk_Header b) > 0 then
        (case GetHeader bc (Height (blk_Header b) - 1) of
           None \<Rightarrow> None
         | Some (Inl err) \<Rightarrow> Some (Some (ErrPrevHeader err))
         | Some (Inr prevHeader) \<Rightarrow>
             (let hash = BlockHasher_Hash P prevHeader in
              if hash \<noteq> PrevBlockHash (blk_Header b)
              then Some (Some (ErrPrevHash hash (PrevBlockHash (blk_Header b))))
              else Some None))
      else Some None)"

definition ValidateBlock :: "'z prims_scheme \<Rightarrow> Validator" where
  "ValidateBlock P = (\<lambda>(bc, b).
     let currentHeight = bc_Height bc in
     if HasBlock bc (Height (blk_Header b)) then Returns (Some ErrBlockKnown) (bc, b)
     else if Height (blk_Header b) > currentHeight + 1
     then Returns (Some (ErrHeightTooHigh (Height (blk_Header b)))) (bc, b)
     else
       (case prev_check P bc b of
          None \<Rightarrow> Panics (bc, b)
        | Some (Some e) \<Rightarrow> Returns (Some e) (bc, b)
        | Some None \<Rightarrow>
            (case Block_Verify P b of
               Panics b1 \<Rightarrow> Panics (bc, b1)
             | Blocks b1 \<Rightarrow> Blocks (bc, b1)
             | Returns (Some e) b1 \<Rightarrow> Returns (Some (ErrVerify e)) (bc, b1)
             | Returns None b1 \<Rightarrow>
                 (case CalculateDataHash P (blk_Transactions b1) of
                    None \<Rightarrow> Returns (Some ErrDataHashFails) (bc, b1)
                  | Some dataHash \<Rightarrow>
                      if dataHash \<noteq> DataHash (blk_Header b1)
                      then Returns (Some (ErrDataHash dataHash (DataHash (blk_Header b1)))) (bc, b1)
                      else Returns None (bc, b1)))))"

section \<open>A new chain\<close>

definition fresh_chain :: "AccountState \<Rightarrow> Storage \<Rightarrow> Blockchain" where
  "fresh_chain accs st = \<lparr>bc_store = st, bc_Headers = [], bc_blocks = [], bc_txStore = Map.empty,
     bc_blockStore = Map.empty, bc_AccountState = accs, bc_stateLock = False,
     bc_collectionState = Map.empty, bc_mintState = Map.empty, bc_studentState = Map.empty,
     bc_contractState = NewState\<rparr>"

text \<open>
  \<open>Inl\<close> is the return without a chain; \<open>Inr\<close> is how adding the genesis block to the new chain
  went, whose error is returned together with the chain.
\<close>

definition NewBlockchain ::
  "'z prims_scheme \<Rightarrow> disk \<Rightarrow> startup \<Rightarrow> store_package \<Rightarrow> Block
   \<Rightarrow> store_error + (chain_error option, on_block) outcome" where
  "NewBlockchain P d e g genesis =
     (case PublicKey_Address P [] of
        None \<Rightarrow> Inr (Panics (fresh_chain NewAccountState InMemory, genesis))
      | Some coinbase \<Rightarrow>
          (case fst (NewPersistentStore P e g) of
             Inl err \<Rightarrow> Inl err
           | Inr store \<Rightarrow>
               Inr (addBlockWithoutValidation P d
                 (fresh_chain (snd (CreateAccount NewAccountState coinbase)) (Persistent store),
                  genesis))))"

end
