(* ===== verification/Chain_Frame.thy ===== *)
theory Chain_Frame
  imports Blockchain
begin

text \<open>
  What handling a transaction, and then the transactions of a block, may change: nothing of the
  chain's blocks and stores; balances only by transfers; contract keys only by gaining values.
  Each is a preorder that every handler keeps, however it ends.
\<close>

section \<open>The preorder of a transaction\<close>

definition sender_plain :: "'z tx_prims_scheme \<Rightarrow> Transaction \<Rightarrow> bool" where
  "sender_plain P tx \<longleftrightarrow> (\<forall>a. PublicKey_Address P (tx_From tx) = Some a \<longrightarrow> ordinary a)"

text \<open>Every minted token belongs to a collection that exists.\<close>

definition nft_ok :: "Blockchain \<Rightarrow> bool" where
  "nft_ok bc \<longleftrightarrow> (\<forall>h t. bc_mintState bc h = Some t
     \<longrightarrow> bc_collectionState bc (mint_Collection t) \<noteq> None)"

text \<open>What stays as it is of the chain, and how balances and contract state develop.\<close>

definition chain_fixed :: "Blockchain \<Rightarrow> Blockchain \<Rightarrow> bool" where
  "chain_fixed bc bc' \<longleftrightarrow> bc_store bc' = bc_store bc \<and> bc_Headers bc' = bc_Headers bc
     \<and> bc_blocks bc' = bc_blocks bc \<and> bc_txStore bc' = bc_txStore bc
     \<and> bc_blockStore bc' = bc_blockStore bc \<and> bc_stateLock bc' = bc_stateLock bc
     \<and> state_grows (bc_contractState bc) (bc_contractState bc')
     \<and> (accounts_ok (bc_AccountState bc) \<longrightarrow> accounts_ok (bc_AccountState bc'))
     \<and> (nft_ok bc \<longrightarrow> nft_ok bc')"

definition supply_kept :: "bool \<Rightarrow> Blockchain \<Rightarrow> Blockchain \<Rightarrow> bool" where
  "supply_kept plain bc bc' \<longleftrightarrow> (plain \<longrightarrow> accounts_ok (bc_AccountState bc)
     \<longrightarrow> total_supply (bc_AccountState bc') = total_supply (bc_AccountState bc))"

definition tx_frame :: "'z tx_prims_scheme \<Rightarrow> on_tx \<Rightarrow> on_tx \<Rightarrow> bool" where
  "tx_frame P s s' \<longleftrightarrow> chain_fixed (fst s) (fst s') \<and> same_content (snd s) (snd s')
     \<and> supply_kept (sender_plain P (snd s)) (fst s) (fst s')"

lemma chain_fixed_refl [simp]: "chain_fixed bc bc"
  by (simp add: chain_fixed_def)

lemma chain_fixed_trans:
  assumes "chain_fixed a b" and "chain_fixed b c"
  shows "chain_fixed a c"
  using assms state_grows_trans [of "bc_contractState a" "bc_contractState b" "bc_contractState c"]
  by (simp add: chain_fixed_def)

lemma sender_plain_same_content [simp]:
  "same_content tx tx' \<Longrightarrow> sender_plain P tx' = sender_plain P tx"
  by (auto simp: same_content_def sender_plain_def)

interpretation tx_frame: state_preorder "tx_frame P" for P :: "'z tx_prims_scheme"
proof
  show "tx_frame P s s" for s by (simp add: tx_frame_def supply_kept_def)
next
  fix s t u
  assume st: "tx_frame P s t" and tu: "tx_frame P t u"
  have "same_content (snd s) (snd t)" using st by (simp add: tx_frame_def)
  note plain = sender_plain_same_content [OF this, of P]
  show "tx_frame P s u"
    using st tu plain chain_fixed_trans [of "fst s" "fst t" "fst u"]
      same_content_trans [of "snd s" "snd t" "snd u"]
    by (auto simp: tx_frame_def supply_kept_def chain_fixed_def)
qed

section \<open>Every handler keeps it\<close>

lemma tx_frame_content [frame_simps]:
  "same_content tx tx' \<Longrightarrow> tx_frame P (bc, tx) (bc, tx')"
  by (simp add: tx_frame_def supply_kept_def)

lemma keeps_tx_hash: "keeps (tx_frame P) (tx_hash P)"
  unfolding keeps_def
proof
  fix s :: on_tx
  obtain bc tx where s: "s = (bc, tx)" by (cases s)
  have "same_content tx (out_state (Transaction_Hash P tx))"
    by (rule same_content.keeps_out [OF keeps_Transaction_Hash])
  then show "tx_frame P s (out_state (tx_hash P s))"
    by (cases "Transaction_Hash P tx") (simp_all add: s tx_hash_def frame_simps)
qed

lemma keeps_handleNativeTransfer: "keeps (tx_frame P) (handleNativeTransfer P)"
  unfolding keeps_def
proof
  fix s :: on_tx
  obtain bc tx where s: "s = (bc, tx)" by (cases s)
  show "tx_frame P s (out_state (handleNativeTransfer P s))"
  proof (cases "PublicKey_Address P (tx_From tx)")
    case None
    then show ?thesis by (simp add: s handleNativeTransfer_def)
  next
    case (Some a)
    show ?thesis
    proof (cases "PublicKey_Address P (tx_To tx)")
      case None
      with Some show ?thesis by (simp add: s handleNativeTransfer_def)
    next
      case (Some b)
      obtain err accs where t: "Transfer (bc_AccountState bc) a b (tx_Value tx) = (err, accs)"
        by (cases "Transfer (bc_AccountState bc) a b (tx_Value tx)")
      have "accounts_ok (bc_AccountState bc) \<Longrightarrow> accounts_ok accs"
        using account_ledger.kept [of "bc_AccountState bc" a b "tx_Value tx"] t by simp
      moreover have "ordinary a \<Longrightarrow> accounts_ok (bc_AccountState bc)
          \<Longrightarrow> total_supply accs = total_supply (bc_AccountState bc)"
        using account_ledger.plain_run_wealth [of "bc_AccountState bc" "[(a, b, tx_Value tx)]"] t
        by simp
      ultimately show ?thesis
        using \<open>PublicKey_Address P (tx_From tx) = Some a\<close> Some t
        by (auto simp: s handleNativeTransfer_def tx_frame_def chain_fixed_def supply_kept_def
            sender_plain_def nft_ok_def)
    qed
  qed
qed

lemma keeps_handleNativeNFT: "keeps (tx_frame P) (handleNativeNFT P)"
  unfolding handleNativeNFT_def
  by (rule tx_frame.keeps_seq [OF keeps_tx_hash])
    (auto simp: keeps_def tx_frame_def chain_fixed_def supply_kept_def nft_ok_def
      split: tx_inner.split)

lemma keeps_handleStudentTx: "keeps (tx_frame P) handleStudentTx"
  by (auto simp: keeps_def handleStudentTx_def Let_def tx_frame_def chain_fixed_def supply_kept_def
      nft_ok_def split: tx_inner.split prod.split)

lemma keeps_run_code: "keeps (tx_frame P) run_code"
  unfolding keeps_def
proof
  fix s :: on_tx
  obtain bc tx where s: "s = (bc, tx)" by (cases s)
  have "state_grows (bc_contractState bc)
      (contractState (out_state (Run (NewVM (tx_Data tx) (bc_contractState bc)))))"
    using Run_grows [of "NewVM (tx_Data tx) (bc_contractState bc)"] by (simp add: NewVM_def)
  then show "tx_frame P s (out_state (run_code s))"
    by (cases "Run (NewVM (tx_Data tx) (bc_contractState bc))")
      (auto simp: s run_code_def tx_frame_def chain_fixed_def supply_kept_def nft_ok_def)
qed

lemma keeps_unless_error: "keeps (tx_frame P) m \<Longrightarrow> keeps (tx_frame P) (unless_error m err)"
  by (auto simp: unless_error_def intro: tx_frame.keeps_ret split: option.split)

lemma keeps_when:
  assumes "keeps R m" and "\<And>s. R s s"
  shows "keeps R (\<lambda>(bc, tx). if c tx then m (bc, tx) else Returns None (bc, tx))"
  using assms by (auto simp: keeps_def)

lemma keeps_handle_nft_part: "keeps (tx_frame P) (handle_nft_part P)"
  unfolding handle_nft_part_def by (rule keeps_when [OF keeps_handleNativeNFT]) simp

lemma keeps_handle_value_part: "keeps (tx_frame P) (handle_value_part P)"
  unfolding handle_value_part_def by (rule keeps_when [OF keeps_handleNativeTransfer]) simp

lemma keeps_handle_dispatch: "keeps (tx_frame P) (handle_dispatch P)"
proof -
  have "keeps (tx_frame P) (seq (handle_nft_part P) (unless_error (handle_value_part P)))"
    by (intro tx_frame.keeps_seq keeps_handle_nft_part keeps_unless_error keeps_handle_value_part)
  then show ?thesis
    using tx_frame.keeps_out [OF keeps_handleStudentTx]
    by (auto simp: keeps_def handle_dispatch_def split: tx_inner.split)
qed

lemma keeps_handleTransaction: "keeps (tx_frame P) (handleTransaction P)"
  unfolding handleTransaction_def
  by (intro tx_frame.keeps_seq keeps_tx_hash keeps_run_code keeps_unless_error keeps_handle_dispatch)

section \<open>The transactions of a block\<close>

lemma handle_txs_frame:
  "chain_fixed bc (fst (out_state (handle_txs P txx bc)))
   \<and> list_all2 same_content txx (snd (out_state (handle_txs P txx bc)))
   \<and> supply_kept (\<forall>tx\<in>set txx. sender_plain P tx) bc (fst (out_state (handle_txs P txx bc)))"
proof (induction txx arbitrary: bc)
  case Nil
  show ?case by (simp add: supply_kept_def)
next
  case (Cons tx txx)
  have fr: "tx_frame P (bc, tx) (out_state (handleTransaction P (bc, tx)))"
    by (rule tx_frame.keeps_out [OF keeps_handleTransaction])
  show ?case
  proof (cases "handleTransaction P (bc, tx)")
    case (Returns err s)
    obtain bc' tx' where s: "s = (bc', tx')" by (cases s)
    from fr have f: "chain_fixed bc bc'" "same_content tx tx'" "supply_kept (sender_plain P tx) bc bc'"
      by (simp_all add: Returns s tx_frame_def)
    have "out_state (handle_txs P (tx # txx) bc) = apsnd ((#) tx') (out_state (handle_txs P txx bc'))"
      by (cases "handle_txs P txx bc'") (simp_all add: Returns s)
    then show ?thesis
      using Cons.IH [of bc'] f chain_fixed_trans [OF f(1)]
      by (auto simp: supply_kept_def chain_fixed_def)
  next
    case (Panics s)
    then show ?thesis using fr
      by (cases s) (auto simp: tx_frame_def supply_kept_def list_all2_same)
  next
    case (Blocks s)
    then show ?thesis using fr
      by (cases s) (auto simp: tx_frame_def supply_kept_def list_all2_same)
  qed
qed

lemma handle_txs_Returns:
  assumes "handle_txs P txx bc = Returns ok (bc', ts)"
  shows "set ok \<subseteq> set ts" and "list_all2 same_content txx ts" and "chain_fixed bc bc'"
    and "(\<forall>tx\<in>set txx. sender_plain P tx) \<Longrightarrow> accounts_ok (bc_AccountState bc)
      \<Longrightarrow> total_supply (bc_AccountState bc') = total_supply (bc_AccountState bc)"
proof -
  show "set ok \<subseteq> set ts"
    using assms
  proof (induction txx arbitrary: bc ok ts)
    case Nil
    then show ?case by simp
  next
    case (Cons tx txx)
    from Cons.prems obtain err b1 t1 where h: "handleTransaction P (bc, tx) = Returns err (b1, t1)"
      by (cases "handleTransaction P (bc, tx)") auto
    from Cons.prems h obtain ok' ts' where r: "handle_txs P txx b1 = Returns ok' (bc', ts')"
      and "ts = t1 # ts'" "ok = (if err = None then t1 # ok' else ok')"
      by (cases "handle_txs P txx b1") auto
    with Cons.IH [OF r] show ?case by auto
  qed
qed (use assms handle_txs_frame [of bc P txx] in \<open>simp_all add: supply_kept_def\<close>)

end
