(* ===== verification/Chain_Invariant.thy ===== *)
theory Chain_Invariant
  imports Chain_Frame
begin

text \<open>
  The invariant of the chain (heights are positions, headers are linked by hash, blocks and
  headers agree), the contract of a validator under which adding a block keeps it, and the
  chains that are reachable from a genesis block.
\<close>

section \<open>The outcome of adding a block\<close>

lemma put_block_frame:
  obtains (returns) e st b' where "put_block P d (bc, b) = Returns e (bc\<lparr>bc_store := st\<rparr>, b')"
      and "only_caches b b'" and "\<And>x. e = Some x \<Longrightarrow> \<exists>y. x = ErrStore y"
    | (panics) st b' where "put_block P d (bc, b) = Panics (bc\<lparr>bc_store := st\<rparr>, b')"
      and "only_caches b b'"
proof (cases rule: storage_sink.put_cases [of P d "bc_store bc" b])
  case (returns e s' b')
  then show ?thesis using that(1) [of "map_option ErrStore e" s' b'] by (auto simp: put_block_def)
next
  case (panics s' b')
  then show ?thesis using that(2) [of s' b'] by (auto simp: put_block_def)
qed

lemma addBlock_locked: "bc_stateLock bc \<Longrightarrow> addBlockWithoutValidation P d (bc, b) = Blocks (bc, b)"
  by (simp add: addBlockWithoutValidation_def)

lemma addBlock_cases:
  assumes "\<not> bc_stateLock bc"
  obtains (panics) bc1 ts where
      "handle_txs P (blk_Transactions b) (bc\<lparr>bc_stateLock := True\<rparr>) = Panics (bc1, ts)"
      and "addBlockWithoutValidation P d (bc, b)
        = Panics (bc1, out_state (Block_Hash P (b\<lparr>blk_Transactions := ts\<rparr>)))"
    | (blocks) bc1 ts where
      "handle_txs P (blk_Transactions b) (bc\<lparr>bc_stateLock := True\<rparr>) = Blocks (bc1, ts)"
      and "addBlockWithoutValidation P d (bc, b) = Blocks (bc1, b\<lparr>blk_Transactions := ts\<rparr>)"
    | (appends) ok bc1 ts hash b2 where
      "handle_txs P (blk_Transactions b) (bc\<lparr>bc_stateLock := True\<rparr>) = Returns ok (bc1, ts)"
      and "Block_Hash P (b\<lparr>blk_Transactions := ok\<rparr>) = Returns hash b2"
      and "addBlockWithoutValidation P d (bc, b)
        = put_block P d (append_block hash (bc1\<lparr>bc_stateLock := False\<rparr>) b2, b2)"
proof (cases "handle_txs P (blk_Transactions b) (bc\<lparr>bc_stateLock := True\<rparr>)")
  case (Returns ok s)
  obtain hash b2 where "Block_Hash P (b\<lparr>blk_Transactions := ok\<rparr>) = Returns hash b2"
    using Block_Hash_returns by blast
  then show ?thesis
    using appends [of ok "fst s" "snd s" hash b2] Returns assms
    by (cases s) (simp add: addBlockWithoutValidation_def Let_def)
next
  case (Panics s)
  then show ?thesis
    using panics [of "fst s" "snd s"] assms
    by (cases s) (simp add: addBlockWithoutValidation_def Let_def)
next
  case (Blocks s)
  then show ?thesis
    using blocks [of "fst s" "snd s"] assms
    by (cases s) (simp add: addBlockWithoutValidation_def Let_def)
qed

section \<open>The invariant\<close>

definition links :: "'z prims_scheme \<Rightarrow> Header list \<Rightarrow> bool" where
  "links P hs \<longleftrightarrow> (\<forall>i<length hs. unat (Height (hs ! i)) = i
     \<and> (0 < i \<longrightarrow> PrevBlockHash (hs ! i) = BlockHasher_Hash P (hs ! (i - 1))))"

definition chain_ok :: "'z prims_scheme \<Rightarrow> Blockchain \<Rightarrow> bool" where
  "chain_ok P bc \<longleftrightarrow> links P (bc_Headers bc) \<and> map blk_Header (bc_blocks bc) = bc_Headers bc
     \<and> length (bc_Headers bc) \<le> 2 ^ 32 \<and> accounts_ok (bc_AccountState bc) \<and> nft_ok bc"

text \<open>A header that may follow the chain: the next height, linked to the last header.\<close>

definition extends :: "'z prims_scheme \<Rightarrow> Blockchain \<Rightarrow> Header \<Rightarrow> bool" where
  "extends P bc h \<longleftrightarrow> unat (Height h) = length (bc_Headers bc)
     \<and> (bc_Headers bc \<noteq> [] \<longrightarrow> PrevBlockHash h = BlockHasher_Hash P (last (bc_Headers bc)))"

lemma links_append:
  assumes "links P (bc_Headers bc)" and "extends P bc h"
  shows "links P (bc_Headers bc @ [h])"
  using assms by (auto simp: links_def extends_def nth_append last_conv_nth less_Suc_eq)

lemma extends_bound: "extends P bc h \<Longrightarrow> length (bc_Headers bc) + 1 \<le> 2 ^ 32"
  using unsigned_less [of "Height h", where 'a = nat] by (simp add: extends_def)

lemma bc_Height_chain:
  assumes "bc_Headers bc \<noteq> []" and "length (bc_Headers bc) \<le> 2 ^ 32"
  shows "unat (bc_Height bc) = length (bc_Headers bc) - 1"
proof -
  have "bc_Height bc = of_nat (length (bc_Headers bc) - 1)"
    using assms(1) by (simp add: bc_Height_def of_nat_diff Suc_leI)
  moreover have "length (bc_Headers bc) - 1 < 2 ^ 32"
    using assms by (cases "bc_Headers bc") auto
  ultimately show ?thesis by (simp add: unat_of_nat take_bit_nat_eq_self)
qed

lemma bc_Height_empty: "bc_Headers bc = [] \<Longrightarrow> bc_Height bc = - 1"
  by (simp add: bc_Height_def)

lemma HasBlock_iff:
  assumes "chain_ok P bc"
  shows "HasBlock bc height \<longleftrightarrow> bc_Headers bc = [] \<or> unat height < length (bc_Headers bc)"
proof (cases "bc_Headers bc = []")
  case True
  then show ?thesis by (simp add: HasBlock_def bc_Height_empty)
next
  case False
  then obtain n where n: "length (bc_Headers bc) = Suc n" by (cases "bc_Headers bc") auto
  with False assms bc_Height_chain [of bc] have "unat (bc_Height bc) = n" by (simp add: chain_ok_def)
  with False n show ?thesis by (auto simp: HasBlock_def word_le_nat_alt)
qed

lemma append_block_fields [simp]:
  "bc_Headers (append_block h bc b) = bc_Headers bc @ [blk_Header b]"
  "bc_blocks (append_block h bc b) = bc_blocks bc @ [b]"
  "bc_blockStore (append_block h bc b) = (bc_blockStore bc)(h \<mapsto> b)"
  "bc_AccountState (append_block h bc b) = bc_AccountState bc"
  "bc_stateLock (append_block h bc b) = bc_stateLock bc"
  "bc_store (append_block h bc b) = bc_store bc"
  "bc_contractState (append_block h bc b) = bc_contractState bc"
  "bc_mintState (append_block h bc b) = bc_mintState bc"
  "bc_collectionState (append_block h bc b) = bc_collectionState bc"
  by (simp_all add: append_block_def)

lemma chain_ok_fixed:
  assumes "chain_ok P bc" and "chain_fixed bc bc'"
  shows "chain_ok P bc'"
  using assms by (auto simp: chain_ok_def chain_fixed_def)

lemma chain_ok_append:
  assumes "chain_ok P bc" and "extends P bc (blk_Header b)"
  shows "chain_ok P (append_block h bc b)"
  using assms links_append [of P bc "blk_Header b"] extends_bound [OF assms(2)]
  by (simp add: chain_ok_def nft_ok_def)

lemma chain_ok_update [simp]:
  "chain_ok P (bc\<lparr>bc_store := st\<rparr>) = chain_ok P bc"
  "chain_ok P (bc\<lparr>bc_stateLock := l\<rparr>) = chain_ok P bc"
  by (simp_all add: chain_ok_def nft_ok_def)

text \<open>Adding a fitting block keeps the invariant, however the call ends.\<close>

lemma addBlock_chain_ok:
  assumes ok: "chain_ok P bc" and fits: "extends P bc (blk_Header b)"
  shows "chain_ok P (fst (out_state (addBlockWithoutValidation P d (bc, b))))"
proof (cases "bc_stateLock bc")
  case True
  with ok show ?thesis by (simp add: addBlock_locked)
next
  case False
  let ?bc = "bc\<lparr>bc_stateLock := True\<rparr>"
  have fx: "chain_fixed ?bc (fst (out_state (handle_txs P (blk_Transactions b) ?bc)))"
    using handle_txs_frame by blast
  have ok': "chain_ok P ?bc" using ok by simp
  from False show ?thesis
  proof (cases rule: addBlock_cases [of bc P b d])
    case (panics bc1 ts)
    with fx chain_ok_fixed [OF ok'] show ?thesis by simp
  next
    case (blocks bc1 ts)
    with fx chain_ok_fixed [OF ok'] show ?thesis by simp
  next
    case (appends r bc1 ts hash b2)
    from fx appends(1) have fx1: "chain_fixed ?bc bc1" by simp
    have "blk_Header b2 = blk_Header b" using Block_Hash_frame [OF appends(2)] by simp
    moreover have "extends P bc1 (blk_Header b)" using fx1 fits by (simp add: extends_def chain_fixed_def)
    ultimately have "chain_ok P (append_block hash (bc1\<lparr>bc_stateLock := False\<rparr>) b2)"
      using chain_ok_fixed [OF ok' fx1] by (intro chain_ok_append) (simp_all add: extends_def)
    then show ?thesis
      by (cases rule: put_block_frame [of P d "append_block hash (bc1\<lparr>bc_stateLock := False\<rparr>) b2" b2])
        (simp_all add: appends(3))
  qed
qed

section \<open>The contract of a validator\<close>

text \<open>
  A validator leaves the chain alone and the contents of the block, and on a chain that is in
  order accepts only a block that extends it.
\<close>

locale validator =
  fixes P :: "'z prims_scheme" and validate :: Validator
  assumes validate_chain: "fst (out_state (validate (bc, b))) = bc"
    and validate_block: "block_frame P b (snd (out_state (validate (bc, b))))"
    and validate_extends: "chain_ok P bc \<Longrightarrow> validate (bc, b) = Returns None (bc, b')
      \<Longrightarrow> extends P bc (blk_Header b')"
begin

lemma AddBlock_validated_cases:
  obtains (accepted) b1 where "validate (bc, b) = Returns None (bc, b1)" and "block_frame P b b1"
      and "AddBlock P d validate (bc, b) = addBlockWithoutValidation P d (bc, b1)"
    | (rejected) e b0 b1 where "validate (bc, b) = Returns (Some e) (bc, b0)"
      and "AddBlock P d validate (bc, b) = Returns (Some e) (bc, b1)" and "block_frame P b b1"
    | (fails) b1 where "AddBlock P d validate (bc, b) \<in> {Panics (bc, b1), Blocks (bc, b1)}"
      and "block_frame P b b1"
proof (cases "validate (bc, b)")
  case (Returns err s)
  then have s: "s = (bc, snd s)" and fr: "block_frame P b (snd s)"
    using validate_chain [of bc b] validate_block [of b bc] by (cases s; simp)+
  show ?thesis
  proof (cases err)
    case None
    then show ?thesis using accepted [of "snd s"] Returns s fr
      by (cases s) (simp add: AddBlock_def seq_def)
  next
    case (Some e)
    obtain h b1 where h: "Block_Hash P (snd s) = Returns h b1" using Block_Hash_returns by blast
    have "block_frame P b b1"
      using block_frame.keeps_Returns [OF keeps_Block_Hash h] fr by (rule block_frame.trans [rotated])
    then show ?thesis using rejected [of e "snd s" b1] Returns Some s h
      by (cases s) (simp add: AddBlock_def seq_def)
  qed
next
  case (Panics s)
  then show ?thesis
    using fails [of "snd s"] validate_chain [of bc b] validate_block [of b bc]
    by (cases s) (auto simp: AddBlock_def seq_def)
next
  case (Blocks s)
  then show ?thesis
    using fails [of "snd s"] validate_chain [of bc b] validate_block [of b bc]
    by (cases s) (auto simp: AddBlock_def seq_def)
qed

lemma AddBlock_chain_ok:
  assumes "chain_ok P bc"
  shows "chain_ok P (fst (out_state (AddBlock P d validate (bc, b))))"
proof (cases rule: AddBlock_validated_cases [of bc b d])
  case (accepted b1)
  from validate_extends [OF assms accepted(1)] have "extends P bc (blk_Header b1)" .
  with accepted(3) assms show ?thesis by (simp add: addBlock_chain_ok)
next
  case (rejected e b0 b1)
  with assms show ?thesis by simp
next
  case (fails b1)
  with assms show ?thesis by auto
qed

lemma AddBlock_success:
  assumes ok: "chain_ok P bc" and add: "AddBlock P d validate (bc, b) = Returns None (bc', b')"
  obtains b1 r bc1 ts hash b2 st where
    "validate (bc, b) = Returns None (bc, b1)" and "block_frame P b b1"
    and "extends P bc (blk_Header b)" and "\<not> bc_stateLock bc"
    and "handle_txs P (blk_Transactions b1) (bc\<lparr>bc_stateLock := True\<rparr>) = Returns r (bc1, ts)"
    and "Block_Hash P (b1\<lparr>blk_Transactions := r\<rparr>) = Returns hash b2" and "only_caches b2 b'"
    and "bc' = (append_block hash (bc1\<lparr>bc_stateLock := False\<rparr>) b2)\<lparr>bc_store := st\<rparr>"
proof (cases rule: AddBlock_validated_cases [of bc b d])
  case (accepted b1)
  then have add1: "addBlockWithoutValidation P d (bc, b1) = Returns None (bc', b')" using add by simp
  then have l: "\<not> bc_stateLock bc" by (auto simp: addBlock_locked)
  have ext: "extends P bc (blk_Header b)"
    using validate_extends [OF ok accepted(1)] accepted(2) by (simp add: block_frame_def)
  from l show ?thesis
  proof (cases rule: addBlock_cases [of bc P b1 d])
    case (appends r bc1 ts hash b2)
    then show ?thesis
    proof (cases rule: put_block_frame [of P d "append_block hash (bc1\<lparr>bc_stateLock := False\<rparr>) b2" b2])
      case (returns e st b3)
      with add1 appends show ?thesis
        using that [OF accepted(1,2) ext l appends(1,2), of st] by simp
    qed (use add1 appends in simp)
  qed (use add1 in simp_all)
qed (use add in auto)

end

end
