(* ===== verification/Chain_Demo.thy ===== *)
theory Chain_Demo
  imports Chain_Invariant
begin

text \<open>
  A chain on the checksum primitives of the block theory: it starts on an empty blocks file from
  an empty block of height 0, and the signed block over one transaction can follow. The closed
  instances of the chain's theorems evaluate on it.
\<close>

definition demo_startup :: startup where
  "demo_startup = \<lparr>mkdir_fails = False, open_fails = False, load_disk = good_disk\<rparr>"

definition demo_package :: store_package where
  "demo_package = \<lparr>storeInstance = None, storeOnce = False, data_file = []\<rparr>"

definition demo_hash :: hash where
  "demo_hash = BlockHasher_Hash demo_block_prims demo_header"

definition demo_genesis :: Block where
  "demo_genesis = (demo_empty 0)\<lparr>blk_hash := demo_hash\<rparr>"

definition demo_store1 :: PersistentStore where
  "demo_store1 = \<lparr>ps_file = [Some (demo_empty 0)], ps_open = True,
     ps_blockHashes = [demo_hash \<mapsto> 0]\<rparr>"

definition demo_accounts :: AccountState where
  "demo_accounts = snd (CreateAccount NewAccountState (demo_address 0))"

definition demo_chain :: Blockchain where
  "demo_chain = (append_block demo_hash
       (fresh_chain demo_accounts (Persistent (Some demo_store))) demo_genesis)
     \<lparr>bc_store := Persistent (Some demo_store1)\<rparr>"

lemma demo_PublicKey_Address: "PublicKey_Address demo_block_prims k = Some (demo_address 0)"
  by (simp add: PublicKey_Address_def demo_block_prims_def demo_sha_def AddressFromBytes_def
      demo_address_def Let_def)

lemma demo_header_0: "demo_header\<lparr>Height := 0\<rparr> = demo_header"
  by (simp add: demo_header_def)

lemma demo_open: "NewPersistentStore demo_block_prims demo_startup demo_package
    = (Inr (Some demo_store), demo_package\<lparr>storeOnce := True, storeInstance := Some demo_store\<rparr>)"
  by (simp add: NewPersistentStore_def demo_startup_def demo_package_def loadBlockHashes_def
      load_hashes.simps good_disk_def demo_store_def)

lemma demo_genesis_Put: "Storage_Put demo_block_prims good_disk (Persistent (Some demo_store), demo_genesis)
    = Returns None (Persistent (Some demo_store1), demo_genesis)"
proof -
  have "PersistentStore_Put demo_block_prims good_disk (demo_store, demo_genesis)
      = Returns None (demo_store1, demo_genesis)"
    by (auto simp: PersistentStore_Put_success demo_store_def demo_store1_def good_disk_def
        encodable_def demo_genesis_def demo_empty_def NewBlock_def wire_block_def Block_Hash_def
        demo_hash_def BlockHasher_Hash_def demo_block_prims_def demo_header_0)
      (simp_all add: demo_header_def)
  then show ?thesis by (simp add: Storage_Put_def)
qed

lemma demo_start:
  "NewBlockchain demo_block_prims good_disk demo_startup demo_package (demo_empty 0)
    = Inr (Returns None (demo_chain, demo_genesis))"
proof -
  let ?bc = "fresh_chain demo_accounts (Persistent (Some demo_store))"
  have h: "Block_Hash demo_block_prims ((demo_empty 0)\<lparr>blk_Transactions := []\<rparr>)
      = Returns demo_hash demo_genesis"
    by (simp add: Block_Hash_def demo_empty_def NewBlock_def demo_header_0 demo_hash_def
        demo_genesis_def Let_def)
  have l: "?bc\<lparr>bc_stateLock := False\<rparr> = ?bc" by (simp add: fresh_chain_def)
  have "addBlockWithoutValidation demo_block_prims good_disk (?bc, demo_empty 0)
      = put_block demo_block_prims good_disk (append_block demo_hash ?bc demo_genesis, demo_genesis)"
    using h l by (simp add: addBlockWithoutValidation_def demo_empty_def NewBlock_def Let_def)
      (simp add: fresh_chain_def)
  also have "\<dots> = Returns None (demo_chain, demo_genesis)"
    using demo_genesis_Put by (simp add: put_block_def demo_chain_def fresh_chain_def append_block_def)
  finally show ?thesis
    by (simp add: NewBlockchain_def demo_PublicKey_Address demo_open demo_accounts_def)
qed

lemma demo_chain_simps [simp]:
  "bc_Headers demo_chain = [demo_header]" "bc_blocks demo_chain = [demo_genesis]"
  "bc_stateLock demo_chain = False" "bc_AccountState demo_chain = demo_accounts"
  "bc_store demo_chain = Persistent (Some demo_store1)"
  by (simp_all add: demo_chain_def fresh_chain_def demo_genesis_def demo_empty_def NewBlock_def
      demo_header_0)

lemma demo_accounts_ok [simp]: "accounts_ok demo_accounts"
  unfolding demo_accounts_def by (intro accounts_ok_Create) simp

lemma demo_chain_ok: "chain_ok demo_block_prims demo_chain"
  by (simp add: chain_ok_def links_def)
    (simp add: demo_header_def demo_genesis_def demo_empty_def NewBlock_def nft_ok_def
      demo_chain_def fresh_chain_def)

text \<open>The transaction of the block fails: its sender has a balance of zero.\<close>

lemma demo_handle_tx:
  assumes "bc_AccountState bc = demo_accounts"
  shows "handleTransaction demo_block_prims (bc, demo_tx)
    = Returns (Some (ErrTransfer ErrInsufficientBalance)) (bc, demo_tx)"
proof -
  have "Transfer demo_accounts (demo_address 0) (demo_address 0) 7
      = (Some ErrInsufficientBalance, demo_accounts)"
    by (simp add: Transfer_def getAccountWithoutLock_def demo_accounts_def CreateAccount_def
        NewAccountState_def Let_def)
  moreover have "bc\<lparr>bc_AccountState := demo_accounts\<rparr> = bc" using assms by (cases bc) simp
  ultimately have "handleNativeTransfer demo_block_prims (bc, demo_tx)
      = Returns (Some (ErrTransfer ErrInsufficientBalance)) (bc, demo_tx)"
    by (simp add: handleNativeTransfer_def demo_PublicKey_Address assms demo_tx_def)
  moreover have "tx_TxInner demo_tx = NoInner" "tx_Data demo_tx = []" "tx_Value demo_tx = 7"
    by (simp_all add: demo_tx_def)
  ultimately show ?thesis
    by (simp add: handleTransaction_def tx_hash_def demo_tx_hash seq_def run_code_def
        unless_error_def handle_dispatch_def handle_nft_part_def handle_value_part_def)
qed

lemma demo_block_header: "Height (blk_Header demo_block) = 1"
  "PrevBlockHash (blk_Header demo_block) = demo_hash"
  using demo_block_built built_and_signed_block(3,4) [of demo_block_prims "[demo_tx]"]
    demo_block_prims_ok demo_tx_verifies
  by (auto simp: demo_hash_def) (auto simp: demo_header_def)

lemma demo_validate:
  "ValidateBlock demo_block_prims (demo_chain, demo_block) = Returns None (demo_chain, demo_block)"
proof -
  have "bc_Height demo_chain = 0" by (simp add: bc_Height_def)
  moreover have "prev_check demo_block_prims demo_chain demo_block = Some None"
    by (simp add: prev_check_def demo_block_header GetHeader_def bc_Height_def Let_def demo_hash_def)
  moreover have "CalculateDataHash demo_block_prims (blk_Transactions demo_block)
      = Some (DataHash (blk_Header demo_block))"
    by (rule Block_Verify_data_hash [OF demo_block_verifies])
  ultimately show ?thesis
    by (simp add: ValidateBlock_def HasBlock_def demo_block_header demo_block_verifies)
qed

lemma demo_add_locked:
  assumes "\<not> bc_stateLock bc" and "bc_AccountState bc = demo_accounts"
  shows "\<exists>b2. addBlockWithoutValidation demo_block_prims d (bc, demo_block)
      = put_block demo_block_prims d (append_block (blk_hash b2) bc b2, b2)
    \<and> blk_Transactions b2 = [] \<and> blk_Header b2 = blk_Header demo_block
    \<and> blk_Signature b2 = blk_Signature demo_block \<and> blk_Validator b2 = blk_Validator demo_block"
proof -
  obtain h b2 where h: "Block_Hash demo_block_prims (demo_block\<lparr>blk_Transactions := []\<rparr>) = Returns h b2"
    using Block_Hash_returns by blast
  have e: "bc\<lparr>bc_stateLock := False\<rparr> = bc" using assms(1) by (cases bc) simp
  have "addBlockWithoutValidation demo_block_prims d (bc, demo_block)
      = put_block demo_block_prims d (append_block (blk_hash b2) bc b2, b2)"
    using assms h Block_Hash_frame(5) [OF h]
    by (simp add: addBlockWithoutValidation_def demo_block_transactions demo_handle_tx Let_def e)
  then show ?thesis using Block_Hash_frame [OF h] by auto
qed

lemma demo_add:
  "\<exists>bc' b'. AddBlock demo_block_prims good_disk (ValidateBlock demo_block_prims) (demo_chain, demo_block)
      = Returns None (bc', b')
    \<and> blk_Transactions b' = [] \<and> blk_Header b' = blk_Header demo_block
    \<and> blk_Signature b' = blk_Signature demo_block \<and> blk_Validator b' = blk_Validator demo_block"
proof -
  obtain b2 where b2: "addBlockWithoutValidation demo_block_prims good_disk (demo_chain, demo_block)
      = put_block demo_block_prims good_disk (append_block (blk_hash b2) demo_chain b2, b2)"
    "blk_Transactions b2 = []" "blk_Header b2 = blk_Header demo_block"
    "blk_Signature b2 = blk_Signature demo_block" "blk_Validator b2 = blk_Validator demo_block"
    using demo_add_locked [of demo_chain good_disk] by auto
  have "\<exists>s b'. PersistentStore_Put demo_block_prims good_disk (demo_store1, b2) = Returns None (s, b')"
    using Block_Hash_returns [of demo_block_prims b2] b2(2)
    by (auto simp: PersistentStore_Put_success demo_store1_def good_disk_def encodable_def)
  then obtain s b' where p: "PersistentStore_Put demo_block_prims good_disk (demo_store1, b2) = Returns None (s, b')"
    by blast
  then have "only_caches b2 b'"
    using persistent_sink.put_only_caches [of b2 demo_block_prims good_disk demo_store1] by simp
  note f = only_caches_fields [OF this]
  have "AddBlock demo_block_prims good_disk (ValidateBlock demo_block_prims) (demo_chain, demo_block)
      = Returns None ((append_block (blk_hash b2) demo_chain b2)\<lparr>bc_store := Persistent (Some s)\<rparr>, b')"
    using p by (simp add: AddBlock_def seq_def demo_validate b2(1) put_block_def Storage_Put_def)
  then show ?thesis using f b2 by auto
qed

end
