(* ===== verification/Chain_Safety.thy ===== *)
theory Chain_Safety
  imports Chain_Demo
begin

text \<open>
  The block validator satisfies the contract of a validator; with it every chain that grows from
  a genesis block of height 0 keeps the invariant. The section on readers shows that the
  exported getters never index out of range on such a chain.
\<close>

section \<open>The block validator\<close>

lemma GetHeader_chain:
  assumes "chain_ok P bc" and "bc_Headers bc \<noteq> []"
  shows "GetHeader bc height =
    (if unat height < length (bc_Headers bc) then Some (Inr (bc_Headers bc ! unat height))
     else Some (Inl (ErrHeightTooHigh height)))"
  using HasBlock_iff [OF assms(1), of height] assms(2)
  by (auto simp: GetHeader_def HasBlock_def not_less)

lemma GetBlock_chain:
  assumes "chain_ok P bc" and "bc_Headers bc \<noteq> []"
  shows "GetBlock bc height =
    (if unat height < length (bc_Headers bc) then Some (Inr (bc_blocks bc ! unat height))
     else Some (Inl (ErrHeightTooHigh height)))"
proof -
  have "length (bc_blocks bc) = length (bc_Headers bc)"
    using assms(1) by (auto simp: chain_ok_def dest: arg_cong [of _ _ length])
  with HasBlock_iff [OF assms(1), of height] assms(2) show ?thesis
    by (auto simp: GetBlock_def HasBlock_def not_less)
qed

text \<open>The height test leaves one height that passes: the length of the chain.\<close>

lemma next_height:
  assumes "chain_ok P bc" and "\<not> HasBlock bc ht" and "\<not> ht > bc_Height bc + 1"
  shows "unat ht = length (bc_Headers bc)" and "bc_Headers bc \<noteq> []" and "0 < ht"
    and "unat (ht - 1) = length (bc_Headers bc) - 1"
proof -
  from assms(1,2) have ne: "bc_Headers bc \<noteq> []" and le: "length (bc_Headers bc) \<le> unat ht"
    by (auto simp: HasBlock_iff)
  then obtain n where n: "length (bc_Headers bc) = Suc n" by (cases "bc_Headers bc") auto
  have h: "unat (bc_Height bc) = n"
    using bc_Height_chain [OF ne] assms(1) n by (simp add: chain_ok_def)
  have "unat (bc_Height bc + 1) = Suc n"
    using le n h unsigned_less [of ht, where 'a = nat] by (simp add: unat_word_ariths)
  with assms(3) le n show eq: "unat ht = length (bc_Headers bc)" by (simp add: word_less_nat_alt)
  show "bc_Headers bc \<noteq> []" by (rule ne)
  show pos: "0 < ht" using eq n by (simp add: word_less_nat_alt)
  then show "unat (ht - 1) = length (bc_Headers bc) - 1"
    using eq n by (simp add: unat_sub word_le_nat_alt)
qed

lemma ValidateBlock_accepts:
  assumes "ValidateBlock P (bc, b) = Returns None (bc', b')"
  shows "bc' = bc" and "\<not> HasBlock bc (Height (blk_Header b))"
    and "\<not> Height (blk_Header b) > bc_Height bc + 1" and "prev_check P bc b = Some None"
    and "Block_Verify P b = Returns None b'"
    and "CalculateDataHash P (blk_Transactions b') = Some (DataHash (blk_Header b'))"
  using assms
  by (auto simp: ValidateBlock_def Let_def split: if_splits option.splits outcome.splits)

lemma prev_check_extends:
  assumes ok: "chain_ok P bc" and h: "\<not> HasBlock bc (Height (blk_Header b))"
    "\<not> Height (blk_Header b) > bc_Height bc + 1" and p: "prev_check P bc b = Some None"
  shows "extends P bc (blk_Header b)"
proof -
  note n = next_height [OF ok h]
  from n(2) have "length (bc_Headers bc) - 1 < length (bc_Headers bc)" by (cases "bc_Headers bc") auto
  then have "GetHeader bc (Height (blk_Header b) - 1) = Some (Inr (last (bc_Headers bc)))"
    using GetHeader_chain [OF ok n(2), of "Height (blk_Header b) - 1"] n(2,4)
    by (simp add: last_conv_nth)
  with p n show ?thesis
    by (auto simp: prev_check_def extends_def Let_def split: if_splits)
qed

lemma ValidateBlock_out:
  "\<exists>b'. out_state (ValidateBlock P (bc, b)) = (bc, b') \<and> block_frame P b b'"
proof -
  have v: "block_frame P b (out_state (Block_Verify P b))"
    by (rule block_frame.keeps_out [OF keeps_Block_Verify])
  show ?thesis
    using v
    by (cases "Block_Verify P b")
      (auto simp: ValidateBlock_def Let_def split: option.split)
qed

interpretation block_validator: validator P "ValidateBlock P" for P :: "'z prims_scheme"
proof
  fix bc b b'
  show "fst (out_state (ValidateBlock P (bc, b))) = bc"
    and "block_frame P b (snd (out_state (ValidateBlock P (bc, b))))"
    using ValidateBlock_out [of P bc b] by auto
  assume "chain_ok P bc" and v: "ValidateBlock P (bc, b) = Returns None (bc, b')"
  then have "extends P bc (blk_Header b)"
    using ValidateBlock_accepts [OF v] prev_check_extends by blast
  then show "extends P bc (blk_Header b')"
    using Block_Verify_frame(1) [OF ValidateBlock_accepts(5) [OF v]] by simp
qed

lemma ValidateBlock_not_store_error:
  "ValidateBlock P (bc, b) = Returns (Some e) s \<Longrightarrow> e \<noteq> ErrStore se"
  by (auto simp: ValidateBlock_def prev_check_def Let_def
      split: if_splits option.splits outcome.splits sum.splits)

lemma ValidateBlock_never_blocks: "ValidateBlock P (bc, b) \<noteq> Blocks s"
  using Block_Verify_never_blocks [of P b]
  by (auto simp: ValidateBlock_def Let_def split: option.splits outcome.splits)

section \<open>Reachable chains\<close>

inductive reachable :: "'z prims_scheme \<Rightarrow> Blockchain \<Rightarrow> bool" for P where
  start: "NewBlockchain P d e g genesis = Inr r \<Longrightarrow> Height (blk_Header genesis) = 0
    \<Longrightarrow> reachable P (fst (out_state r))"
| add: "reachable P bc \<Longrightarrow> reachable P (fst (out_state (AddBlock P d (ValidateBlock P) (bc, b))))"

inductive_cases reachableE: "reachable P bc"

lemma fresh_chain_ok:
  "accounts_ok accs \<Longrightarrow> chain_ok P (fresh_chain accs st)"
  "Height h = 0 \<Longrightarrow> extends P (fresh_chain accs st) h"
  by (simp_all add: chain_ok_def fresh_chain_def links_def extends_def nft_ok_def)

lemma NewBlockchain_chain_ok:
  assumes "NewBlockchain P d e g genesis = Inr r" and h: "Height (blk_Header genesis) = 0"
  shows "chain_ok P (fst (out_state r))"
proof (cases "PublicKey_Address P []")
  case None
  with assms(1) show ?thesis by (auto simp: NewBlockchain_def fresh_chain_ok)
next
  case (Some a)
  have "accounts_ok (snd (CreateAccount NewAccountState a))" by (intro accounts_ok_Create) simp
  then have "chain_ok P (fst (out_state (addBlockWithoutValidation P d
      (fresh_chain (snd (CreateAccount NewAccountState a)) st, genesis))))" for st
    using h by (intro addBlock_chain_ok fresh_chain_ok)
  with assms(1) Some show ?thesis by (auto simp: NewBlockchain_def split: sum.splits)
qed

section \<open>Properties\<close>

text \<open>
  C1: whatever blocks are offered to it, in any order and however each call ends, the chain of a
  node that started from a genesis block of height 0 has header \<open>i\<close> at height \<open>i\<close>, every header
  linked to the one before it by hash, blocks and headers in step, well-formed accounts, and no minted token without its
  collection.
\<close>

theorem reachable_chain_ok:
  assumes "reachable P bc"
  shows "chain_ok P bc"
  using assms
proof induction
  case (start d e g genesis r)
  then show ?case by (rule NewBlockchain_chain_ok)
next
  case (add bc d b)
  from add.IH show ?case by (rule block_validator.AddBlock_chain_ok)
qed

text \<open>
  C2: a block that \<open>AddBlock\<close> takes without an error is exactly the next one: it has the next
  height, links to the last header, carries a valid signature of its validator, and its header
  is appended; the chain stays in order and its state lock is free.
\<close>

theorem AddBlock_extends_chain:
  assumes "chain_ok P bc" and "AddBlock P d (ValidateBlock P) (bc, b) = Returns None (bc', b')"
  shows "chain_ok P bc' \<and> bc_Headers bc' = bc_Headers bc @ [blk_Header b]
    \<and> unat (Height (blk_Header b)) = length (bc_Headers bc)
    \<and> (bc_Headers bc \<noteq> [] \<longrightarrow>
        PrevBlockHash (blk_Header b) = BlockHasher_Hash P (last (bc_Headers bc)))
    \<and> (\<exists>sg. blk_Signature b = Some sg
        \<and> Signature_Verify P sg (blk_Validator b) (Header_Bytes P (blk_Header b)) = Some True)
    \<and> \<not> bc_stateLock bc'"
proof -
  have ok: "chain_ok P bc'"
    using block_validator.AddBlock_chain_ok [OF assms(1), of d b] assms(2) by simp
  from assms show ?thesis
  proof (rule block_validator.AddBlock_success)
    fix b1 r bc1 ts hash b2 st
    assume v: "ValidateBlock P (bc, b) = Returns None (bc, b1)" and fr: "block_frame P b b1"
      and ext: "extends P bc (blk_Header b)"
      and h: "handle_txs P (blk_Transactions b1) (bc\<lparr>bc_stateLock := True\<rparr>) = Returns r (bc1, ts)"
      and bh: "Block_Hash P (b1\<lparr>blk_Transactions := r\<rparr>) = Returns hash b2"
      and bc': "bc' = append_block hash (bc1\<lparr>bc_stateLock := False\<rparr>) b2\<lparr>bc_store := st\<rparr>"
    have "bc_Headers bc1 = bc_Headers bc"
      using handle_txs_Returns(3) [OF h] by (simp add: chain_fixed_def)
    moreover have "blk_Header b2 = blk_Header b"
      using Block_Hash_frame(1) [OF bh] fr by (simp add: block_frame_def)
    ultimately show ?thesis
      using ok ext ValidateBlock_accepts(5) [OF v]
      by (auto simp: bc' extends_def Block_Verify_accepts_iff)
  qed
qed

text \<open>
  On a chain that is in order and not empty the height getters never index out of range:
  \<open>HasBlock\<close> tells which heights exist, \<open>GetBlock\<close> and \<open>GetHeader\<close> return the block and header
  of that very height, and an error for every other height.
\<close>

theorem getters_total:
  assumes ok: "chain_ok P bc" and ne: "bc_Headers bc \<noteq> []"
  shows "(HasBlock bc height \<longrightarrow> (\<exists>b. GetBlock bc height = Some (Inr b)
        \<and> GetHeader bc height = Some (Inr (blk_Header b)) \<and> Height (blk_Header b) = height))
    \<and> (\<not> HasBlock bc height \<longrightarrow> GetBlock bc height = Some (Inl (ErrHeightTooHigh height))
        \<and> GetHeader bc height = Some (Inl (ErrHeightTooHigh height)))"
proof (cases "unat height < length (bc_Headers bc)")
  case True
  have m: "map blk_Header (bc_blocks bc) = bc_Headers bc" using ok by (simp add: chain_ok_def)
  then have l: "unat height < length (bc_blocks bc)" using True by (metis length_map)
  have e: "bc_Headers bc ! unat height = blk_Header (bc_blocks bc ! unat height)"
    using l by (simp flip: m)
  have "unat (Height (bc_Headers bc ! unat height)) = unat height"
    using ok True by (simp add: chain_ok_def links_def)
  then have "Height (blk_Header (bc_blocks bc ! unat height)) = height"
    by (intro unsigned_word_eqI [where 'a = nat]) (simp add: e)
  with True e show ?thesis
    using GetBlock_chain [OF ok ne, of height] GetHeader_chain [OF ok ne, of height]
      HasBlock_iff [OF ok, of height] by simp
next
  case False
  then show ?thesis
    using GetBlock_chain [OF ok ne, of height] GetHeader_chain [OF ok ne, of height]
      HasBlock_iff [OF ok, of height] ne by simp
qed

text \<open>
  C33: an error of \<open>AddBlock\<close> that does not come from the store leaves the whole chain, its
  accounts and its contract state as they were; a block of any other height than the next one
  gets such an error. An error of the store comes after the block was appended, and offering the
  block again is answered with \<open>ErrBlockKnown\<close>.
\<close>

theorem AddBlock_errors:
  assumes ok: "chain_ok P bc"
    and add: "AddBlock P d (ValidateBlock P) (bc, b) = Returns (Some e) (bc', b')"
  shows "((\<forall>se. e \<noteq> ErrStore se) \<longrightarrow> bc' = bc)
    \<and> (\<forall>se. e = ErrStore se \<longrightarrow> bc_Headers bc' = bc_Headers bc @ [blk_Header b]
        \<and> (\<exists>b''. AddBlock P d (ValidateBlock P) (bc', b') = Returns (Some ErrBlockKnown) (bc', b'')))"
proof (cases rule: block_validator.AddBlock_validated_cases [of P bc b d])
  case (accepted b1)
  from block_validator.validate_extends [OF ok accepted(1)] accepted(2)
  have ext: "extends P bc (blk_Header b)" by (simp add: block_frame_def)
  from add accepted(3) have add1: "addBlockWithoutValidation P d (bc, b1) = Returns (Some e) (bc', b')"
    by simp
  then have "\<not> bc_stateLock bc" by (auto simp: addBlock_locked)
  then show ?thesis
  proof (cases rule: addBlock_cases [of bc P b1 d])
    case (appends r bc1 ts hash b2)
    let ?bc2 = "append_block hash (bc1\<lparr>bc_stateLock := False\<rparr>) b2"
    show ?thesis
    proof (cases rule: put_block_frame [of P d ?bc2 b2])
      case (returns e' st b3)
      from returns(1) appends(3) add1 have eq: "e' = Some e" "bc' = ?bc2\<lparr>bc_store := st\<rparr>" "b' = b3"
        by simp_all
      have hd2: "blk_Header b2 = blk_Header b"
        using Block_Hash_frame(1) [OF appends(2)] accepted(2) by (simp add: block_frame_def)
      then have hd: "blk_Header b' = blk_Header b"
        using only_caches_fields(1) [OF returns(2)] eq by simp
      have hs: "bc_Headers bc' = bc_Headers bc @ [blk_Header b]"
        using handle_txs_Returns(3) [OF appends(1)] hd2 by (simp add: eq chain_fixed_def)
      have ok': "chain_ok P bc'"
        using block_validator.AddBlock_chain_ok [OF ok, of d b] add by simp
      have "HasBlock bc' (Height (blk_Header b'))"
        using HasBlock_iff [OF ok'] ext by (simp add: hs hd extends_def)
      moreover obtain h b4 where "Block_Hash P b' = Returns h b4" using Block_Hash_returns by blast
      ultimately have "AddBlock P d (ValidateBlock P) (bc', b') = Returns (Some ErrBlockKnown) (bc', b4)"
        by (simp add: AddBlock_def seq_def ValidateBlock_def)
      with hs returns(3) eq(1) show ?thesis by blast
    qed (use appends add1 in simp)
  qed (use add1 in simp_all)
next
  case (rejected e' b0 b1)
  with add ValidateBlock_not_store_error [OF rejected(1)] show ?thesis by auto
qed (use add in auto)

section \<open>Instances\<close>

theorem reachable_chain_ok_witness:
  "chain_ok demo_block_prims
     (fst (out_state (AddBlock demo_block_prims good_disk (ValidateBlock demo_block_prims)
        (demo_chain, demo_block))))"
proof -
  have "Height (blk_Header (demo_empty 0)) = 0" by (simp add: demo_empty_def NewBlock_def)
  from reachable.start [OF demo_start this] have "reachable demo_block_prims demo_chain" by simp
  from reachable_chain_ok [OF reachable.add [OF this]] show ?thesis .
qed

theorem AddBlock_extends_chain_witness:
  "\<exists>bc' b'. AddBlock demo_block_prims good_disk (ValidateBlock demo_block_prims) (demo_chain, demo_block)
      = Returns None (bc', b') \<and> length (bc_Headers bc') = 2"
proof -
  obtain bc' b' where a: "AddBlock demo_block_prims good_disk (ValidateBlock demo_block_prims)
      (demo_chain, demo_block) = Returns None (bc', b')"
    using demo_add by blast
  with AddBlock_extends_chain [OF demo_chain_ok a] show ?thesis by auto
qed

theorem getters_total_witness:
  "\<exists>b. GetBlock demo_chain 0 = Some (Inr b) \<and> GetHeader demo_chain 0 = Some (Inr (blk_Header b))"
proof -
  have "bc_Headers demo_chain \<noteq> []" and "HasBlock demo_chain 0"
    by (simp_all add: HasBlock_def)
  with getters_total [OF demo_chain_ok, of 0] show ?thesis by blast
qed

theorem AddBlock_errors_witness:
  "\<exists>b'. AddBlock demo_block_prims good_disk (ValidateBlock demo_block_prims) (demo_chain, demo_genesis)
      = Returns (Some ErrBlockKnown) (demo_chain, b')"
proof -
  have k: "HasBlock demo_chain (Height (blk_Header demo_genesis))"
    by (simp add: HasBlock_def bc_Height_def demo_genesis_def demo_empty_def NewBlock_def)
  obtain h b' where "Block_Hash demo_block_prims demo_genesis = Returns h b'"
    using Block_Hash_returns by blast
  with k have "AddBlock demo_block_prims good_disk (ValidateBlock demo_block_prims)
      (demo_chain, demo_genesis) = Returns (Some ErrBlockKnown) (demo_chain, b')"
    by (simp add: AddBlock_def seq_def ValidateBlock_def)
  with AddBlock_errors [OF demo_chain_ok this] show ?thesis by blast
qed

end
