(* ===== verification/Chain_Effects.thy ===== *)
theory Chain_Effects
  imports Chain_Safety
begin

text \<open>
  What a block does to the accounts, and what its handling can do to the node: balances follow
  the ledger, the total supply is conserved, a student transaction blocks the chain for ever, a
  panic leaves the state lock held, and a block of which a transaction failed is stored in a form
  that no longer verifies.
\<close>

section \<open>The chain as a ledger\<close>

text \<open>The abstract operations of a block: one transfer for each transaction that moves a value.\<close>

definition addr :: "'z crypto_prims_scheme \<Rightarrow> PublicKey \<Rightarrow> address" where
  "addr P k = (case PublicKey_Address P k of None \<Rightarrow> [] | Some a \<Rightarrow> a)"

fun payments :: "'z tx_prims_scheme \<Rightarrow> Transaction list \<Rightarrow> (address \<times> address \<times> u64) list" where
  "payments P [] = []"
| "payments P (tx # txx) =
     (if tx_Value tx > 0 then [(addr P (tx_From tx), addr P (tx_To tx), tx_Value tx)] else [])
     @ payments P txx"

definition value_only :: "Transaction \<Rightarrow> bool" where
  "value_only tx \<longleftrightarrow> tx_Data tx = [] \<and> tx_TxInner tx = NoInner"

lemma addr_Some: "sha_fixed_length P \<Longrightarrow> PublicKey_Address P k = Some (addr P k)"
  by (simp add: sha_fixed_length_def addr_def PublicKey_Address_def AddressFromBytes_def Let_def)

lemma Transaction_Hash_value_only:
  assumes "tx_TxInner tx = NoInner"
  shows "\<exists>h. Transaction_Hash P tx = Returns h (tx\<lparr>tx_TxHash := h\<rparr>)"
proof (cases "Hash_IsZero (tx_TxHash tx)")
  case True
  with assms show ?thesis
    by (simp add: Transaction_Hash_def TxHasher_Hash_def tx_preimage_def)
next
  case False
  then show ?thesis by (intro exI [of _ "tx_TxHash tx"]) (simp add: Transaction_Hash_def)
qed

lemma handle_value_only:
  assumes P: "sha_fixed_length P" and v: "value_only tx"
  shows "\<exists>err h. handleTransaction P (bc, tx)
    = Returns err (bc\<lparr>bc_AccountState := account_ledger.run (bc_AccountState bc) (payments P [tx])\<rparr>,
        tx\<lparr>tx_TxHash := h\<rparr>)"
proof -
  from v have i: "tx_TxInner tx = NoInner" "tx_Data tx = []" by (simp_all add: value_only_def)
  obtain h where h: "Transaction_Hash P tx = Returns h (tx\<lparr>tx_TxHash := h\<rparr>)"
    using Transaction_Hash_value_only [OF i(1)] by blast
  obtain err accs where t: "Transfer (bc_AccountState bc) (addr P (tx_From tx)) (addr P (tx_To tx))
      (tx_Value tx) = (err, accs)" by (cases "Transfer (bc_AccountState bc) (addr P (tx_From tx))
      (addr P (tx_To tx)) (tx_Value tx)")
  have "handleTransaction P (bc, tx) = handle_value_part P (bc, tx\<lparr>tx_TxHash := h\<rparr>)"
    using i by (simp add: handleTransaction_def tx_hash_def h seq_def run_code_def
        unless_error_def handle_dispatch_def handle_nft_part_def split: outcome.split)
  also have "\<dots> = Returns (if tx_Value tx > 0 then map_option ErrTransfer err else None)
      (bc\<lparr>bc_AccountState := account_ledger.run (bc_AccountState bc) (payments P [tx])\<rparr>,
        tx\<lparr>tx_TxHash := h\<rparr>)"
    using t by (simp add: handle_value_part_def handleNativeTransfer_def addr_Some [OF P])
  finally show ?thesis by blast
qed

lemma ledger_run_append:
  "account_ledger.run s (xs @ ys) = account_ledger.run (account_ledger.run s xs) ys"
  by (induction xs arbitrary: s) auto

lemma handle_txs_value_only:
  assumes P: "sha_fixed_length P" and "\<forall>tx\<in>set txx. value_only tx"
  shows "\<exists>ok ts. handle_txs P txx bc
    = Returns ok (bc\<lparr>bc_AccountState := account_ledger.run (bc_AccountState bc) (payments P txx)\<rparr>, ts)"
  using assms(2)
proof (induction txx arbitrary: bc)
  case Nil
  show ?case by simp
next
  case (Cons tx txx)
  let ?bc' = "bc\<lparr>bc_AccountState := account_ledger.run (bc_AccountState bc) (payments P [tx])\<rparr>"
  from Cons.prems obtain err h where h: "handleTransaction P (bc, tx) = Returns err (?bc', tx\<lparr>tx_TxHash := h\<rparr>)"
    using handle_value_only [OF P, of tx bc] by auto
  from Cons.prems Cons.IH [of ?bc'] obtain ok ts where "handle_txs P txx ?bc'
      = Returns ok (?bc'\<lparr>bc_AccountState := account_ledger.run (bc_AccountState ?bc') (payments P txx)\<rparr>, ts)"
    by auto
  moreover have "payments P (tx # txx) = payments P [tx] @ payments P txx" by simp
  ultimately show ?case using h by (simp add: ledger_run_append del: payments.simps)
qed

lemma payments_same_content:
  "list_all2 same_content txx txx' \<Longrightarrow> payments P txx' = payments P txx"
  by (induction rule: list_all2_induct) (auto simp: same_content_def)

lemma value_only_same_content:
  assumes "list_all2 same_content txx txx'" and "\<forall>tx\<in>set txx. value_only tx"
  shows "\<forall>tx\<in>set txx'. value_only tx"
proof -
  have "value_only tx' = value_only tx" if "same_content tx tx'" for tx tx'
    using that by (auto simp: same_content_def value_only_def)
  with assms show ?thesis by (fastforce simp: list_all2_conv_all_nth in_set_conv_nth)
qed

text \<open>
  C4: adding a block of transactions without data and inner value implements the abstract ledger:
  the accounts afterwards are those after the block's payments in order, failing ones skipped.
\<close>

theorem AddBlock_refines_ledger:
  assumes P: "sha_fixed_length P" and ok: "chain_ok P bc"
    and v: "\<forall>tx\<in>set (blk_Transactions b). value_only tx"
    and add: "AddBlock P d (ValidateBlock P) (bc, b) = Returns None (bc', b')"
  shows "bc_AccountState bc'
    = account_ledger.run (bc_AccountState bc) (payments P (blk_Transactions b))"
  using ok add
proof (rule block_validator.AddBlock_success)
  fix b1 r bc1 ts hash b2 st
  assume fr: "block_frame P b b1"
    and h: "handle_txs P (blk_Transactions b1) (bc\<lparr>bc_stateLock := True\<rparr>) = Returns r (bc1, ts)"
    and bc': "bc' = append_block hash (bc1\<lparr>bc_stateLock := False\<rparr>) b2\<lparr>bc_store := st\<rparr>"
  have l: "list_all2 same_content (blk_Transactions b) (blk_Transactions b1)"
    using fr by (simp add: block_frame_def)
  have "bc_AccountState bc1
      = account_ledger.run (bc_AccountState bc) (payments P (blk_Transactions b1))"
    using handle_txs_value_only [OF P value_only_same_content [OF l v], of "bc\<lparr>bc_stateLock := True\<rparr>"] h
    by auto
  then show ?thesis by (simp add: bc' payments_same_content [OF l])
qed

lemma addBlock_supply:
  assumes "accounts_ok (bc_AccountState bc)" and "\<forall>tx\<in>set (blk_Transactions b). sender_plain P tx"
  shows "total_supply (bc_AccountState (fst (out_state (addBlockWithoutValidation P d (bc, b)))))
    = total_supply (bc_AccountState bc)"
proof (cases "bc_stateLock bc")
  case True
  then show ?thesis by (simp add: addBlock_locked)
next
  case False
  let ?bc = "bc\<lparr>bc_stateLock := True\<rparr>"
  have s: "total_supply (bc_AccountState (fst (out_state (handle_txs P (blk_Transactions b) ?bc))))
      = total_supply (bc_AccountState bc)"
    using handle_txs_frame [of ?bc P "blk_Transactions b"] assms by (simp add: supply_kept_def)
  from False show ?thesis
  proof (cases rule: addBlock_cases [of bc P b d])
    case (appends r bc1 ts hash b2)
    with s show ?thesis
      by (cases rule: put_block_frame [of P d "append_block hash (bc1\<lparr>bc_stateLock := False\<rparr>) b2" b2]) simp_all
  qed (use s in simp_all)
qed

text \<open>
  C5: no block changes the sum of all balances when none of its senders is the coinbase address,
  whatever its transactions contain and however the call ends, a panic or a deadlock included.
\<close>

theorem AddBlock_conserves_supply:
  assumes ok: "chain_ok P bc"
    and plain: "\<forall>tx\<in>set (blk_Transactions b). \<forall>a.
      PublicKey_Address P (tx_From tx) = Some a \<longrightarrow> Address_String a \<noteq> coinbase_text"
  shows "total_supply (bc_AccountState (fst (out_state (AddBlock P d (ValidateBlock P) (bc, b)))))
    = total_supply (bc_AccountState bc)"
proof (cases rule: block_validator.AddBlock_validated_cases [of P bc b d])
  case (accepted b1)
  have "list_all2 same_content (blk_Transactions b) (blk_Transactions b1)"
    using accepted(2) by (simp add: block_frame_def)
  moreover have "\<forall>tx\<in>set (blk_Transactions b). sender_plain P tx"
    using plain by (simp add: sender_plain_def ordinary_def)
  ultimately have "\<forall>tx\<in>set (blk_Transactions b1). sender_plain P tx"
    by (induction rule: list_all2_induct) auto
  with ok show ?thesis by (simp add: accepted(3) addBlock_supply chain_ok_def)
next
  case (rejected e b0 b1)
  then show ?thesis by simp
next
  case (fails b1)
  then show ?thesis by auto
qed

section \<open>Instances\<close>

lemma demo_block_value_only: "\<forall>tx\<in>set (blk_Transactions demo_block). value_only tx"
  by (simp add: demo_block_transactions value_only_def demo_tx_def)

theorem AddBlock_refines_ledger_witness:
  "\<exists>bc' b'. AddBlock demo_block_prims good_disk (ValidateBlock demo_block_prims) (demo_chain, demo_block)
      = Returns None (bc', b')
    \<and> bc_AccountState bc'
      = account_ledger.run demo_accounts (payments demo_block_prims [demo_tx])"
proof -
  obtain bc' b' where a: "AddBlock demo_block_prims good_disk (ValidateBlock demo_block_prims)
      (demo_chain, demo_block) = Returns None (bc', b')"
    using demo_add by blast
  have "sha_fixed_length demo_block_prims" using demo_block_prims_ok by simp
  from AddBlock_refines_ledger [OF this demo_chain_ok demo_block_value_only a] a show ?thesis
    by (simp add: demo_block_transactions)
qed

theorem AddBlock_conserves_supply_witness:
  "total_supply (bc_AccountState (fst (out_state (AddBlock demo_block_prims good_disk
      (ValidateBlock demo_block_prims) (demo_chain, demo_block))))) = total_supply demo_accounts"
  by (subst AddBlock_conserves_supply [OF demo_chain_ok]) (simp_all add: demo_PublicKey_Address)

end
