(* ===== verification/Chain_Hazards.thy ===== *)
theory Chain_Hazards
  imports Chain_Effects "HOL-Library.Sublist"
begin

text \<open>
  What handling one transaction can do to the chain: the student registry, the deadlock of a
  student transaction inside a block, the lock that a panic leaves held, effects that survive an
  error, and the stored form of a block of which a transaction failed.
\<close>

section \<open>A settled transaction is not written\<close>

text \<open>
  Apart from the hash cache the handlers do not touch the transaction. A relation that ignores
  the chain and is kept by caching the hash is therefore kept by all of handling.
\<close>

locale on_tx_preorder = state_preorder R for R :: "on_tx \<Rightarrow> on_tx \<Rightarrow> bool" +
  fixes P :: "'z tx_prims_scheme"
  assumes hash: "keeps R (tx_hash P)"
    and chain_free: "R (bc, tx) (bc', tx)"
begin

lemma keeps_same_tx: "(\<And>bc tx. \<exists>bc'. out_state (m (bc, tx)) = (bc', tx)) \<Longrightarrow> keeps R m"
  by (auto simp: keeps_def) (metis chain_free)

lemma keeps_transfer: "keeps R (handleNativeTransfer P)"
  by (rule keeps_same_tx) (auto simp: handleNativeTransfer_def split: option.split prod.split)

lemma keeps_student: "keeps R handleStudentTx"
  by (rule keeps_same_tx) (auto simp: handleStudentTx_def Let_def split: tx_inner.split prod.split)

lemma keeps_code: "keeps R run_code"
proof (rule keeps_same_tx)
  fix bc tx
  show "\<exists>bc'. out_state (run_code (bc, tx)) = (bc', tx)"
    by (cases "Run (NewVM (tx_Data tx) (bc_contractState bc))") (auto simp: run_code_def)
qed

lemma keeps_nft: "keeps R (handleNativeNFT P)"
  unfolding handleNativeNFT_def
  by (rule keeps_seq [OF hash], rule keeps_same_tx) (auto split: tx_inner.split)

lemma keeps_unless: "keeps R m \<Longrightarrow> keeps R (unless_error m err)"
  by (auto simp: unless_error_def intro: keeps_ret split: option.split)

lemma keeps_handle: "keeps R (handleTransaction P)"
proof -
  have "keeps R (handle_nft_part P)" and "keeps R (handle_value_part P)"
    unfolding handle_nft_part_def handle_value_part_def
    by (rule keeps_when [OF keeps_nft] keeps_when [OF keeps_transfer], simp)+
  then have "keeps R (seq (handle_nft_part P) (unless_error (handle_value_part P)))"
    by (intro keeps_seq keeps_unless)
  then have "keeps R (handle_dispatch P)"
    using keeps_student by (auto simp: keeps_def handle_dispatch_def split: tx_inner.split)
  then show ?thesis
    unfolding handleTransaction_def by (intro keeps_seq hash keeps_code keeps_unless)
qed

end

definition settled :: "'z tx_prims_scheme \<Rightarrow> Transaction \<Rightarrow> bool" where
  "settled P tx \<longleftrightarrow> (\<exists>h. Transaction_Hash P tx = Returns h tx)"

interpretation settled: on_tx_preorder "\<lambda>s s'. settled P (snd s) \<longrightarrow> snd s' = snd s" P
  for P :: "'z tx_prims_scheme"
proof
  show "keeps (\<lambda>s s'. settled P (snd s) \<longrightarrow> snd s' = snd s) (tx_hash P)"
    by (auto simp: keeps_def settled_def tx_hash_def)
qed auto

text \<open>Read as a rewrite rule, the reflexivity of an implication rewrites a term to itself.\<close>

declare settled.refl [simp del]

lemma handle_settled:
  "settled P tx \<Longrightarrow> handleTransaction P (bc, tx) = Returns err (bc', tx') \<Longrightarrow> tx' = tx"
  using settled.keeps_out [OF settled.keeps_handle, of P "(bc, tx)"] by simp

lemma verified_settled: "Transaction_Verify P tx = Returns None tx \<Longrightarrow> settled P tx"
  by (rule Transaction_Verify_accepted) (auto simp: settled_def)

lemma handle_txs_settled:
  assumes "handle_txs P txx bc = Returns ok (bc', ts)" and "\<forall>tx\<in>set txx. settled P tx"
  shows "ts = txx \<and> subseq ok txx"
  using assms
proof (induction txx arbitrary: bc ok ts)
  case Nil
  then show ?case by simp
next
  case (Cons tx txx)
  from Cons.prems(1) obtain err b1 t1 where h: "handleTransaction P (bc, tx) = Returns err (b1, t1)"
    by (cases "handleTransaction P (bc, tx)") auto
  from Cons.prems h obtain ok' ts' where r: "handle_txs P txx b1 = Returns ok' (bc', ts')"
    and "ts = t1 # ts'" "ok = (if err = None then t1 # ok' else ok')"
    by (cases "handle_txs P txx b1") auto
  moreover have "t1 = tx" using handle_settled [OF _ h] Cons.prems(2) by simp
  ultimately show ?case using Cons.IH [OF r] Cons.prems(2) by auto
qed

section \<open>The data of a filtered block\<close>

lemma encode_txs_append:
  "encode_txs P w txx = map_option ((@) w) (encode_txs P [] txx)"
proof (induction txx arbitrary: w)
  case Nil
  show ?case by simp
next
  case (Cons tx txx)
  show ?case
  proof (cases "gob_tx P tx")
    case None
    then show ?thesis by (simp add: tx_coding)
  next
    case (Some x)
    then show ?thesis
      using Cons.IH [of "w @ x"] Cons.IH [of x]
      by (cases "encode_txs P [] txx") (simp_all add: tx_coding)
  qed
qed

lemma encode_txs_Cons:
  "encode_txs P [] (tx # txx) =
     (case gob_tx P tx of None \<Rightarrow> None | Some x \<Rightarrow> map_option ((@) x) (encode_txs P [] txx))"
proof (cases "gob_tx P tx")
  case (Some x)
  then show ?thesis using encode_txs_append [of P x txx] by (simp add: tx_coding)
qed (simp add: tx_coding)

text \<open>Leaving out transactions makes the encoding strictly shorter.\<close>

lemma encode_txs_subseq:
  assumes "subseq ok txx" and "encode_txs P [] txx = Some y" and "\<forall>tx. gob_tx P tx \<noteq> Some []"
  shows "\<exists>x. encode_txs P [] ok = Some x \<and> length x \<le> length y
    \<and> (length ok < length txx \<longrightarrow> length x < length y)"
  using assms(1,2)
proof (induction arbitrary: y rule: list_emb.induct)
  case (list_emb_Nil ys)
  show ?case
  proof (cases ys)
    case (Cons tx txx)
    with list_emb_Nil assms(3) show ?thesis
      by (cases "gob_tx P tx"; cases "encode_txs P [] txx")
        (auto simp: encode_txs_Cons simp del: encode_txs.simps(2))
  qed simp
next
  case (list_emb_Cons xs ys y')
  then obtain z w where "gob_tx P y' = Some z" "encode_txs P [] ys = Some w" "y = z @ w"
    by (auto simp: encode_txs_Cons simp del: encode_txs.simps(2) split: option.splits)
  moreover with list_emb_Cons.IH obtain x where "encode_txs P [] xs = Some x" "length x \<le> length w"
    "length xs < length ys \<longrightarrow> length x < length w" by blast
  moreover obtain n where "length z = Suc n" using calculation(1) assms(3) by (cases z) auto
  ultimately show ?case by auto
next
  case (list_emb_Cons2 x' y' xs ys)
  then obtain z w where "gob_tx P y' = Some z" "encode_txs P [] ys = Some w" "y = z @ w"
    by (auto simp: encode_txs_Cons simp del: encode_txs.simps(2) split: option.splits)
  moreover with list_emb_Cons2.IH obtain x where "encode_txs P [] xs = Some x" "length x \<le> length w"
    "length xs < length ys \<longrightarrow> length x < length w" by blast
  ultimately show ?case using list_emb_Cons2.hyps
    by (auto simp: encode_txs_Cons simp del: encode_txs.simps(2))
qed

lemma Block_Verify_bad_data:
  assumes "blk_Signature b = Some sg"
    and "Signature_Verify P sg (blk_Validator b) (Header_Bytes P (blk_Header b)) = Some True"
    and "\<forall>tx\<in>set (blk_Transactions b). Transaction_Verify P tx = Returns None tx"
    and "CalculateDataHash P (blk_Transactions b) = Some h" and "h \<noteq> DataHash (blk_Header b)"
  shows "\<exists>b'. Block_Verify P b = Returns (Some BlockInvalidDataHash) b'"
proof -
  have "b\<lparr>blk_Transactions := blk_Transactions b\<rparr> = b" by simp
  then have v: "Block_Verify_txs P b = Returns None b"
    using verify_txs_fixed [OF assms(3)] by (simp add: Block_Verify_txs_def)
  obtain k b' where k: "Block_Hash P b = Returns k b'" using Block_Hash_returns by blast
  show ?thesis using assms v k by (simp add: Block_Verify_def seq_def)
qed

section \<open>Locks\<close>

lemma Storage_Put_panics: "Storage_Put P d (st, b) = Panics t \<Longrightarrow> st = Persistent None"
  using Block_Hash_returns [of P b]
  by (auto simp: Storage_Put_def Memorystore_Put_def PersistentStore_Put_def Let_def
      split: Storage.splits option.splits if_splits)

lemma locked_never_adds:
  assumes "bc_stateLock bc"
  shows "AddBlock P d (ValidateBlock P) (bc, b) \<noteq> Returns None s"
proof (cases rule: block_validator.AddBlock_validated_cases [of P bc b d])
  case (accepted b1)
  then show ?thesis by (simp add: addBlock_locked assms)
qed auto

lemma handle_txs_append:
  assumes "handle_txs P pre bc = Returns ok (bc1, ts)"
  shows "handle_txs P (pre @ rest) bc
    = map_outcome ((@) ok) (apsnd ((@) ts)) (handle_txs P rest bc1)"
  using assms
proof (induction pre arbitrary: bc ok ts)
  case Nil
  then show ?case by (cases "handle_txs P rest bc1") auto
next
  case (Cons tx pre)
  from Cons.prems obtain err b1 t1 where h: "handleTransaction P (bc, tx) = Returns err (b1, t1)"
    by (cases "handleTransaction P (bc, tx)") auto
  from Cons.prems h obtain ok' ts' where "handle_txs P pre b1 = Returns ok' (bc1, ts')"
    and "ts = t1 # ts'" "ok = (if err = None then t1 # ok' else ok')"
    by (cases "handle_txs P pre b1") auto
  with Cons.IH [of b1 ok' ts'] h show ?case
    by (cases "handle_txs P rest bc1") auto
qed

lemma handle_student_locked:
  assumes "bc_stateLock bc" and "tx_TxInner tx = InStudent t" and "tx_Data tx = []"
    and h: "Transaction_Hash P tx = Returns h tx'"
  shows "handleTransaction P (bc, tx) = Blocks (bc, tx')"
  using assms Transaction_Hash_frame(1,2) [OF h]
  by (simp add: handleTransaction_def tx_hash_def h seq_def run_code_def unless_error_def
      handle_dispatch_def handleStudentTx_def)

text \<open>The map of the transactions of a block, by the hash each carries.\<close>

lemma stored_txs:
  assumes "tx \<in> set txx"
  shows "\<exists>tx'\<in>set txx. fold (\<lambda>tx m. m(tx_TxHash tx \<mapsto> tx)) txx m (tx_TxHash tx) = Some tx'
    \<and> tx_TxHash tx' = tx_TxHash tx"
  using assms by (induction txx rule: rev_induct) auto

lemma student_switch_spec:
  assumes "stx_Type t \<in> {StudentTxTypeCreate, StudentTxTypeUpdate, StudentTxTypeDelete}"
    and "student_switch t m = (err, m')"
  shows "(err = None \<longleftrightarrow> (stx_Type t = StudentTxTypeCreate \<longleftrightarrow> m (stx_StudentID t) = None))
    \<and> m' (stx_StudentID t) = (if err \<noteq> None then m (stx_StudentID t)
        else if stx_Type t = StudentTxTypeDelete then None else Some (stx_Student t))
    \<and> (\<forall>i. i \<noteq> stx_StudentID t \<longrightarrow> m' i = m i)"
  using assms by (auto simp: student_switch_def student_tx_types split: if_splits)

section \<open>Properties\<close>

text \<open>
  C30: a student transaction without data in a block that is being added, after transactions that
  come back, blocks the call for ever: the state lock is held already. No header is appended, the
  lock stays held, and every later attempt to add a block blocks as well.
\<close>

theorem student_tx_deadlocks:
  assumes l: "\<not> bc_stateLock bc" and b: "blk_Transactions b = pre @ tx # post"
    and pre: "handle_txs P pre (bc\<lparr>bc_stateLock := True\<rparr>) = Returns ok (bc1, ts)"
    and tx: "tx_TxInner tx = InStudent t" "tx_Data tx = []"
    and h: "Transaction_Hash P tx = Returns h tx'"
  shows "\<exists>bc' b'. addBlockWithoutValidation P d (bc, b) = Blocks (bc', b')
    \<and> bc_stateLock bc' \<and> bc_Headers bc' = bc_Headers bc
    \<and> (\<forall>d2 b2. addBlockWithoutValidation P d2 (bc', b2) = Blocks (bc', b2))"
proof -
  have fx: "bc_stateLock bc1" "bc_Headers bc1 = bc_Headers bc"
    using handle_txs_Returns(3) [OF pre] by (simp_all add: chain_fixed_def)
  have "handle_txs P (blk_Transactions b) (bc\<lparr>bc_stateLock := True\<rparr>)
      = Blocks (bc1, ts @ tx' # post)"
    using handle_txs_append [OF pre, of "tx # post"] handle_student_locked [OF fx(1) tx h] b by simp
  then have "addBlockWithoutValidation P d (bc, b) = Blocks (bc1, b\<lparr>blk_Transactions := ts @ tx' # post\<rparr>)"
    using l by (simp add: addBlockWithoutValidation_def)
  with fx show ?thesis by (auto simp: addBlock_locked)
qed

text \<open>
  C31: when adding a block panics, on a chain with a store, nothing was appended but the state
  lock is left held: no block is ever added again.
\<close>

theorem panic_keeps_lock:
  assumes "bc_store bc \<noteq> Persistent None"
    and p: "addBlockWithoutValidation P d (bc, b) = Panics (bc', b')"
  shows "bc_stateLock bc' \<and> bc_Headers bc' = bc_Headers bc
    \<and> (\<forall>d2 b2 s. AddBlock P d2 (ValidateBlock P) (bc', b2) \<noteq> Returns None s)"
proof -
  from p have "\<not> bc_stateLock bc" by (auto simp: addBlock_locked)
  then have lock: "bc_stateLock bc' \<and> bc_Headers bc' = bc_Headers bc"
  proof (cases rule: addBlock_cases [of bc P b d])
    case (panics bc1 ts)
    then show ?thesis
      using handle_txs_frame [of "bc\<lparr>bc_stateLock := True\<rparr>" P "blk_Transactions b"] p
      by (simp add: chain_fixed_def)
  next
    case (blocks bc1 ts)
    with p show ?thesis by simp
  next
    case (appends r bc1 ts hash b2)
    have "bc_store bc1 = bc_store bc"
      using handle_txs_Returns(3) [OF appends(1)] by (simp add: chain_fixed_def)
    with appends(3) p assms(1) show ?thesis
      by (cases "Storage_Put P d (bc_store bc, b2)")
        (auto simp: put_block_def dest: Storage_Put_panics)
  qed
  then show ?thesis using locked_never_adds by blast
qed

text \<open>
  C32: when \<open>AddBlock\<close> accepts a block of which at least one transaction failed, the block it
  stored, and hands back to be relayed, fails verification with an invalid data hash, unless the
  hash function maps the shorter list of transactions to the same data hash.
\<close>

theorem filtered_block_unverifiable:
  assumes ok: "chain_ok P bc"
    and add: "AddBlock P d (ValidateBlock P) (bc, b) = Returns None (bc', b')"
    and fewer: "length (blk_Transactions b') < length (blk_Transactions b)"
    and nonempty: "\<forall>tx. gob_tx P tx \<noteq> Some []"
    and no_collision: "\<And>b1 x y. Block_Verify P b = Returns None b1
      \<Longrightarrow> encode_txs P [] (blk_Transactions b1) = Some x
      \<Longrightarrow> encode_txs P [] (blk_Transactions b') = Some y \<Longrightarrow> sha256 P x = sha256 P y \<Longrightarrow> x = y"
  shows "\<exists>b''. Block_Verify P b' = Returns (Some BlockInvalidDataHash) b''"
  using ok add
proof (rule block_validator.AddBlock_success)
  fix b1 r bc1 ts hash b2 st
  assume v: "ValidateBlock P (bc, b) = Returns None (bc, b1)" and fr: "block_frame P b b1"
    and h: "handle_txs P (blk_Transactions b1) (bc\<lparr>bc_stateLock := True\<rparr>) = Returns r (bc1, ts)"
    and bh: "Block_Hash P (b1\<lparr>blk_Transactions := r\<rparr>) = Returns hash b2"
    and oc: "only_caches b2 b'"
  note bv = ValidateBlock_accepts(5) [OF v]
  note f = Block_Hash_frame [OF bh] only_caches_fields [OF oc]
  from bv obtain sg where sg: "blk_Signature b = Some sg"
    "Signature_Verify P sg (blk_Validator b) (Header_Bytes P (blk_Header b)) = Some True"
    and vt: "verify_txs P (blk_Transactions b) = Returns None (blk_Transactions b1)"
    by (auto simp: Block_Verify_accepts_iff)
  have fixed: "\<forall>tx\<in>set (blk_Transactions b1). Transaction_Verify P tx = Returns None tx"
    using verify_txs_accepted_fixed [OF vt] by blast
  then have sub: "subseq r (blk_Transactions b1)"
    using handle_txs_settled [OF h] verified_settled by blast
  have len: "length (blk_Transactions b1) = length (blk_Transactions b)"
    using fr unfolding block_frame_def by (metis list_all2_lengthD)
  from Block_Verify_data_hash [OF bv] obtain x where x: "encode_txs P [] (blk_Transactions b1) = Some x"
    and dh: "sha256 P x = DataHash (blk_Header b1)" by (auto simp: CalculateDataHash_def)
  obtain y where y: "encode_txs P [] r = Some y" and "length y < length x"
    using encode_txs_subseq [OF sub x nonempty] fewer len f by auto
  with no_collision [OF bv x] f have "sha256 P y \<noteq> DataHash (blk_Header b)"
    using dh fr by (auto simp: block_frame_def)
  moreover have "\<forall>tx\<in>set r. Transaction_Verify P tx = Returns None tx"
    using fixed sub by (auto elim: list_emb_set)
  ultimately show ?thesis
    using sg y f fr
    by (intro Block_Verify_bad_data [of b' sg P "sha256 P y"])
      (simp_all add: block_frame_def CalculateDataHash_def)
qed

text \<open>
  Handling a transaction is not atomic: when a transaction that creates a collection also
  moves a value the sender does not have, the error is returned, so that the transaction is left
  out of the block, but the collection is registered.
\<close>

theorem collection_survives_failed_transfer:
  assumes "tx_TxInner tx = InCollection t" and "tx_Data tx = []" and "0 < tx_Value tx"
    and h: "Transaction_Hash P tx = Returns h tx'"
    and "PublicKey_Address P (tx_From tx) = Some a" and "PublicKey_Address P (tx_To tx) = Some a'"
    and "Transfer (bc_AccountState bc) a a' (tx_Value tx) = (Some e, s)"
  shows "\<exists>bc'. handleTransaction P (bc, tx) = Returns (Some (ErrTransfer e)) (bc', tx')
    \<and> bc_collectionState bc' h = Some t \<and> bc_AccountState bc' = bc_AccountState bc"
proof -
  have "s = bc_AccountState bc" using assms(7) by (rule account_ledger.failed)
  moreover have "Transaction_Hash P tx' = Returns h tx'" by (rule tx_cache.hash_of_again [OF h])
  ultimately show ?thesis
    using assms Transaction_Hash_frame [OF h]
    by (simp add: handleTransaction_def tx_hash_def seq_def run_code_def unless_error_def
        handle_dispatch_def handle_nft_part_def handleNativeNFT_def handle_value_part_def
        handleNativeTransfer_def)
qed

text \<open>
  With the state lock free a student transaction is one operation of a registry: creating
  succeeds exactly for an unknown identifier, updating and deleting exactly for a known one;
  afterwards the identifier has the given record, or none when deleted; a failed operation and
  any other identifier leave the registry as it was, and the lock is free again.
\<close>

theorem student_registry:
  assumes "\<not> bc_stateLock bc" and "tx_TxInner tx = InStudent t"
    and "stx_Type t \<in> {StudentTxTypeCreate, StudentTxTypeUpdate, StudentTxTypeDelete}"
  shows "\<exists>err bc'. handleStudentTx (bc, tx) = Returns err (bc', tx) \<and> \<not> bc_stateLock bc'
    \<and> (err = None \<longleftrightarrow>
        (stx_Type t = StudentTxTypeCreate \<longleftrightarrow> bc_studentState bc (stx_StudentID t) = None))
    \<and> bc_studentState bc' (stx_StudentID t)
      = (if err \<noteq> None then bc_studentState bc (stx_StudentID t)
         else if stx_Type t = StudentTxTypeDelete then None else Some (stx_Student t))
    \<and> (\<forall>i. i \<noteq> stx_StudentID t \<longrightarrow> bc_studentState bc' i = bc_studentState bc i)"
proof -
  obtain err m where sw: "student_switch t (bc_studentState bc) = (err, m)"
    by (cases "student_switch t (bc_studentState bc)")
  have "handleStudentTx (bc, tx)
      = Returns err (bc\<lparr>bc_studentState := m, bc_stateLock := False\<rparr>, tx)"
    using assms(1,2) sw by (simp add: handleStudentTx_def Let_def)
  with student_switch_spec [OF assms(3) sw] show ?thesis by auto
qed

lemma verified_txs_settled:
  "Block_Verify P b = Returns None b' \<Longrightarrow> \<forall>tx\<in>set (blk_Transactions b'). settled P tx"
  unfolding Block_Verify_accepts_iff using verify_txs_accepted_fixed verified_settled by fastforce

text \<open>What a chain keeps of an added block, and where.\<close>

lemma AddBlock_stored:
  assumes ok: "chain_ok P bc" and cache: "hash_cache_ok P b"
    and add: "AddBlock P d (ValidateBlock P) (bc, b) = Returns None (bc', b')"
  shows "\<exists>blk. GetBlockByHash d' bc' (BlockHasher_Hash P (blk_Header b)) = Some (Inr blk)
      \<and> blk_Header blk = blk_Header b \<and> blk_Transactions blk = blk_Transactions b'
      \<and> blk_Validator blk = blk_Validator b \<and> blk_Signature blk = blk_Signature b
      \<and> hash_cache_ok P blk \<and> (\<forall>tx\<in>set (blk_Transactions b'). settled P tx)" (is ?found)
    and "\<forall>tx\<in>set (blk_Transactions b'). \<exists>tx'\<in>set (blk_Transactions b').
      GetTxByHash bc' (tx_TxHash tx) = Inr tx' \<and> tx_TxHash tx' = tx_TxHash tx" (is ?txs)
proof -
  have "?found \<and> ?txs"
    using ok add
  proof (rule block_validator.AddBlock_success)
    fix b1 r bc1 ts hash b2 st
    assume v: "ValidateBlock P (bc, b) = Returns None (bc, b1)" and fr: "block_frame P b b1"
      and ht: "handle_txs P (blk_Transactions b1) (bc\<lparr>bc_stateLock := True\<rparr>) = Returns r (bc1, ts)"
      and bh: "Block_Hash P (b1\<lparr>blk_Transactions := r\<rparr>) = Returns hash b2"
      and oc: "only_caches b2 b'"
      and bc': "bc' = append_block hash (bc1\<lparr>bc_stateLock := False\<rparr>) b2\<lparr>bc_store := st\<rparr>"
    note f = Block_Hash_frame [OF bh] only_caches_fields [OF oc]
    have "hash_cache_ok P (b1\<lparr>blk_Transactions := r\<rparr>)"
      using cache fr by (auto simp: block_frame_def hash_cache_ok_def)
    from Block_Hash_ok [OF this] bh fr have hash: "hash = BlockHasher_Hash P (blk_Header b)"
      and c2: "hash_cache_ok P b2" by (auto simp: block_frame_def)
    have s1: "\<forall>tx\<in>set (blk_Transactions b1). settled P tx"
      by (rule verified_txs_settled [OF ValidateBlock_accepts(5) [OF v]])
    have "subseq r (blk_Transactions b1)" using handle_txs_settled [OF ht s1] by blast
    then have "set (blk_Transactions b') \<subseteq> set (blk_Transactions b1)"
      using f by (auto dest: list_emb_set)
    with s1 have "\<forall>tx\<in>set (blk_Transactions b'). settled P tx" by blast
    moreover have "GetBlockByHash d' bc' hash = Some (Inr b2)"
      by (simp add: bc' GetBlockByHash_def)
    ultimately have ?found using f fr c2 by (auto simp: hash block_frame_def)
    moreover have ?txs
    proof
      fix tx
      assume "tx \<in> set (blk_Transactions b')"
      then have "tx \<in> set (blk_Transactions b2)" using f by simp
      from stored_txs [OF this, of "bc_txStore bc1"] f
      show "\<exists>tx'\<in>set (blk_Transactions b'). GetTxByHash bc' (tx_TxHash tx) = Inr tx'
          \<and> tx_TxHash tx' = tx_TxHash tx"
        by (auto simp: bc' append_block_def GetTxByHash_def)
    qed
    ultimately show ?thesis ..
  qed
  then show ?found ?txs by blast+
qed

text \<open>
  After \<open>AddBlock\<close> the block is found under the hash of its header, with the transactions
  that succeeded, and each of these under its own hash.
\<close>

theorem AddBlock_indexed:
  assumes ok: "chain_ok P bc" and cache: "hash_cache_ok P b"
    and add: "AddBlock P d (ValidateBlock P) (bc, b) = Returns None (bc', b')"
  shows "(\<exists>blk. GetBlockByHash d' bc' (BlockHasher_Hash P (blk_Header b)) = Some (Inr blk)
      \<and> blk_Header blk = blk_Header b \<and> blk_Transactions blk = blk_Transactions b')
    \<and> (\<forall>tx\<in>set (blk_Transactions b'). \<exists>tx'. GetTxByHash bc' (tx_TxHash tx) = Inr tx'
        \<and> tx_TxHash tx' = tx_TxHash tx)"
  using AddBlock_stored(1) [OF assms, of d'] AddBlock_stored(2) [OF assms] by blast

section \<open>Instances\<close>

definition demo_student_tx :: Transaction where
  "demo_student_tx = (NewTransaction [] 0)\<lparr>tx_TxInner := InStudent
     \<lparr>stx_Type = StudentTxTypeCreate, stx_StudentID = ''S1'', stx_Student = None, stx_Fee = 0\<rparr>\<rparr>"

lemma demo_student_tx_fields:
  "tx_TxInner demo_student_tx = InStudent
     \<lparr>stx_Type = StudentTxTypeCreate, stx_StudentID = ''S1'', stx_Student = None, stx_Fee = 0\<rparr>"
  "tx_Data demo_student_tx = []"
  by (simp_all add: demo_student_tx_def NewTransaction_def)

theorem student_tx_deadlocks_witness:
  "\<exists>bc' b'. addBlockWithoutValidation demo_block_prims good_disk
      (demo_chain, NewBlock demo_header [demo_student_tx]) = Blocks (bc', b') \<and> bc_stateLock bc'"
proof -
  have l: "\<not> bc_stateLock demo_chain" by simp
  have b: "blk_Transactions (NewBlock demo_header [demo_student_tx]) = [] @ demo_student_tx # []"
    by (simp add: NewBlock_def)
  have pre: "handle_txs demo_block_prims [] (demo_chain\<lparr>bc_stateLock := True\<rparr>)
      = Returns [] (demo_chain\<lparr>bc_stateLock := True\<rparr>, [])" by simp
  have "\<exists>h tx'. Transaction_Hash demo_block_prims demo_student_tx = Returns h tx'"
    by (simp add: Transaction_Hash_def TxHasher_Hash_def tx_preimage_def demo_student_tx_def
        NewTransaction_def demo_block_prims_def demo_tx_prims_def)
  then obtain h tx' where h: "Transaction_Hash demo_block_prims demo_student_tx = Returns h tx'" by blast
  show ?thesis
    using student_tx_deadlocks [OF l b pre demo_student_tx_fields h, of good_disk] by blast
qed

lemma demo_panics:
  "\<exists>bc' b'. addBlockWithoutValidation demo_block_prims good_disk
     (demo_chain, NewBlock demo_header [NewTransaction [InstrPushInt] 0]) = Panics (bc', b')"
proof -
  let ?tx = "NewTransaction [InstrPushInt] 0" and ?bc = "demo_chain\<lparr>bc_stateLock := True\<rparr>"
  obtain h where h: "Transaction_Hash demo_block_prims ?tx = Returns h (?tx\<lparr>tx_TxHash := h\<rparr>)"
    using Transaction_Hash_value_only [of ?tx demo_block_prims] by (auto simp: NewTransaction_def)
  have "Run (NewVM [InstrPushInt] (bc_contractState ?bc)) = Panics (NewVM [InstrPushInt] (bc_contractState ?bc))"
    by (simp add: Run.simps NewVM_def Exec_def opcode_defs vm_operand_def seq_def)
  then have "handleTransaction demo_block_prims (?bc, ?tx) = Panics
      (?bc\<lparr>bc_contractState := contractState (NewVM [InstrPushInt] (bc_contractState ?bc))\<rparr>,
        ?tx\<lparr>tx_TxHash := h\<rparr>)"
    by (simp add: handleTransaction_def tx_hash_def h seq_def run_code_def)
      (simp add: NewTransaction_def)
  then show ?thesis by (simp add: addBlockWithoutValidation_def NewBlock_def)
qed

theorem panic_keeps_lock_witness:
  "\<exists>bc' b'. addBlockWithoutValidation demo_block_prims good_disk
      (demo_chain, NewBlock demo_header [NewTransaction [InstrPushInt] 0]) = Panics (bc', b')
    \<and> bc_stateLock bc' \<and> bc_Headers bc' = [demo_header]"
proof -
  obtain bc' b' where p: "addBlockWithoutValidation demo_block_prims good_disk
      (demo_chain, NewBlock demo_header [NewTransaction [InstrPushInt] 0]) = Panics (bc', b')"
    using demo_panics by blast
  have "bc_store demo_chain \<noteq> Persistent None" by simp
  from panic_keeps_lock [OF this p] p show ?thesis by auto
qed

theorem filtered_block_unverifiable_witness:
  "\<exists>bc' b' b''. AddBlock demo_block_prims good_disk (ValidateBlock demo_block_prims)
      (demo_chain, demo_block) = Returns None (bc', b')
    \<and> Block_Verify demo_block_prims b' = Returns (Some BlockInvalidDataHash) b''"
proof -
  obtain bc' b' where add: "AddBlock demo_block_prims good_disk (ValidateBlock demo_block_prims)
      (demo_chain, demo_block) = Returns None (bc', b')" and e: "blk_Transactions b' = []"
    using demo_add by blast
  have fewer: "length (blk_Transactions b') < length (blk_Transactions demo_block)"
    by (simp add: e demo_block_transactions)
  have nonempty: "\<forall>tx. gob_tx demo_block_prims tx \<noteq> Some []"
    by (auto simp: demo_block_prims_def demo_tx_prims_def tx_fields_bytes_def
        dest: arg_cong [of _ _ length])
  have "\<exists>b''. Block_Verify demo_block_prims b' = Returns (Some BlockInvalidDataHash) b''"
  proof (rule filtered_block_unverifiable [OF demo_chain_ok add fewer nonempty])
    fix b1 x y
    assume "Block_Verify demo_block_prims demo_block = Returns None b1"
      and x: "encode_txs demo_block_prims [] (blk_Transactions b1) = Some x"
      and y: "encode_txs demo_block_prims [] (blk_Transactions b') = Some y"
      and eq: "sha256 demo_block_prims x = sha256 demo_block_prims y"
    then have "blk_Transactions b1 = [demo_tx]"
      using demo_block_verifies by (simp add: demo_block_transactions)
    with x have "length x = 50"
      by (auto simp: demo_block_prims_def demo_tx_prims_def tx_coding
          tx_fields_bytes_def demo_tx_def)
    with eq y e show "x = y" by (simp add: demo_block_prims_def demo_sha_def)
  qed
  with add show ?thesis by blast
qed

definition demo_collection_tx :: Transaction where
  "demo_collection_tx = (NewTransaction [] 0)\<lparr>tx_TxInner := InCollection
     \<lparr>col_Fee = 0, col_MetaData = []\<rparr>, tx_Value := 7\<rparr>"

theorem collection_survives_failed_transfer_witness:
  "\<exists>bc' tx' h. handleTransaction demo_block_prims (demo_chain, demo_collection_tx)
      = Returns (Some (ErrTransfer ErrInsufficientBalance)) (bc', tx')
    \<and> bc_collectionState bc' h = Some \<lparr>col_Fee = 0, col_MetaData = []\<rparr>"
proof -
  have a: "tx_TxInner demo_collection_tx = InCollection \<lparr>col_Fee = 0, col_MetaData = []\<rparr>"
    "tx_Data demo_collection_tx = []" "0 < tx_Value demo_collection_tx" "tx_Value demo_collection_tx = 7"
    by (simp_all add: demo_collection_tx_def NewTransaction_def)
  have "\<exists>h tx'. Transaction_Hash demo_block_prims demo_collection_tx = Returns h tx'"
    by (simp add: Transaction_Hash_def TxHasher_Hash_def tx_preimage_def demo_collection_tx_def
        NewTransaction_def demo_block_prims_def demo_tx_prims_def)
  then obtain h tx' where h: "Transaction_Hash demo_block_prims demo_collection_tx = Returns h tx'" by blast
  have "Transfer (bc_AccountState demo_chain) (demo_address 0) (demo_address 0)
      (tx_Value demo_collection_tx) = (Some ErrInsufficientBalance, demo_accounts)"
    by (simp add: a Transfer_def getAccountWithoutLock_def demo_accounts_def CreateAccount_def
        NewAccountState_def Let_def)
  from collection_survives_failed_transfer [OF a(1-3) h demo_PublicKey_Address
      demo_PublicKey_Address this] show ?thesis by blast
qed

theorem student_registry_witness:
  "\<exists>bc'. handleStudentTx (demo_chain, demo_student_tx) = Returns None (bc', demo_student_tx)
    \<and> bc_studentState bc' ''S1'' = Some None"
proof -
  have "\<not> bc_stateLock demo_chain" by simp
  from student_registry [OF this demo_student_tx_fields(1)]
  obtain err bc' where "handleStudentTx (demo_chain, demo_student_tx) = Returns err (bc', demo_student_tx)"
    and "err = None \<longleftrightarrow> bc_studentState demo_chain ''S1'' = None"
    and "err = None \<longrightarrow> bc_studentState bc' ''S1'' = Some None"
    by (auto simp: student_tx_types)
  moreover have "bc_studentState demo_chain ''S1'' = None"
    by (simp add: demo_chain_def fresh_chain_def append_block_def)
  ultimately show ?thesis by auto
qed

theorem AddBlock_indexed_witness:
  "\<exists>bc' b' blk. AddBlock demo_block_prims good_disk (ValidateBlock demo_block_prims)
      (demo_chain, demo_block) = Returns None (bc', b')
    \<and> GetBlockByHash good_disk bc' (BlockHasher_Hash demo_block_prims (blk_Header demo_block))
      = Some (Inr blk)"
proof -
  obtain bc' b' where add: "AddBlock demo_block_prims good_disk (ValidateBlock demo_block_prims)
      (demo_chain, demo_block) = Returns None (bc', b')"
    using demo_add by blast
  have "hash_cache_ok demo_block_prims demo_block"
    using demo_block_built built_and_signed_block(5) [of demo_block_prims "[demo_tx]"]
      demo_block_prims_ok demo_tx_verifies by auto
  from AddBlock_indexed [OF demo_chain_ok this add, of good_disk] add show ?thesis by blast
qed

end
