(* ===== verification/Chain_Progress.thy ===== *)
theory Chain_Progress
  imports Chain_Hazards
begin

text \<open>
  When adding a block succeeds: the block validator accepts every verified block that extends the
  chain, and a block of plain value transactions is appended when the store takes writes.
\<close>

section \<open>Validation accepts what extends the chain\<close>

lemma ValidateBlock_complete:
  assumes ok: "chain_ok P bc" and ne: "bc_Headers bc \<noteq> []"
    and ext: "extends P bc (blk_Header b)" and v: "Block_Verify P b = Returns None b'"
  shows "ValidateBlock P (bc, b) = Returns None (bc, b')"
proof -
  let ?h = "Height (blk_Header b)"
  obtain n where n: "length (bc_Headers bc) = Suc n" using ne by (cases "bc_Headers bc") auto
  have u: "unat ?h = Suc n" using ext n by (simp add: extends_def)
  have b: "Suc (Suc n) \<le> 2 ^ 32" using extends_bound [OF ext] n by simp
  have h: "unat (bc_Height bc) = n" using bc_Height_chain [OF ne] n b by simp
  have h1: "unat (bc_Height bc + 1) = Suc n" using h b by (simp add: unat_word_ariths)
  have "\<not> HasBlock bc ?h" using HasBlock_iff [OF ok] ne u n by simp
  moreover have "\<not> ?h > bc_Height bc + 1" using u h1 by (simp add: word_less_nat_alt)
  moreover have "prev_check P bc b = Some None"
  proof -
    have p: "0 < ?h" using u by (simp add: word_less_nat_alt)
    then have "unat (?h - 1) = n" using u by (simp add: unat_sub word_le_nat_alt)
    then have "GetHeader bc (?h - 1) = Some (Inr (last (bc_Headers bc)))"
      using GetHeader_chain [OF ok ne] n ne by (simp add: last_conv_nth)
    with p ext ne show ?thesis by (simp add: prev_check_def extends_def)
  qed
  ultimately show ?thesis
    using v Block_Verify_data_hash [OF v] by (simp add: ValidateBlock_def)
qed

lemma last_header_height:
  assumes "chain_ok P bc" and "bc_Headers bc \<noteq> []"
  shows "unat (Height (last (bc_Headers bc))) = length (bc_Headers bc) - 1"
proof -
  have "length (bc_Headers bc) - 1 < length (bc_Headers bc)" using assms(2) by (cases "bc_Headers bc") auto
  with assms show ?thesis by (simp add: chain_ok_def links_def last_conv_nth)
qed

lemma GetHeader_top:
  assumes "chain_ok P bc" and "bc_Headers bc \<noteq> []"
  shows "GetHeader bc (bc_Height bc) = Some (Inr (last (bc_Headers bc)))"
proof -
  have "unat (bc_Height bc) = length (bc_Headers bc) - 1"
    using bc_Height_chain [OF assms(2)] assms(1) by (simp add: chain_ok_def)
  moreover have "length (bc_Headers bc) - 1 < length (bc_Headers bc)"
    using assms(2) by (cases "bc_Headers bc") auto
  ultimately show ?thesis
    using GetHeader_chain [OF assms, of "bc_Height bc"] assms(2) by (simp add: last_conv_nth)
qed

section \<open>Adding a block succeeds\<close>

text \<open>The disk and the store take what is written to them.\<close>

definition writable :: "disk \<Rightarrow> Blockchain \<Rightarrow> bool" where
  "writable d bc \<longleftrightarrow> (\<exists>st. bc_store bc = Persistent (Some st) \<and> ps_open st)
     \<and> \<not> seek_fails d \<and> write_result d = WritesAll \<and> \<not> sync_fails d"

lemma encode_txs_all:
  "encode_txs P [] ts = Some x \<Longrightarrow> \<forall>tx\<in>set ts. gob_tx P tx \<noteq> None"
  by (induction ts arbitrary: x) (auto simp: encode_txs_Cons simp del: encode_txs.simps(2) split: option.splits)

lemma addBlock_writes:
  assumes P: "sha_fixed_length P" and l: "\<not> bc_stateLock bc" and w: "writable d bc"
    and v: "\<forall>tx\<in>set (blk_Transactions b). value_only tx"
    and g: "(\<forall>tx\<in>set (blk_Transactions b). settled P tx \<and> gob_tx P tx \<noteq> None)
      \<or> (\<forall>tx. gob_tx P tx \<noteq> None)"
  shows "\<exists>bc' b'. addBlockWithoutValidation P d (bc, b) = Returns None (bc', b')
    \<and> bc_Headers bc' = bc_Headers bc @ [blk_Header b] \<and> \<not> bc_stateLock bc' \<and> writable d bc'"
proof -
  let ?bc = "bc\<lparr>bc_stateLock := True\<rparr>"
  obtain ok ts' where h: "handle_txs P (blk_Transactions b) ?bc
      = Returns ok (?bc\<lparr>bc_AccountState := account_ledger.run (bc_AccountState bc)
          (payments P (blk_Transactions b))\<rparr>, ts')"
    using handle_txs_value_only [OF P v, of ?bc] by auto
  let ?bc1 = "bc\<lparr>bc_AccountState := account_ledger.run (bc_AccountState bc)
          (payments P (blk_Transactions b)), bc_stateLock := False\<rparr>"
  have e: "\<forall>tx\<in>set ok. gob_tx P tx \<noteq> None"
    using g
  proof
    assume s: "\<forall>tx\<in>set (blk_Transactions b). settled P tx \<and> gob_tx P tx \<noteq> None"
    then have "subseq ok (blk_Transactions b)" using handle_txs_settled [OF h] by blast
    then have "set ok \<subseteq> set (blk_Transactions b)" by (auto elim: list_emb_set)
    with s show ?thesis by blast
  qed simp
  obtain hash b2 where b2: "Block_Hash P (b\<lparr>blk_Transactions := ok\<rparr>) = Returns hash b2"
    using Block_Hash_returns by blast
  obtain store where s: "bc_store bc = Persistent (Some store)" "ps_open store"
    using w by (auto simp: writable_def)
  obtain h3 b3 where b3: "Block_Hash P b2 = Returns h3 b3" using Block_Hash_returns by blast
  have "encodable P b2" using e Block_Hash_frame [OF b2] by (simp add: encodable_def)
  then obtain store' where st': "PersistentStore_Put P d (store, b2) = Returns None (store', b3)"
    using s w b3 by (auto simp: PersistentStore_Put_success writable_def)
  then have "put_block P d (append_block hash ?bc1 b2, b2)
      = Returns None ((append_block hash ?bc1 b2)\<lparr>bc_store := Persistent (Some store')\<rparr>, b3)"
    using s by (simp add: put_block_def Storage_Put_def)
  moreover have "ps_open store'"
    using st' s(2) by (auto simp: PersistentStore_Put_success)
  ultimately show ?thesis
    using l w h b2 Block_Hash_frame(1) [OF b2]
    by (simp add: addBlockWithoutValidation_def Let_def writable_def)
qed

end
