(* ===== verification/Api.thy ===== *)
theory Api
  imports Chain_Hazards
begin

text \<open>
  \<open>api/server.go\<close>: the HTTP interface of a node. The framework's router is an argument and its JSON
  text is not modelled: a handler gets the parameter of the path or the body of the request, and its answer is
  the status with the value that is turned into JSON. A handler that panics ends the connection
  without an answer. The functions of \<open>strconv\<close> and \<open>encoding/hex\<close> that decide between the cases
  are written out.
\<close>

section \<open>Parsing a decimal number\<close>

text \<open>\<open>strconv.Atoi\<close>: an optional sign, at least one digit, and a value of 64 bits.\<close>

primrec digits_value :: "int \<Rightarrow> string \<Rightarrow> int option" where
  "digits_value acc [] = Some acc"
| "digits_value acc (c # cs) =
     (let n = of_char c :: int in
      if 48 \<le> n \<and> n \<le> 57 then digits_value (acc * 10 + (n - 48)) cs else None)"

definition Atoi :: "string \<Rightarrow> int option" where
  "Atoi s =
     (let neg = (s \<noteq> [] \<and> hd s = CHR ''-'');
          body = (if s \<noteq> [] \<and> (hd s = CHR ''-'' \<or> hd s = CHR ''+'') then tl s else s)
      in if body = [] then None
         else
           (case digits_value 0 body of
              None \<Rightarrow> None
            | Some v \<Rightarrow>
                (let v = (if neg then - v else v) in
                 if - (2 ^ 63) \<le> v \<and> v < 2 ^ 63 then Some v else None)))"

section \<open>Answers\<close>

record TxResponse =
  TxCount :: nat
  Hashes :: "string list"

record ApiBlock =
  ab_Hash :: string
  ab_Version :: u32
  ab_DataHash :: string
  ab_PrevBlockHash :: string
  ab_Height :: u32
  ab_Timestamp :: i64
  ab_Validator :: string
  ab_Signature :: string
  ab_TxResponse :: TxResponse

datatype api_error = ErrHex | ErrChain chain_error | ErrBody

datatype answer =
  BadRequest api_error
| OkTx Transaction
| OkBlock ApiBlock
| OkEmpty

definition status :: "answer \<Rightarrow> nat" where
  "status a = (case a of BadRequest _ \<Rightarrow> 400 | _ \<Rightarrow> 200)"

section \<open>Handlers\<close>

text \<open>
  \<open>None\<close> as a response is a panic. The conversion asks for hashes and so fills the caches of the
  block it got; in a block of the chain they are filled already.
\<close>

primrec tx_hashes :: "'z tx_prims_scheme \<Rightarrow> Transaction list \<Rightarrow> string list option" where
  "tx_hashes P [] = Some []"
| "tx_hashes P (tx # txs) =
     (case Transaction_Hash P tx of
        Returns h _ \<Rightarrow> map_option ((#) (Hash_String h)) (tx_hashes P txs)
      | _ \<Rightarrow> None)"

definition intoJSONBlock :: "'z prims_scheme \<Rightarrow> Block \<Rightarrow> ApiBlock option" where
  "intoJSONBlock P b =
     (case tx_hashes P (blk_Transactions b) of
        None \<Rightarrow> None
      | Some hashes \<Rightarrow>
          (case Block_Hash P b of
             Returns h _ \<Rightarrow>
               (case PublicKey_Address P (blk_Validator b) of
                  None \<Rightarrow> None
                | Some va \<Rightarrow>
                    (case blk_Signature b of
                       None \<Rightarrow> None
                     | Some sg \<Rightarrow>
                         (case Signature_String sg of
                            None \<Rightarrow> None
                          | Some signature \<Rightarrow>
                              Some \<lparr>ab_Hash = Hash_String h,
                                ab_Version = Version (blk_Header b),
                                ab_DataHash = Hash_String (DataHash (blk_Header b)),
                                ab_PrevBlockHash = Hash_String (PrevBlockHash (blk_Header b)),
                                ab_Height = Height (blk_Header b),
                                ab_Timestamp = Timestamp (blk_Header b),
                                ab_Validator = Address_String va,
                                ab_Signature = signature,
                                ab_TxResponse = \<lparr>TxCount = length (blk_Transactions b),
                                  Hashes = hashes\<rparr>\<rparr>)))
           | _ \<Rightarrow> None))"

definition answer_block :: "'z prims_scheme \<Rightarrow> (chain_error + Block) option \<Rightarrow> answer option" where
  "answer_block P r =
     (case r of
        None \<Rightarrow> None
      | Some (Inl err) \<Rightarrow> Some (BadRequest (ErrChain err))
      | Some (Inr block) \<Rightarrow> map_option OkBlock (intoJSONBlock P block))"

text \<open>A number is taken for a height, whatever its sign and size: the conversion cuts it to 32 bits.\<close>

definition handleGetBlock ::
  "'z prims_scheme \<Rightarrow> disk \<Rightarrow> Blockchain \<Rightarrow> string \<Rightarrow> answer option" where
  "handleGetBlock P d bc hashOrID =
     (case Atoi hashOrID of
        Some height \<Rightarrow> answer_block P (GetBlock bc (of_int height))
      | None \<Rightarrow>
          (case DecodeString hashOrID of
             None \<Rightarrow> Some (BadRequest ErrHex)
           | Some b \<Rightarrow>
               (case HashFromBytes b of
                  None \<Rightarrow> None
                | Some h \<Rightarrow> answer_block P (GetBlockByHash d bc h))))"

definition handleGetTx :: "Blockchain \<Rightarrow> string \<Rightarrow> answer option" where
  "handleGetTx bc hash =
     (case DecodeString hash of
        None \<Rightarrow> Some (BadRequest ErrHex)
      | Some b \<Rightarrow>
          (case HashFromBytes b of
             None \<Rightarrow> None
           | Some h \<Rightarrow>
               (case GetTxByHash bc h of
                  Inl err \<Rightarrow> Some (BadRequest (ErrChain err))
                | Inr tx \<Rightarrow> Some (OkTx tx))))"

text \<open>
  The decoded transaction goes to the channel of the node, and the answer is empty whatever the
  node does with it.
\<close>

definition handlePostTx :: "'z tx_prims_scheme \<Rightarrow> bytes \<Rightarrow> answer \<times> Transaction option" where
  "handlePostTx P body =
     (case Transaction_Decode P body of
        None \<Rightarrow> (BadRequest ErrBody, None)
      | Some tx \<Rightarrow> (OkEmpty, Some tx))"

section \<open>Routes\<close>

text \<open>
  The routes that \<open>Start\<close> registers. The framework's router is a parameter: it gets the routes,
  the method and the path, and finds a handler with the parameter of the path, or none, in which
  case the framework answers itself.
\<close>

datatype http_method = GET | POST

datatype handler_name = HandleGetBlock | HandleGetTx | HandlePostTx

type_synonym router =
  "(http_method \<times> string \<times> handler_name) list \<Rightarrow> http_method \<Rightarrow> string \<Rightarrow> (handler_name \<times> string) option"

definition api_routes :: "(http_method \<times> string \<times> handler_name) list" where
  "api_routes =
     [(GET, ''/block/:hashorid'', HandleGetBlock),
      (GET, ''/tx/:hash'', HandleGetTx),
      (POST, ''/tx'', HandlePostTx)]"

text \<open>
  The documented behaviour of the router: a segment of a route with a colon matches any one segment
  of a path and is the parameter. It is stated for the texts of hashes, which have no character
  that a path would escape.
\<close>

definition routes_by_segment :: "router \<Rightarrow> bool" where
  "routes_by_segment router \<longleftrightarrow>
     (\<forall>h. h \<noteq> [] \<longrightarrow>
        router api_routes GET (''/block/'' @ Hash_String h) = Some (HandleGetBlock, Hash_String h)
        \<and> router api_routes GET (''/tx/'' @ Hash_String h) = Some (HandleGetTx, Hash_String h))
     \<and> router api_routes POST ''/tx'' = Some (HandlePostTx, [])"

text \<open>
  A request: the answer, \<open>None\<close> where the handler panics, and the transaction that goes to the
  channel of the node.
\<close>

datatype served = NotRouted | Served "answer option" "Transaction option"

definition api_serve ::
  "'z prims_scheme \<Rightarrow> router \<Rightarrow> disk \<Rightarrow> Blockchain \<Rightarrow> http_method \<Rightarrow> string \<Rightarrow> bytes \<Rightarrow> served" where
  "api_serve P router d bc method path body =
     (case router api_routes method path of
        None \<Rightarrow> NotRouted
      | Some (h, x) \<Rightarrow>
          (case h of
             HandleGetBlock \<Rightarrow> Served (handleGetBlock P d bc x) None
           | HandleGetTx \<Rightarrow> Served (handleGetTx bc x) None
           | HandlePostTx \<Rightarrow> (case handlePostTx P body of (a, tx) \<Rightarrow> Served (Some a) tx)))"

lemma served_by_hash:
  assumes "routes_by_segment router" and "h \<noteq> []"
  shows "api_serve P router d bc GET (''/tx/'' @ Hash_String h) body
      = Served (handleGetTx bc (Hash_String h)) None"
    and "api_serve P router d bc GET (''/block/'' @ Hash_String h) body
      = Served (handleGetBlock P d bc (Hash_String h)) None"
  using assms unfolding routes_by_segment_def api_serve_def by simp_all

section \<open>Facts\<close>

lemma intoJSONBlock_fields:
  assumes "intoJSONBlock P b = Some j"
  shows "ab_Height j = Height (blk_Header b)" and "ab_Timestamp j = Timestamp (blk_Header b)"
    and "ab_PrevBlockHash j = Hash_String (PrevBlockHash (blk_Header b))"
    and "TxCount (ab_TxResponse j) = length (blk_Transactions b)"
  using assms
  by (auto simp: intoJSONBlock_def split: option.splits outcome.splits)

text \<open>The conversion asks for hashes that are there already.\<close>

lemma tx_hashes_settled:
  "\<forall>tx\<in>set txs. settled P tx
   \<Longrightarrow> tx_hashes P txs = Some (map (\<lambda>tx. Hash_String (tx_TxHash tx)) txs)"
proof (induction txs)
  case (Cons tx txs)
  then obtain h where h: "Transaction_Hash P tx = Returns h tx" by (auto simp: settled_def)
  have "h = tx_TxHash tx" by (simp add: Transaction_Hash_frame(8) [OF h])
  with Cons h show ?case by simp
qed simp

text \<open>
  Documented behaviour of \<open>crypto/ecdsa\<close>: verification reads both numbers of a signature, and a
  missing one is a nil dereference.
\<close>

definition both_numbers_read :: "'z crypto_prims_scheme \<Rightarrow> bool" where
  "both_numbers_read P \<longleftrightarrow>
     (\<forall>k m r s. ecdsa_verify P k m r s = Some True \<longrightarrow> r \<noteq> None \<and> s \<noteq> None)"

lemma verified_signature_has_text:
  assumes "both_numbers_read P" and "Block_Verify P b = Returns None b'"
  shows "\<exists>sg z. blk_Signature b = Some sg \<and> Signature_String sg = Some z"
  using assms
  by (fastforce simp: Block_Verify_accepts_iff Signature_Verify_def both_numbers_read_def Signature_String_def)

lemma intoJSONBlock_settled:
  assumes P: "sha_fixed_length P" and c: "hash_cache_ok P b"
    and v: "\<forall>tx\<in>set (blk_Transactions b). settled P tx"
    and sg: "blk_Signature b = Some sg" "Signature_String sg = Some z"
  shows "intoJSONBlock P b = Some \<lparr>ab_Hash = Hash_String (BlockHasher_Hash P (blk_Header b)),
      ab_Version = Version (blk_Header b), ab_DataHash = Hash_String (DataHash (blk_Header b)),
      ab_PrevBlockHash = Hash_String (PrevBlockHash (blk_Header b)), ab_Height = Height (blk_Header b),
      ab_Timestamp = Timestamp (blk_Header b), ab_Validator = Address_String (addr P (blk_Validator b)),
      ab_Signature = z, ab_TxResponse = \<lparr>TxCount = length (blk_Transactions b),
        Hashes = map (\<lambda>tx. Hash_String (tx_TxHash tx)) (blk_Transactions b)\<rparr>\<rparr>"
proof -
  obtain b' where "Block_Hash P b = Returns (BlockHasher_Hash P (blk_Header b)) b'"
    using Block_Hash_ok [OF c] by blast
  then show ?thesis using sg by (simp add: intoJSONBlock_def tx_hashes_settled [OF v] addr_Some [OF P])
qed

lemma of_int_u32_unat: "unat (of_int n :: u32) = nat (n mod 2 ^ 32)"
proof -
  have "uint (of_int n :: u32) = n mod 2 ^ 32" by (simp add: uint_word_of_int)
  then show ?thesis by (metis nat_uint_eq)
qed

lemma DecodeString_Hash_String: "DecodeString (Hash_String h) = Some h"
  by (simp add: Hash_String_def)

lemma AddBlock_verified:
  assumes "chain_ok P bc" and "AddBlock P d (ValidateBlock P) (bc, b) = Returns None (bc', b')"
  shows "\<exists>b1. Block_Verify P b = Returns None b1"
  using assms by (rule block_validator.AddBlock_success) (blast dest: ValidateBlock_accepts(5))

section \<open>Properties\<close>

text \<open>
  Asked for a block by number, a chain that is in order answers with the block of exactly
  that height modulo \<open>2 ^ 32\<close>, for negative numbers as well, or with an error that names the
  remainder; it never indexes out of range. So 4294967296 gets the genesis block.
\<close>

theorem handleGetBlock_height:
  assumes ok: "chain_ok P bc" and ne: "bc_Headers bc \<noteq> []" and n: "Atoi s = Some n"
  shows "handleGetBlock P d bc s =
      (let h = nat (n mod 2 ^ 32) in
       if h < length (bc_Headers bc) then map_option OkBlock (intoJSONBlock P (bc_blocks bc ! h))
       else Some (BadRequest (ErrChain (ErrHeightTooHigh (of_int n)))))
    \<and> (\<forall>j. handleGetBlock P d bc s = Some (OkBlock j) \<longrightarrow> int (unat (ab_Height j)) = n mod 2 ^ 32)"
proof -
  let ?h = "nat (n mod 2 ^ 32)"
  have u: "unat (of_int n :: u32) = ?h" by (rule of_int_u32_unat)
  have e: "handleGetBlock P d bc s =
      (if ?h < length (bc_Headers bc) then map_option OkBlock (intoJSONBlock P (bc_blocks bc ! ?h))
       else Some (BadRequest (ErrChain (ErrHeightTooHigh (of_int n)))))"
    using GetBlock_chain [OF ok ne, of "of_int n"]
    by (simp add: handleGetBlock_def n answer_block_def u)
  have "int (unat (ab_Height j)) = n mod 2 ^ 32" if j: "handleGetBlock P d bc s = Some (OkBlock j)" for j
  proof -
    from j e have l: "?h < length (bc_Headers bc)" and b: "intoJSONBlock P (bc_blocks bc ! ?h) = Some j"
      by (auto split: if_splits)
    have m: "map blk_Header (bc_blocks bc) = bc_Headers bc" using ok by (simp add: chain_ok_def)
    then have "?h < length (bc_blocks bc)" using l by (metis length_map)
    then have "blk_Header (bc_blocks bc ! ?h) = bc_Headers bc ! ?h" by (metis m nth_map)
    then have "unat (ab_Height j) = ?h"
      using ok l by (simp add: intoJSONBlock_fields(1) [OF b] chain_ok_def links_def)
    then show ?thesis by simp
  qed
  with e show ?thesis by (simp add: Let_def)
qed

text \<open>
  A hash of the wrong length, in well-formed hexadecimal text, makes both lookups panic
  instead of answering with an error; text that is not hexadecimal is answered with an error.
\<close>

theorem malformed_hash_panics:
  assumes "Atoi s = None"
  shows "(\<forall>x. DecodeString s = Some x \<and> length x \<noteq> 32
      \<longrightarrow> handleGetTx bc s = None \<and> handleGetBlock P d bc s = None)
    \<and> (DecodeString s = None \<longrightarrow> handleGetTx bc s = Some (BadRequest ErrHex)
      \<and> handleGetBlock P d bc s = Some (BadRequest ErrHex))"
  using assms by (simp add: handleGetTx_def handleGetBlock_def HashFromBytes_def)

text \<open>
  C23: what a chain has added, its interface finds. A request for the block under the text of its
  header's hash, unless that text is a number, is answered with the block: its hash, the fields
  of its header, its validator's address, the text of its signature, and the number and the hashes of
  the transactions that were kept, in their order. A request for any of these transactions
  under the text of its hash is answered with a transaction of the block that has this hash.
\<close>

theorem api_finds_added:
  assumes ok: "chain_ok P bc" and cache: "hash_cache_ok P b"
    and P: "sha_fixed_length P" "both_numbers_read P"
    and add: "AddBlock P d (ValidateBlock P) (bc, b) = Returns None (bc', b')"
    and r: "routes_by_segment router"
  shows "(Atoi (Hash_String (BlockHasher_Hash P (blk_Header b))) = None \<longrightarrow>
      (\<exists>j sg. api_serve P router d' bc' GET (''/block/'' @ Hash_String (BlockHasher_Hash P (blk_Header b))) body
          = Served (Some (OkBlock j)) None
        \<and> ab_Hash j = Hash_String (BlockHasher_Hash P (blk_Header b))
        \<and> ab_Version j = Version (blk_Header b) \<and> ab_Height j = Height (blk_Header b)
        \<and> ab_DataHash j = Hash_String (DataHash (blk_Header b))
        \<and> ab_PrevBlockHash j = Hash_String (PrevBlockHash (blk_Header b))
        \<and> ab_Timestamp j = Timestamp (blk_Header b)
        \<and> ab_Validator j = Address_String (addr P (blk_Validator b))
        \<and> blk_Signature b = Some sg \<and> Signature_String sg = Some (ab_Signature j)
        \<and> TxCount (ab_TxResponse j) = length (blk_Transactions b')
        \<and> Hashes (ab_TxResponse j) = map (\<lambda>tx. Hash_String (tx_TxHash tx)) (blk_Transactions b')))
    \<and> (\<forall>tx\<in>set (blk_Transactions b'). length (tx_TxHash tx) = 32 \<longrightarrow>
        (\<exists>tx'\<in>set (blk_Transactions b').
          api_serve P router d' bc' GET (''/tx/'' @ Hash_String (tx_TxHash tx)) body
            = Served (Some (OkTx tx')) None
          \<and> tx_TxHash tx' = tx_TxHash tx))"
proof (intro conjI impI ballI)
  let ?h = "BlockHasher_Hash P (blk_Header b)"
  assume n: "Atoi (Hash_String ?h) = None"
  have l: "length ?h = 32" using P(1) by (simp add: sha_fixed_length_def BlockHasher_Hash_def)
  obtain blk where blk: "GetBlockByHash d' bc' ?h = Some (Inr blk)" "blk_Header blk = blk_Header b"
      "blk_Transactions blk = blk_Transactions b'" "blk_Validator blk = blk_Validator b"
      "blk_Signature blk = blk_Signature b" "hash_cache_ok P blk"
      "\<forall>tx\<in>set (blk_Transactions blk). settled P tx"
    using AddBlock_stored(1) [OF ok cache add, of d'] by auto
  obtain sg z where sg: "blk_Signature b = Some sg" "Signature_String sg = Some z"
    using AddBlock_verified [OF ok add] verified_signature_has_text [OF P(2)] by blast
  have "handleGetBlock P d' bc' (Hash_String ?h) = answer_block P (GetBlockByHash d' bc' ?h)"
    using l n by (simp add: handleGetBlock_def DecodeString_Hash_String HashFromBytes_def)
  moreover have "api_serve P router d' bc' GET (''/block/'' @ Hash_String ?h) body
      = Served (handleGetBlock P d' bc' (Hash_String ?h)) None"
    using l by (intro served_by_hash [OF r]) auto
  ultimately show "\<exists>j sg. api_serve P router d' bc' GET (''/block/'' @ Hash_String ?h) body
          = Served (Some (OkBlock j)) None
        \<and> ab_Hash j = Hash_String ?h
        \<and> ab_Version j = Version (blk_Header b) \<and> ab_Height j = Height (blk_Header b)
        \<and> ab_DataHash j = Hash_String (DataHash (blk_Header b))
        \<and> ab_PrevBlockHash j = Hash_String (PrevBlockHash (blk_Header b))
        \<and> ab_Timestamp j = Timestamp (blk_Header b)
        \<and> ab_Validator j = Address_String (addr P (blk_Validator b))
        \<and> blk_Signature b = Some sg \<and> Signature_String sg = Some (ab_Signature j)
        \<and> TxCount (ab_TxResponse j) = length (blk_Transactions b')
        \<and> Hashes (ab_TxResponse j) = map (\<lambda>tx. Hash_String (tx_TxHash tx)) (blk_Transactions b')"
    using intoJSONBlock_settled [OF P(1) blk(6,7), of sg z] sg
    by (simp add: blk(1-5) answer_block_def)
next
  fix tx
  assume "tx \<in> set (blk_Transactions b')" and l: "length (tx_TxHash tx) = 32"
  with AddBlock_stored(2) [OF ok cache add] obtain tx' where "tx' \<in> set (blk_Transactions b')"
    and "GetTxByHash bc' (tx_TxHash tx) = Inr tx'" and "tx_TxHash tx' = tx_TxHash tx" by blast
  moreover from this(2) have "handleGetTx bc' (Hash_String (tx_TxHash tx)) = Some (OkTx tx')"
    using l by (simp add: handleGetTx_def DecodeString_Hash_String HashFromBytes_def)
  moreover have "api_serve P router d' bc' GET (''/tx/'' @ Hash_String (tx_TxHash tx)) body
      = Served (handleGetTx bc' (Hash_String (tx_TxHash tx))) None"
    using l by (intro served_by_hash(1) [OF r]) auto
  ultimately show "\<exists>tx'\<in>set (blk_Transactions b').
      api_serve P router d' bc' GET (''/tx/'' @ Hash_String (tx_TxHash tx)) body
        = Served (Some (OkTx tx')) None \<and> tx_TxHash tx' = tx_TxHash tx" by auto
qed

section \<open>Instances\<close>

theorem handleGetBlock_height_witness:
  "handleGetBlock demo_block_prims good_disk demo_chain ''4294967296''
    = map_option OkBlock (intoJSONBlock demo_block_prims demo_genesis)
   \<and> handleGetBlock demo_block_prims good_disk demo_chain ''-4294967295''
    = Some (BadRequest (ErrChain (ErrHeightTooHigh 1)))"
proof -
  have ne: "bc_Headers demo_chain \<noteq> []" by simp
  have "Atoi ''4294967296'' = Some 4294967296" and "Atoi ''-4294967295'' = Some (- 4294967295)"
    by (simp_all add: Atoi_def)
  from handleGetBlock_height [OF demo_chain_ok ne this(1), of good_disk]
    handleGetBlock_height [OF demo_chain_ok ne this(2), of good_disk]
  show ?thesis by simp
qed

theorem malformed_hash_panics_witness:
  "handleGetTx demo_chain ''ab'' = None \<and> handleGetTx demo_chain ''xy'' = Some (BadRequest ErrHex)"
proof -
  have "Atoi ''ab'' = None" "Atoi ''xy'' = None" by (simp_all add: Atoi_def)
  moreover have "DecodeString ''ab'' = Some [171]" "DecodeString ''xy'' = None"
    by (simp_all add: from_hex_char_def)
  ultimately show ?thesis
    using malformed_hash_panics [where s = "''ab''" and bc = demo_chain and P = demo_block_prims]
      malformed_hash_panics [where s = "''xy''" and bc = demo_chain and P = demo_block_prims]
    by (simp del: DecodeString.simps)
qed

text \<open>The checksum of a header of 76 bytes has the digit \<open>c\<close> in its text.\<close>

lemma demo_hash_no_number:
  assumes "length (DataHash h) = 32" and "length (PrevBlockHash h) = 32"
  shows "Atoi (Hash_String (BlockHasher_Hash demo_block_prims h)) = None"
proof -
  have "BlockHasher_Hash demo_block_prims h
      = 7 # sum_list (gob_header demo_block_prims h) # 76 # replicate 29 0"
    using assms by (simp add: BlockHasher_Hash_def Header_Bytes_def demo_block_prims_def demo_sha_def)
  then have "Hash_String (BlockHasher_Hash demo_block_prims h)
      = ''07'' @ EncodeToString [sum_list (gob_header demo_block_prims h)] @ ''4c''
        @ EncodeToString (replicate 29 0)"
    by (simp add: Hash_String_def hex_digit_def hextable_def)
  then show ?thesis by (simp add: Atoi_def Let_def)
qed

text \<open>A router that looks at the first segment.\<close>

definition demo_router :: router where
  "demo_router routes method path =
     (if method = POST then (if path = ''/tx'' then Some (HandlePostTx, []) else None)
      else if take 7 path = ''/block/'' then Some (HandleGetBlock, drop 7 path)
      else if take 4 path = ''/tx/'' then Some (HandleGetTx, drop 4 path)
      else None)"

lemma demo_router_routes: "routes_by_segment demo_router"
  by (simp add: routes_by_segment_def demo_router_def)

theorem api_finds_added_witness:
  "\<exists>bc' b' j. AddBlock demo_block_prims good_disk (ValidateBlock demo_block_prims)
      (demo_chain, demo_block) = Returns None (bc', b')
    \<and> api_serve demo_block_prims demo_router good_disk bc' GET
        (''/block/'' @ Hash_String (BlockHasher_Hash demo_block_prims (blk_Header demo_block))) []
      = Served (Some (OkBlock j)) None
    \<and> ab_Height j = 1 \<and> ab_PrevBlockHash j = Hash_String demo_hash"
proof -
  obtain bc' b' where add: "AddBlock demo_block_prims good_disk (ValidateBlock demo_block_prims)
      (demo_chain, demo_block) = Returns None (bc', b')"
    using demo_add by blast
  have c: "hash_cache_ok demo_block_prims demo_block"
    using demo_block_built built_and_signed_block(5) [of demo_block_prims "[demo_tx]"]
      demo_block_prims_ok demo_tx_verifies by auto
  have sha: "length (sha256 demo_block_prims m) = 32" for m
    using demo_block_prims_ok by (simp add: sha_fixed_length_def)
  have "CalculateDataHash demo_block_prims (blk_Transactions demo_block)
      = Some (DataHash (blk_Header demo_block))"
    by (rule Block_Verify_data_hash [OF demo_block_verifies])
  then obtain z where "DataHash (blk_Header demo_block) = sha256 demo_block_prims z"
    by (auto simp: CalculateDataHash_def dest: sym)
  then have "length (DataHash (blk_Header demo_block)) = 32" using sha by simp
  moreover have "length (PrevBlockHash (blk_Header demo_block)) = 32"
    using sha by (simp add: demo_block_header demo_hash_def BlockHasher_Hash_def)
  ultimately have n: "Atoi (Hash_String (BlockHasher_Hash demo_block_prims (blk_Header demo_block))) = None"
    by (rule demo_hash_no_number)
  have P: "sha_fixed_length demo_block_prims" using demo_block_prims_ok by blast
  have "both_numbers_read demo_block_prims"
    by (auto simp: both_numbers_read_def demo_block_prims_def demo_prims_def split: option.splits)
  from api_finds_added [OF demo_chain_ok c P this add demo_router_routes, of good_disk "[]"] n
  obtain j where "api_serve demo_block_prims demo_router good_disk bc' GET
        (''/block/'' @ Hash_String (BlockHasher_Hash demo_block_prims (blk_Header demo_block))) []
      = Served (Some (OkBlock j)) None" "ab_Height j = Height (blk_Header demo_block)"
    "ab_PrevBlockHash j = Hash_String (PrevBlockHash (blk_Header demo_block))" by blast
  moreover have "Height (blk_Header demo_block) = 1" "PrevBlockHash (blk_Header demo_block) = demo_hash"
    by (simp_all add: demo_block_header)
  ultimately show ?thesis using add by auto
qed

end
