(* ===== verification/Tx_Pool.thy ===== *)
theory Tx_Pool
  imports Go_List Transaction
begin

text \<open>
  \<open>network/txpool.go\<close>: the memory pool. A \<open>TxSortedMap\<close> keeps transactions in the order they
  came, with a map from hash to transaction; the pool is two of them, with a bound on the first.
  A transaction is added by pointer after its hash was asked for, so that what is stored has its
  hash cached and asking again does not write it. Every operation releases its lock before the
  next one runs. \<open>Pending\<close> hands out the slice of the list itself; that a later removal shifts
  the elements under the caller is outside this sequential model.
\<close>

section \<open>State and operations\<close>

record TxSortedMap =
  lookup :: "hash \<rightharpoonup> Transaction"
  txx :: "Transaction golist"

record TxPool =
  all :: TxSortedMap
  pending :: TxSortedMap
  maxLength :: int

definition NewTxSortedMap :: TxSortedMap where
  "NewTxSortedMap = \<lparr>lookup = Map.empty, txx = NewList\<rparr>"

definition NewTxPool :: "int \<Rightarrow> TxPool" where
  "NewTxPool n = \<lparr>all = NewTxSortedMap, pending = NewTxSortedMap, maxLength = n\<rparr>"

text \<open>\<open>None\<close> is a panic, \<open>Some None\<close> a \<open>nil\<close> pointer.\<close>

definition TxSortedMap_First ::
  "'z tx_prims_scheme \<Rightarrow> TxSortedMap \<Rightarrow> Transaction option option" where
  "TxSortedMap_First P t =
     (case List_Get (txx t) 0 of
        None \<Rightarrow> None
      | Some first \<Rightarrow>
          (case Transaction_Hash P first of
             Returns h _ \<Rightarrow> Some (lookup t h)
           | _ \<Rightarrow> None))"

definition TxSortedMap_Get :: "TxSortedMap \<Rightarrow> hash \<Rightarrow> Transaction option" where
  "TxSortedMap_Get t h = lookup t h"

definition TxSortedMap_Add :: "'z tx_prims_scheme \<Rightarrow> (unit, TxSortedMap \<times> Transaction) prog" where
  "TxSortedMap_Add P = (\<lambda>(t, tx).
     case Transaction_Hash P tx of
       Panics tx' \<Rightarrow> Panics (t, tx')
     | Blocks tx' \<Rightarrow> Blocks (t, tx')
     | Returns hash tx' \<Rightarrow>
         (if lookup t hash = None
          then Returns () (t\<lparr>lookup := (lookup t)(hash \<mapsto> tx'), txx := List_Insert (txx t) tx'\<rparr>, tx')
          else Returns () (t, tx')))"

text \<open>
  Removing a hash that is absent asks the list to remove a \<open>nil\<close> pointer, which is deeply equal
  to no element. \<open>None\<close> is a panic of the list.
\<close>

definition TxSortedMap_Remove :: "TxSortedMap \<Rightarrow> hash \<Rightarrow> TxSortedMap option" where
  "TxSortedMap_Remove t h =
     (case (case lookup t h of None \<Rightarrow> Some (txx t) | Some tx \<Rightarrow> List_Remove (=) (txx t) tx) of
        None \<Rightarrow> None
      | Some l \<Rightarrow> Some (t\<lparr>txx := l, lookup := (lookup t)(h := None)\<rparr>))"

definition TxSortedMap_Count :: "TxSortedMap \<Rightarrow> int" where
  "TxSortedMap_Count t = int (card (dom (lookup t)))"

definition TxSortedMap_Contains :: "TxSortedMap \<Rightarrow> hash \<Rightarrow> bool" where
  "TxSortedMap_Contains t h \<longleftrightarrow> lookup t h \<noteq> None"

definition TxSortedMap_Clear :: "TxSortedMap \<Rightarrow> TxSortedMap" where
  "TxSortedMap_Clear t = t\<lparr>lookup := Map.empty, txx := List_Clear (txx t)\<rparr>"

type_synonym on_pool = "TxPool \<times> Transaction"

text \<open>Pruning the oldest transaction: a panic when the pool is empty and its bound is zero.\<close>

definition prune_oldest :: "'z tx_prims_scheme \<Rightarrow> TxPool \<Rightarrow> TxPool option" where
  "prune_oldest P p =
     (if TxSortedMap_Count (all p) = maxLength p then
        (case TxSortedMap_First P (all p) of
           None \<Rightarrow> None
         | Some None \<Rightarrow> None
         | Some (Some oldest) \<Rightarrow>
             (case Transaction_Hash P oldest of
                Returns h _ \<Rightarrow>
                  (case TxSortedMap_Remove (all p) h of
                     None \<Rightarrow> None
                   | Some t \<Rightarrow> Some (p\<lparr>all := t\<rparr>))
              | _ \<Rightarrow> None))
      else Some p)"

definition on_all :: "(unit, TxSortedMap \<times> Transaction) prog \<Rightarrow> (unit, on_pool) prog" where
  "on_all m = (\<lambda>(p, tx). map_outcome id (\<lambda>(t, tx'). (p\<lparr>all := t\<rparr>, tx')) (m (all p, tx)))"

definition on_pending :: "(unit, TxSortedMap \<times> Transaction) prog \<Rightarrow> (unit, on_pool) prog" where
  "on_pending m = (\<lambda>(p, tx). map_outcome id (\<lambda>(t, tx'). (p\<lparr>pending := t\<rparr>, tx')) (m (pending p, tx)))"

definition TxPool_Add :: "'z tx_prims_scheme \<Rightarrow> (unit, on_pool) prog" where
  "TxPool_Add P = (\<lambda>(p, tx).
     case prune_oldest P p of
       None \<Rightarrow> Panics (p, tx)
     | Some p1 \<Rightarrow>
         (case Transaction_Hash P tx of
            Panics tx' \<Rightarrow> Panics (p1, tx')
          | Blocks tx' \<Rightarrow> Blocks (p1, tx')
          | Returns h tx' \<Rightarrow>
              if \<not> TxSortedMap_Contains (all p1) h
              then seq (on_all (TxSortedMap_Add P)) (\<lambda>_. on_pending (TxSortedMap_Add P)) (p1, tx')
              else Returns () (p1, tx')))"

definition TxPool_Contains :: "TxPool \<Rightarrow> hash \<Rightarrow> bool" where
  "TxPool_Contains p h = TxSortedMap_Contains (all p) h"

definition TxPool_Remove :: "TxPool \<Rightarrow> hash \<Rightarrow> TxPool option" where
  "TxPool_Remove p h =
     (case TxSortedMap_Remove (pending p) h of
        None \<Rightarrow> None
      | Some t \<Rightarrow>
          (case TxSortedMap_Remove (all p) h of
             None \<Rightarrow> None
           | Some t' \<Rightarrow> Some (p\<lparr>pending := t, all := t'\<rparr>)))"

definition Pending :: "TxPool \<Rightarrow> Transaction list" where
  "Pending p = Data (txx (pending p))"

definition ClearPending :: "TxPool \<Rightarrow> TxPool" where
  "ClearPending p = p\<lparr>pending := TxSortedMap_Clear (pending p)\<rparr>"

definition PendingCount :: "TxPool \<Rightarrow> int" where
  "PendingCount p = TxSortedMap_Count (pending p)"

section \<open>The sorted map as a list with keys\<close>

definition items :: "TxSortedMap \<Rightarrow> Transaction list" where
  "items t = Data (txx t)"

abbreviation keys_of :: "Transaction list \<Rightarrow> hash list" where
  "keys_of \<equiv> map tx_TxHash"

text \<open>The map holds exactly the listed transactions, under the hashes they have cached.\<close>

definition tsm_ok :: "'z tx_prims_scheme \<Rightarrow> TxSortedMap \<Rightarrow> bool" where
  "tsm_ok P t \<longleftrightarrow> distinct (keys_of (items t))
     \<and> (\<forall>h tx. lookup t h = Some tx \<longleftrightarrow> tx \<in> set (items t) \<and> tx_TxHash tx = h)
     \<and> (\<forall>tx\<in>set (items t). Transaction_Hash P tx = Returns (tx_TxHash tx) tx)"

lemma tsm_ok_New [simp]: "tsm_ok P NewTxSortedMap" "items NewTxSortedMap = []"
  by (simp_all add: tsm_ok_def items_def NewTxSortedMap_def golist.elems_empty)

lemma tsm_ok_Clear: "tsm_ok P (TxSortedMap_Clear t)" "items (TxSortedMap_Clear t) = []"
  by (simp_all add: tsm_ok_def items_def TxSortedMap_Clear_def List_Clear_def)

lemma tsm_lookup_None:
  assumes "tsm_ok P t"
  shows "lookup t h = None \<longleftrightarrow> h \<notin> set (keys_of (items t))"
proof -
  have L: "lookup t h = Some tx \<longleftrightarrow> tx \<in> set (items t) \<and> tx_TxHash tx = h" for tx
    using assms by (simp add: tsm_ok_def)
  have "lookup t h = None \<longleftrightarrow> (\<forall>tx. lookup t h \<noteq> Some tx)" by (cases "lookup t h") simp_all
  then show ?thesis by (auto simp only: L set_map image_iff)
qed

lemma tsm_Contains: "tsm_ok P t \<Longrightarrow> TxSortedMap_Contains t h \<longleftrightarrow> h \<in> set (keys_of (items t))"
  by (simp add: TxSortedMap_Contains_def tsm_lookup_None)

lemma tsm_Count:
  assumes "tsm_ok P t"
  shows "TxSortedMap_Count t = int (length (items t))"
proof -
  have "dom (lookup t) = set (keys_of (items t))"
    using tsm_lookup_None [OF assms] by (auto simp: dom_def)
  moreover have "card (set (keys_of (items t))) = length (items t)"
    using assms by (simp add: tsm_ok_def distinct_card del: set_map)
  ultimately show ?thesis by (simp add: TxSortedMap_Count_def)
qed

lemma tsm_First:
  assumes "tsm_ok P t"
  shows "TxSortedMap_First P t = (case items t of [] \<Rightarrow> None | x # _ \<Rightarrow> Some (Some x))"
proof (cases "items t")
  case Nil
  then show ?thesis using golist.get_first [of "txx t"] by (simp add: TxSortedMap_First_def items_def)
next
  case (Cons x xs)
  then have "List_Get (txx t) 0 = Some x" and "x \<in> set (items t)"
    using golist.get_first [of "txx t"] by (simp_all add: items_def)
  with assms Cons show ?thesis by (simp add: TxSortedMap_First_def tsm_ok_def)
qed

lemma key_absent: "h \<notin> set (keys_of xs) \<Longrightarrow> tx \<in> set xs \<Longrightarrow> tx_TxHash tx \<noteq> h"
  by auto

lemma tsm_Add:
  assumes ok: "tsm_ok P t" and h: "Transaction_Hash P tx = Returns h tx'"
  obtains t' where "TxSortedMap_Add P (t, tx) = Returns () (t', tx')" and "tsm_ok P t'"
    and "items t' = (if h \<in> set (keys_of (items t)) then items t else items t @ [tx'])"
proof (cases "h \<in> set (keys_of (items t))")
  case True
  then show ?thesis
    using that [of t] ok h tsm_lookup_None [OF ok, of h] by (simp add: TxSortedMap_Add_def)
next
  case False
  let ?t = "t\<lparr>lookup := (lookup t)(h \<mapsto> tx'), txx := List_Insert (txx t) tx'\<rparr>"
  have i: "items ?t = items t @ [tx']" by (simp add: items_def golist.elems_insert)
  have k: "tx_TxHash tx' = h" "Transaction_Hash P tx' = Returns h tx'"
    using Transaction_Hash_frame(8) [OF h] tx_cache.hash_of_again [OF h] by simp_all
  have "tsm_ok P ?t"
    unfolding tsm_ok_def i using ok k key_absent [OF False] False
    by (auto simp: tsm_ok_def)
  then show ?thesis
    using that [of ?t] False h i tsm_lookup_None [OF ok, of h] by (simp add: TxSortedMap_Add_def)
qed

lemma distinct_keys_filter:
  assumes "distinct (keys_of xs)" and "tx \<in> set xs"
  shows "remove1 tx xs = filter (\<lambda>y. tx_TxHash y \<noteq> tx_TxHash tx) xs"
  using assms
proof (induction xs)
  case (Cons x xs)
  show ?case
  proof (cases "x = tx")
    case True
    with Cons.prems have "tx_TxHash tx \<notin> tx_TxHash ` set xs" by simp
    then have "\<forall>y\<in>set xs. tx_TxHash y \<noteq> tx_TxHash tx" by (metis imageI)
    with True show ?thesis by simp
  next
    case False
    with Cons have "tx_TxHash x \<noteq> tx_TxHash tx" by auto
    with False Cons show ?thesis by simp
  qed
qed simp

lemma tsm_Remove:
  assumes ok: "tsm_ok P t"
  obtains t' where "TxSortedMap_Remove t h = Some t'" and "tsm_ok P t'"
    and "items t' = filter (\<lambda>y. tx_TxHash y \<noteq> h) (items t)"
proof -
  have res: "tsm_ok P t'" if "t' = t\<lparr>txx := l, lookup := (lookup t)(h := None)\<rparr>"
    and "Data l = filter (\<lambda>y. tx_TxHash y \<noteq> h) (items t)" for t' l
    using ok that by (auto simp: tsm_ok_def items_def distinct_map intro: inj_on_subset)
  show ?thesis
  proof (cases "lookup t h")
    case None
    then have "\<forall>y\<in>set (items t). tx_TxHash y \<noteq> h" using tsm_lookup_None [OF ok, of h] by auto
    then have "Data (txx t) = filter (\<lambda>y. tx_TxHash y \<noteq> h) (items t)" by (simp add: items_def)
    from res [OF refl this] None this show ?thesis
      by (intro that [of "t\<lparr>txx := txx t, lookup := (lookup t)(h := None)\<rparr>"])
        (simp_all add: TxSortedMap_Remove_def items_def)
  next
    case (Some tx)
    with ok have tx: "tx \<in> set (items t)" "tx_TxHash tx = h" by (auto simp: tsm_ok_def)
    obtain l where l: "List_Remove (=) (txx t) tx = Some l" "Data l = remove1 tx (items t)"
      using golist.remove_cases [of "txx t" tx] by (auto simp: items_def)
    have "Data l = filter (\<lambda>y. tx_TxHash y \<noteq> h) (items t)"
      using l(2) distinct_keys_filter [of "items t" tx] ok tx by (simp add: tsm_ok_def)
    from res [OF refl this] Some l(1) this show ?thesis
      by (intro that [of "t\<lparr>txx := l, lookup := (lookup t)(h := None)\<rparr>"])
        (simp_all add: TxSortedMap_Remove_def items_def)
  qed
qed

section \<open>The contract of a keyed list\<close>

text \<open>
  What the pool relies on: a list without two elements of one key, to which elements are added at
  the end, from which they are removed by key, and which counts itself. From these laws follows
  how pruning the oldest element bounds it.
\<close>

locale keyed_list =
  fixes ok :: "'t \<Rightarrow> bool"
    and elems :: "'t \<Rightarrow> 'a list"
    and key :: "'a \<Rightarrow> 'k"
    and remove :: "'t \<Rightarrow> 'k \<Rightarrow> 't option"
    and first :: "'t \<Rightarrow> 'a option option"
    and count :: "'t \<Rightarrow> int"
  assumes distinct_keys: "ok t \<Longrightarrow> distinct (map key (elems t))"
    and count_elems: "ok t \<Longrightarrow> count t = int (length (elems t))"
    and first_elems: "ok t \<Longrightarrow> first t = (case elems t of [] \<Rightarrow> None | x # _ \<Rightarrow> Some (Some x))"
    and remove_elems: "ok t \<Longrightarrow> \<exists>t'. remove t k = Some t' \<and> ok t'
      \<and> elems t' = filter (\<lambda>y. key y \<noteq> k) (elems t)"
begin

definition prune :: "int \<Rightarrow> 't \<Rightarrow> 't option" where
  "prune n t =
     (if count t = n then
        (case first t of Some (Some x) \<Rightarrow> remove t (key x) | _ \<Rightarrow> None)
      else Some t)"

lemma filter_first_key:
  assumes "ok t" and "elems t = x # xs"
  shows "filter (\<lambda>y. key y \<noteq> key x) (elems t) = xs"
proof -
  have "key x \<notin> key ` set xs" using distinct_keys [OF assms(1)] assms(2) by simp
  then have "\<forall>y\<in>set xs. key y \<noteq> key x" by (metis imageI)
  with assms(2) show ?thesis by simp
qed

lemma prune_elems:
  assumes ok: "ok t" and n: "0 < n"
  obtains t' where "prune n t = Some t'" and "ok t'"
    and "elems t' = (if int (length (elems t)) = n then tl (elems t) else elems t)"
proof (cases "int (length (elems t)) = n")
  case False
  then show ?thesis using that [of t] ok by (simp add: prune_def count_elems)
next
  case True
  with n obtain x xs where x: "elems t = x # xs" by (cases "elems t") auto
  obtain t' where "remove t (key x) = Some t'" "ok t'" "elems t' = xs"
    using remove_elems [OF ok, of "key x"] filter_first_key [OF ok x] by auto
  with True x show ?thesis
    using that [of t'] ok by (simp add: prune_def count_elems first_elems)
qed

lemma prune_zero: "ok t \<Longrightarrow> elems t = [] \<Longrightarrow> prune 0 t = None"
  by (simp add: prune_def count_elems first_elems)

end

interpretation tsm: keyed_list "tsm_ok P" items tx_TxHash TxSortedMap_Remove "TxSortedMap_First P"
    TxSortedMap_Count for P :: "'z tx_prims_scheme"
proof
  fix t :: TxSortedMap and k
  assume ok: "tsm_ok P t"
  show "distinct (keys_of (items t))" using ok by (simp add: tsm_ok_def)
  show "TxSortedMap_Count t = int (length (items t))" by (rule tsm_Count [OF ok])
  show "TxSortedMap_First P t = (case items t of [] \<Rightarrow> None | x # _ \<Rightarrow> Some (Some x))"
    by (rule tsm_First [OF ok])
  show "\<exists>t'. TxSortedMap_Remove t k = Some t' \<and> tsm_ok P t'
      \<and> items t' = filter (\<lambda>y. tx_TxHash y \<noteq> k) (items t)"
    using tsm_Remove [OF ok, of k] by metis
qed

section \<open>The pool\<close>

definition pool_ok :: "'z tx_prims_scheme \<Rightarrow> TxPool \<Rightarrow> bool" where
  "pool_ok P p \<longleftrightarrow> tsm_ok P (all p) \<and> tsm_ok P (pending p) \<and> 0 < maxLength p
     \<and> int (length (items (all p))) \<le> maxLength p"

lemma pool_ok_New: "0 < n \<Longrightarrow> pool_ok P (NewTxPool n)"
  by (simp add: pool_ok_def NewTxPool_def)

lemma prune_oldest_tsm:
  fixes P :: "'z tx_prims_scheme"
  assumes "tsm_ok P (all p)"
  shows "prune_oldest P p = map_option (\<lambda>t. p\<lparr>all := t\<rparr>) (tsm.prune TYPE('z) P (maxLength p) (all p))"
proof (cases "items (all p)")
  case Nil
  then show ?thesis
    using tsm_First [OF assms] by (simp add: prune_oldest_def tsm.prune_def)
next
  case (Cons x xs)
  then have "Transaction_Hash P x = Returns (tx_TxHash x) x" using assms by (simp add: tsm_ok_def)
  then show ?thesis
    using tsm_First [OF assms] Cons
    by (simp add: prune_oldest_def tsm.prune_def split: option.split)
qed

text \<open>What adding does to a list of transactions.\<close>

definition add_new :: "Transaction list \<Rightarrow> Transaction \<Rightarrow> Transaction list" where
  "add_new xs tx = (if tx_TxHash tx \<in> set (keys_of xs) then xs else xs @ [tx])"

definition pruned :: "int \<Rightarrow> Transaction list \<Rightarrow> Transaction list" where
  "pruned n xs = (if int (length xs) = n then tl xs else xs)"

lemma TxPool_Add_ok:
  fixes P :: "'z tx_prims_scheme"
  assumes ok: "pool_ok P p" and h: "Transaction_Hash P tx = Returns h tx'"
  obtains p' where "TxPool_Add P (p, tx) = Returns () (p', tx')" and "pool_ok P p'"
    and "maxLength p' = maxLength p"
    and "items (all p') = add_new (pruned (maxLength p) (items (all p))) tx'"
    and "items (pending p') =
      (if h \<in> set (keys_of (pruned (maxLength p) (items (all p)))) then items (pending p)
       else add_new (items (pending p)) tx')"
proof -
  from ok have o: "tsm_ok P (all p)" "tsm_ok P (pending p)" "0 < maxLength p"
    "int (length (items (all p))) \<le> maxLength p" by (simp_all add: pool_ok_def)
  note k = Transaction_Hash_frame(8) [OF h] tx_cache.hash_of_again [OF h]
  obtain t where t: "tsm.prune TYPE('z) P (maxLength p) (all p) = Some t" "tsm_ok P t"
    "items t = pruned (maxLength p) (items (all p))"
    using tsm.prune_elems [OF o(1,3)] by (metis pruned_def)
  then have p1: "prune_oldest P p = Some (p\<lparr>all := t\<rparr>)" by (simp add: prune_oldest_tsm [OF o(1)])
  have room: "int (length (items t)) < maxLength p"
    using o(3,4) t(3) by (cases "items (all p)") (auto simp: pruned_def)
  show ?thesis
  proof (cases "h \<in> set (keys_of (items t))")
    case True
    then show ?thesis
      using that [of "p\<lparr>all := t\<rparr>"] p1 h k o t room
      by (simp add: TxPool_Add_def tsm_Contains [OF t(2)] add_new_def pool_ok_def del: set_map)
  next
    case False
    obtain a where a: "TxSortedMap_Add P (t, tx') = Returns () (a, tx')" "tsm_ok P a"
      "items a = (if h \<in> set (keys_of (items t)) then items t else items t @ [tx'])"
      using tsm_Add [OF t(2) k(2)] by blast
    obtain q where q: "TxSortedMap_Add P (pending p, tx') = Returns () (q, tx')" "tsm_ok P q"
      "items q = (if h \<in> set (keys_of (items (pending p))) then items (pending p) else items (pending p) @ [tx'])"
      using tsm_Add [OF o(2) k(2)] by blast
    show ?thesis
      using that [of "p\<lparr>all := a, pending := q\<rparr>"] False p1 h k o t a q room
      by (simp add: TxPool_Add_def tsm_Contains [OF t(2)] add_new_def pool_ok_def on_all_def
          on_pending_def seq_def del: set_map)
  qed
qed

lemma TxPool_Remove_ok:
  assumes "pool_ok P p"
  obtains p' where "TxPool_Remove p h = Some p'" and "pool_ok P p'" and "maxLength p' = maxLength p"
    and "items (all p') = filter (\<lambda>y. tx_TxHash y \<noteq> h) (items (all p))"
    and "items (pending p') = filter (\<lambda>y. tx_TxHash y \<noteq> h) (items (pending p))"
proof -
  from assms have o: "tsm_ok P (all p)" "tsm_ok P (pending p)" "0 < maxLength p"
    "int (length (items (all p))) \<le> maxLength p" by (simp_all add: pool_ok_def)
  obtain a where a: "TxSortedMap_Remove (all p) h = Some a" "tsm_ok P a"
    "items a = filter (\<lambda>y. tx_TxHash y \<noteq> h) (items (all p))" using tsm_Remove [OF o(1)] by metis
  obtain q where q: "TxSortedMap_Remove (pending p) h = Some q" "tsm_ok P q"
    "items q = filter (\<lambda>y. tx_TxHash y \<noteq> h) (items (pending p))" using tsm_Remove [OF o(2)] by metis
  have "int (length (items a)) \<le> maxLength p"
    using o(4) length_filter_le [of "\<lambda>y. tx_TxHash y \<noteq> h" "items (all p)"] unfolding a(3) by linarith
  then show ?thesis
    using that [of "p\<lparr>pending := q, all := a\<rparr>"] o a q by (simp add: TxPool_Remove_def pool_ok_def)
qed

lemma pool_ok_ClearPending:
  "pool_ok P p \<Longrightarrow> pool_ok P (ClearPending p)" "items (pending (ClearPending p)) = []"
  "all (ClearPending p) = all p" "maxLength (ClearPending p) = maxLength p"
  by (simp_all add: pool_ok_def ClearPending_def tsm_ok_Clear)

section \<open>Runs of the pool\<close>

text \<open>The operations other code performs on the pool, and their runs; a panic ends a run.\<close>

datatype pool_op = OpAdd Transaction | OpRemove hash | OpClearPending

fun pool_step :: "'z tx_prims_scheme \<Rightarrow> pool_op \<Rightarrow> TxPool \<Rightarrow> TxPool option" where
  "pool_step P (OpAdd tx) p =
     (case TxPool_Add P (p, tx) of Returns _ (p', _) \<Rightarrow> Some p' | _ \<Rightarrow> None)"
| "pool_step P (OpRemove h) p = TxPool_Remove p h"
| "pool_step P OpClearPending p = Some (ClearPending p)"

primrec pool_run :: "'z tx_prims_scheme \<Rightarrow> pool_op list \<Rightarrow> TxPool \<Rightarrow> TxPool option" where
  "pool_run P [] p = Some p"
| "pool_run P (op # ops) p = (case pool_step P op p of None \<Rightarrow> None | Some p' \<Rightarrow> pool_run P ops p')"

definition hashable :: "'z tx_prims_scheme \<Rightarrow> Transaction \<Rightarrow> bool" where
  "hashable P tx \<longleftrightarrow> (\<exists>h tx'. Transaction_Hash P tx = Returns h tx')"

lemma pool_step_ok:
  assumes "pool_ok P p" and "\<And>tx. op = OpAdd tx \<Longrightarrow> hashable P tx"
  shows "\<exists>p'. pool_step P op p = Some p' \<and> pool_ok P p' \<and> maxLength p' = maxLength p"
proof (cases op)
  case (OpAdd tx)
  with assms(2) obtain h tx' where "Transaction_Hash P tx = Returns h tx'"
    by (auto simp: hashable_def)
  from TxPool_Add_ok [OF assms(1) this] OpAdd show ?thesis by (metis (no_types) outcome.case(1)
      pool_step.simps(1) prod.case)
next
  case (OpRemove h)
  with TxPool_Remove_ok [OF assms(1), of h] show ?thesis by (metis pool_step.simps(2))
next
  case OpClearPending
  with assms(1) show ?thesis by (simp add: pool_ok_ClearPending)
qed

text \<open>
  C26: the pool never holds more than its bound of transactions: from an empty pool with a
  positive bound, any sequence of additions of transactions that can be hashed, removals and
  clearings runs without a panic, and keeps both maps and lists in agreement, without two
  transactions of one hash.
\<close>

theorem pool_bounded:
  assumes "0 < n" and "\<forall>tx. OpAdd tx \<in> set ops \<longrightarrow> hashable P tx"
  shows "\<exists>p. pool_run P ops (NewTxPool n) = Some p
    \<and> TxSortedMap_Count (all p) \<le> n
    \<and> TxSortedMap_Count (all p) = List_Len (txx (all p))
    \<and> PendingCount p = int (length (Pending p))
    \<and> distinct (map tx_TxHash (Data (txx (all p)))) \<and> distinct (map tx_TxHash (Pending p))"
proof -
  have "\<exists>p'. pool_run P ops p = Some p' \<and> pool_ok P p' \<and> maxLength p' = maxLength p"
    if "pool_ok P p" for p
    using that assms(2)
  proof (induction ops arbitrary: p)
    case Nil
    then show ?case by simp
  next
    case (Cons op ops)
    obtain p1 where "pool_step P op p = Some p1" "pool_ok P p1" "maxLength p1 = maxLength p"
      using pool_step_ok [OF Cons.prems(1), of op] Cons.prems(2) by auto
    with Cons.IH [of p1] Cons.prems(2) show ?case by auto
  qed
  from this [OF pool_ok_New [OF assms(1)]] obtain p where
    "pool_run P ops (NewTxPool n) = Some p" "pool_ok P p" "maxLength p = n"
    by (auto simp: NewTxPool_def)
  then show ?thesis
    using tsm_Count [of P "all p"] tsm_Count [of P "pending p"]
    by (simp add: pool_ok_def PendingCount_def Pending_def List_Len_def items_def tsm_ok_def)
qed

text \<open>
  Adding a transaction to a pool that is in order never panics. It drops the oldest
  transaction when the bound is reached, also when the new one is in the pool already, then
  appends the new one unless its hash is still there; the pending list gets it in the same case
  and loses nothing.
\<close>

theorem TxPool_Add_spec:
  assumes "pool_ok P p" and "Transaction_Hash P tx = Returns h tx'"
  shows "\<exists>p'. TxPool_Add P (p, tx) = Returns () (p', tx') \<and> pool_ok P p'
    \<and> (let kept = (if int (length (items (all p))) = maxLength p then tl (items (all p))
          else items (all p))
       in if h \<in> set (map tx_TxHash kept)
          then items (all p') = kept \<and> Pending p' = Pending p
          else items (all p') = kept @ [tx']
            \<and> Pending p' = (if h \<in> set (map tx_TxHash (Pending p)) then Pending p
                else Pending p @ [tx']))"
proof -
  have k: "tx_TxHash tx' = h" using Transaction_Hash_frame(8) [OF assms(2)] .
  obtain p' where p': "TxPool_Add P (p, tx) = Returns () (p', tx')" "pool_ok P p'"
    "items (all p') = add_new (pruned (maxLength p) (items (all p))) tx'"
    "items (pending p') = (if h \<in> set (keys_of (pruned (maxLength p) (items (all p))))
      then items (pending p) else add_new (items (pending p)) tx')"
    using TxPool_Add_ok [OF assms] by blast
  have "Pending q = items (pending q)" for q by (simp add: Pending_def items_def)
  with p' k show ?thesis
    by (simp add: add_new_def pruned_def Let_def del: set_map)
qed

text \<open>
  The pending list is not pruned: after adding transactions of different hashes to a new
  pool, the pool has the last ones up to its bound, but all of them are pending.
\<close>

theorem pending_outgrows_pool:
  assumes "0 < n" and "distinct (map tx_TxHash xs)"
    and "\<forall>tx\<in>set xs. Transaction_Hash P tx = Returns (tx_TxHash tx) tx"
  shows "\<exists>p. pool_run P (map OpAdd xs) (NewTxPool n) = Some p
    \<and> Data (txx (all p)) = drop (length xs - nat n) xs \<and> Pending p = xs"
proof -
  have append: "pool_run P (ops @ [op]) p
      = (case pool_run P ops p of None \<Rightarrow> None | Some q \<Rightarrow> pool_step P op q)" for ops op p
    by (induction ops arbitrary: p) (auto split: option.split)
  have "\<exists>p. pool_run P (map OpAdd xs) (NewTxPool n) = Some p \<and> pool_ok P p \<and> maxLength p = n
      \<and> items (all p) = drop (length xs - nat n) xs \<and> items (pending p) = xs"
    using assms(2,3)
  proof (induction xs rule: rev_induct)
    case Nil
    show ?case using pool_ok_New [OF assms(1), of P] by (simp add: NewTxPool_def)
  next
    case (snoc tx xs)
    then obtain p where p: "pool_run P (map OpAdd xs) (NewTxPool n) = Some p" "pool_ok P p"
      "maxLength p = n" "items (all p) = drop (length xs - nat n) xs" "items (pending p) = xs" by auto
    have h: "Transaction_Hash P tx = Returns (tx_TxHash tx) tx" using snoc.prems(2) by simp
    have new: "tx_TxHash tx \<notin> set (keys_of xs)" using snoc.prems(1) by simp
    have drop1: "pruned n (drop (length xs - nat n) xs) @ [tx]
        = drop (length (xs @ [tx]) - nat n) (xs @ [tx])"
      using assms(1) by (auto simp: pruned_def tl_drop drop_Suc [symmetric] Suc_diff_le not_le)
    have sub: "set (pruned n (drop (length xs - nat n) xs)) \<subseteq> set xs"
      by (auto simp: pruned_def tl_drop drop_Suc [symmetric] dest: in_set_dropD)
    then have "tx_TxHash tx \<notin> set (keys_of (pruned n (drop (length xs - nat n) xs)))"
      using new by auto
    moreover obtain p' where "TxPool_Add P (p, tx) = Returns () (p', tx)" "pool_ok P p'"
      "maxLength p' = maxLength p"
      "items (all p') = add_new (pruned (maxLength p) (items (all p))) tx"
      "items (pending p') = (if tx_TxHash tx \<in> set (keys_of (pruned (maxLength p) (items (all p))))
        then items (pending p) else add_new (items (pending p)) tx)"
      using TxPool_Add_ok [OF p(2) h] by blast
    ultimately show ?case
      using p new drop1 by (simp add: append add_new_def del: set_map)
  qed
  then show ?thesis by (auto simp: Pending_def items_def)
qed

text \<open>
  A pool with bound zero is useless: adding any transaction to it panics.
\<close>

theorem pool_of_zero_panics: "TxPool_Add P (NewTxPool 0, tx) = Panics (NewTxPool 0, tx)"
proof -
  have "prune_oldest P (NewTxPool 0) = None"
    by (subst prune_oldest_tsm) (simp_all add: NewTxPool_def tsm.prune_zero)
  then show ?thesis by (simp add: TxPool_Add_def)
qed

section \<open>Instances\<close>

definition demo_tx2 :: Transaction where
  "demo_tx2 = demo_tx\<lparr>tx_TxHash := 1 # replicate 31 1\<rparr>"

lemma demo_txs_hash:
  "Transaction_Hash P demo_tx2 = Returns (tx_TxHash demo_tx2) demo_tx2"
  "tx_TxHash demo_tx \<noteq> tx_TxHash demo_tx2"
  by (simp_all add: Transaction_Hash_def demo_tx_def demo_tx2_def Hash_IsZero_def)

theorem pool_bounded_witness:
  "\<exists>p. pool_run demo_tx_prims [OpAdd demo_tx, OpAdd demo_tx2, OpRemove zero_hash, OpClearPending]
      (NewTxPool 1) = Some p \<and> TxSortedMap_Count (all p) \<le> 1"
proof -
  have "\<forall>tx. OpAdd tx \<in> set [OpAdd demo_tx, OpAdd demo_tx2, OpRemove zero_hash, OpClearPending]
      \<longrightarrow> hashable demo_tx_prims tx"
    using demo_tx_hash demo_txs_hash by (auto simp: hashable_def)
  from pool_bounded [OF _ this, of 1] show ?thesis by auto
qed

theorem TxPool_Add_spec_witness:
  "\<exists>p'. TxPool_Add demo_tx_prims (NewTxPool 1, demo_tx) = Returns () (p', demo_tx)
    \<and> Pending p' = [demo_tx]"
  using TxPool_Add_spec [OF pool_ok_New demo_tx_hash, of 1 demo_tx_prims]
  by (auto simp: NewTxPool_def NewTxSortedMap_def Pending_def items_def NewList_def)

theorem pending_outgrows_pool_witness:
  "\<exists>p. pool_run demo_tx_prims [OpAdd demo_tx, OpAdd demo_tx2] (NewTxPool 1) = Some p
    \<and> Data (txx (all p)) = [demo_tx2] \<and> Pending p = [demo_tx, demo_tx2]"
  using pending_outgrows_pool [of 1 "[demo_tx, demo_tx2]" demo_tx_prims] demo_tx_hash demo_txs_hash by auto

end
