(* ===== verification/Messages.thy ===== *)
theory Messages
  imports Block
begin

text \<open>
  \<open>network/message.go\<close>, \<open>network/rpc.go\<close> and the block part of \<open>core/encoding.go\<close>: the messages
  nodes exchange and how a payload is decoded. The \<open>gob\<close> encodings of the standard library are
  fields of the record \<open>net_prims\<close>. A block that comes from the network may lack its header,
  which is a pointer; decoding gives \<open>None\<close> for such a block.
\<close>

section \<open>Data\<close>

type_synonym MessageType = byte

definition MessageTypeTx :: MessageType where "MessageTypeTx = 0x1"
definition MessageTypeBlock :: MessageType where "MessageTypeBlock = 0x2"
definition MessageTypeGetBlocks :: MessageType where "MessageTypeGetBlocks = 0x3"
definition MessageTypeStatus :: MessageType where "MessageTypeStatus = 0x4"
definition MessageTypeGetStatus :: MessageType where "MessageTypeGetStatus = 0x5"
definition MessageTypeBlocks :: MessageType where "MessageTypeBlocks = 0x6"

lemmas message_type_defs = MessageTypeTx_def MessageTypeBlock_def MessageTypeGetBlocks_def
  MessageTypeStatus_def MessageTypeGetStatus_def MessageTypeBlocks_def

record Message =
  msg_Header :: MessageType
  msg_Data :: bytes

record GetBlocksMessage =
  gb_From :: u32
  gb_To :: u32

record StatusMessage =
  st_ID :: string
  st_Version :: u32
  st_CurrentHeight :: u32

type_synonym net_block = "Block option"

text \<open>
  The encoders of the types without interfaces always succeed; those of a block or a list of
  blocks fail with a transaction. A decoder answers \<open>None\<close> on an error.
\<close>

record net_prims = prims +
  gob_msg :: "Message \<Rightarrow> bytes"
  gob_unmsg :: "bytes \<Rightarrow> Message option"
  gob_block :: "Block \<Rightarrow> bytes option"
  gob_unblock :: "bytes \<Rightarrow> net_block option"
  gob_blocks :: "Block list \<Rightarrow> bytes option"
  gob_unblocks :: "bytes \<Rightarrow> net_block list option"
  gob_getblocks :: "GetBlocksMessage \<Rightarrow> bytes"
  gob_ungetblocks :: "bytes \<Rightarrow> GetBlocksMessage option"
  gob_status :: "StatusMessage \<Rightarrow> bytes"
  gob_unstatus :: "bytes \<Rightarrow> StatusMessage option"
  gob_getstatus :: bytes

text \<open>What travels of a block: everything but the unexported hash cache.\<close>

definition sent_block :: "Block \<Rightarrow> Block" where
  "sent_block b = b\<lparr>blk_hash := zero_hash\<rparr>"

text \<open>The documented behaviour of the encoding: what was encoded decodes to the same value.\<close>

definition gob_ok :: "'z net_prims_scheme \<Rightarrow> bool" where
  "gob_ok P \<longleftrightarrow> (\<forall>m. gob_unmsg P (gob_msg P m) = Some m)
     \<and> (\<forall>tx x. gob_tx P tx = Some x \<longrightarrow> gob_untx P x = Some tx)
     \<and> (\<forall>b x. gob_block P b = Some x \<longrightarrow> gob_unblock P x = Some (Some (sent_block b)))
     \<and> (\<forall>bs x. gob_blocks P bs = Some x \<longrightarrow> gob_unblocks P x = Some (map (Some \<circ> sent_block) bs))
     \<and> (\<forall>g. gob_ungetblocks P (gob_getblocks P g) = Some g)
     \<and> (\<forall>s. gob_unstatus P (gob_status P s) = Some s)"

datatype decoded =
  DTx Transaction
| DBlock net_block
| DGetStatus
| DStatus StatusMessage
| DGetBlocks GetBlocksMessage
| DBlocks "net_block list"

datatype rpc_error =
  ErrDecodeMessage
| ErrDecodeData
| ErrMessageHeader MessageType

section \<open>Operations\<close>

definition NewMessage :: "MessageType \<Rightarrow> bytes \<Rightarrow> Message" where
  "NewMessage t data = \<lparr>msg_Header = t, msg_Data = data\<rparr>"

definition Message_Bytes :: "'z net_prims_scheme \<Rightarrow> Message \<Rightarrow> bytes" where
  "Message_Bytes P msg = gob_msg P msg"

definition GobBlockEncoder_Encode :: "'z net_prims_scheme \<Rightarrow> bytes \<Rightarrow> Block \<Rightarrow> bytes option" where
  "GobBlockEncoder_Encode P w b = (case gob_block P b of None \<Rightarrow> None | Some x \<Rightarrow> Some (w @ x))"

definition GobBlockDecoder_Decode :: "'z net_prims_scheme \<Rightarrow> bytes \<Rightarrow> net_block option" where
  "GobBlockDecoder_Decode P r = gob_unblock P r"

definition Block_Encode :: "'z net_prims_scheme \<Rightarrow> Block \<Rightarrow> bytes \<Rightarrow> bytes option" where
  "Block_Encode P b w = GobBlockEncoder_Encode P w b"

definition Block_Decode :: "'z net_prims_scheme \<Rightarrow> bytes \<Rightarrow> net_block option" where
  "Block_Decode P r = GobBlockDecoder_Decode P r"

lemmas block_coding = Block_Encode_def GobBlockEncoder_Encode_def Block_Decode_def
  GobBlockDecoder_Decode_def

definition GetBlocksMessage_Encode :: "'z net_prims_scheme \<Rightarrow> GetBlocksMessage \<Rightarrow> bytes" where
  "GetBlocksMessage_Encode P msg = gob_getblocks P msg"

definition decode_data :: "('a \<Rightarrow> decoded) \<Rightarrow> 'a option \<Rightarrow> rpc_error + decoded" where
  "decode_data f r = (case r of None \<Rightarrow> Inl ErrDecodeData | Some x \<Rightarrow> Inr (f x))"

text \<open>The sender's address is passed through; the result is the error or the decoded data.\<close>

definition DefaultRPCDecodeFunc ::
  "'z net_prims_scheme \<Rightarrow> bytes \<Rightarrow> rpc_error + decoded" where
  "DefaultRPCDecodeFunc P payload =
     (case gob_unmsg P payload of
        None \<Rightarrow> Inl ErrDecodeMessage
      | Some msg \<Rightarrow>
          if msg_Header msg = MessageTypeTx then
            decode_data DTx (Transaction_Decode P (msg_Data msg))
          else if msg_Header msg = MessageTypeBlock then
            decode_data DBlock (Block_Decode P (msg_Data msg))
          else if msg_Header msg = MessageTypeGetStatus then Inr DGetStatus
          else if msg_Header msg = MessageTypeStatus then
            decode_data DStatus (gob_unstatus P (msg_Data msg))
          else if msg_Header msg = MessageTypeGetBlocks then
            decode_data DGetBlocks (gob_ungetblocks P (msg_Data msg))
          else if msg_Header msg = MessageTypeBlocks then
            decode_data DBlocks (gob_unblocks P (msg_Data msg))
          else Inl (ErrMessageHeader (msg_Header msg)))"

section \<open>Payloads\<close>

text \<open>The payloads that a node writes for each kind of message.\<close>

definition payload :: "'z net_prims_scheme \<Rightarrow> MessageType \<Rightarrow> bytes \<Rightarrow> bytes" where
  "payload P t data = Message_Bytes P (NewMessage t data)"

text \<open>
  C24: each message a node writes is decoded by its receiver as that very message: transactions,
  with the hash their exported field \<open>TxHash\<close> has (\<open>TestTxEncodeDecode\<close> and \<open>TestDecodeEncodeBlock\<close>
  expect a zero hash there), blocks without their unexported hash cache, requests and answers of
  the synchronisation.
\<close>

theorem messages_roundtrip:
  assumes "gob_ok P"
  shows "(\<forall>tx x. Transaction_Encode P tx [] = Some x
        \<longrightarrow> DefaultRPCDecodeFunc P (payload P MessageTypeTx x) = Inr (DTx tx))
    \<and> (\<forall>b x. Block_Encode P b [] = Some x
        \<longrightarrow> DefaultRPCDecodeFunc P (payload P MessageTypeBlock x) = Inr (DBlock (Some (sent_block b))))
    \<and> (\<forall>bs x. gob_blocks P bs = Some x
        \<longrightarrow> DefaultRPCDecodeFunc P (payload P MessageTypeBlocks x)
          = Inr (DBlocks (map (Some \<circ> sent_block) bs)))
    \<and> (\<forall>g. DefaultRPCDecodeFunc P (payload P MessageTypeGetBlocks (GetBlocksMessage_Encode P g))
          = Inr (DGetBlocks g))
    \<and> (\<forall>s. DefaultRPCDecodeFunc P (payload P MessageTypeStatus (gob_status P s)) = Inr (DStatus s))
    \<and> DefaultRPCDecodeFunc P (payload P MessageTypeGetStatus (gob_getstatus P)) = Inr DGetStatus"
proof -
  have m: "gob_unmsg P (payload P t x) = Some (NewMessage t x)" for t x
    using assms by (simp add: payload_def Message_Bytes_def gob_ok_def)
  note defs = DefaultRPCDecodeFunc_def m NewMessage_def message_type_defs decode_data_def
  show ?thesis
    using assms
    by (auto simp: defs gob_ok_def tx_coding block_coding GetBlocksMessage_Encode_def split: option.splits)
qed

section \<open>Concrete primitives for evaluation\<close>

text \<open>
  Fixed-width encodings of the small messages; of the transactions and blocks only the ones of
  the earlier instances can be encoded.
\<close>

definition string_bytes :: "string \<Rightarrow> bytes" where
  "string_bytes s = map (\<lambda>c. of_nat (of_char c)) s"

definition bytes_string :: "bytes \<Rightarrow> string" where
  "bytes_string b = map (\<lambda>x. char_of (unat x)) b"

lemma bytes_string_bytes [simp]: "bytes_string (string_bytes s) = s"
  by (simp add: bytes_string_def string_bytes_def comp_def unat_of_nat char_of_take_bit_eq)

lemma le_word_32 [simp]: "le_word (le_bytes 4 (w :: u32)) = w"
  by (simp add: le_word_le_bytes take_bit_word_eq_self)

definition demo_net_prims :: net_prims where
  "demo_net_prims = \<lparr>
     sha256 = demo_sha,
     ecdsa_verify = ecdsa_verify demo_prims,
     ecdsa_sign = ecdsa_sign demo_prims,
     marshal_public = marshal_public demo_prims,
     gob_inner = gob_inner demo_tx_prims,
     gob_tx = (\<lambda>tx. if tx = demo_tx then gob_tx demo_tx_prims demo_tx else None),
     gob_untx = (\<lambda>b. Some demo_tx),
     gob_header = gob_header demo_block_prims,
     gob_msg = (\<lambda>m. msg_Header m # msg_Data m),
     gob_unmsg = (\<lambda>b. case b of [] \<Rightarrow> None | h # d \<Rightarrow> Some \<lparr>msg_Header = h, msg_Data = d\<rparr>),
     gob_block = (\<lambda>b. if sent_block b = sent_block demo_block then Some [2] else None),
     gob_unblock = (\<lambda>x. Some (Some (sent_block demo_block))),
     gob_blocks = (\<lambda>bs. if map sent_block bs = [sent_block demo_block] then Some [3] else None),
     gob_unblocks = (\<lambda>x. Some [Some (sent_block demo_block)]),
     gob_getblocks = (\<lambda>g. le_bytes 4 (gb_From g) @ le_bytes 4 (gb_To g)),
     gob_ungetblocks = (\<lambda>x. Some \<lparr>gb_From = le_word (take 4 x), gb_To = le_word (drop 4 x)\<rparr>),
     gob_status = (\<lambda>s. le_bytes 4 (st_Version s) @ le_bytes 4 (st_CurrentHeight s)
       @ string_bytes (st_ID s)),
     gob_unstatus = (\<lambda>x. Some \<lparr>st_ID = bytes_string (drop 8 x), st_Version = le_word (take 4 x),
       st_CurrentHeight = le_word (take 4 (drop 4 x))\<rparr>),
     gob_getstatus = [0]\<rparr>"

lemma demo_gob_ok: "gob_ok demo_net_prims"
proof -
  have "map sent_block bs = [c] \<Longrightarrow> map (Some \<circ> sent_block) bs = [Some c]" for bs c
    by (cases bs) auto
  then show ?thesis by (auto simp: gob_ok_def demo_net_prims_def split: if_splits)
qed

theorem messages_roundtrip_witness:
  "DefaultRPCDecodeFunc demo_net_prims
     (payload demo_net_prims MessageTypeGetBlocks
       (GetBlocksMessage_Encode demo_net_prims \<lparr>gb_From = 3, gb_To = 7\<rparr>))
   = Inr (DGetBlocks \<lparr>gb_From = 3, gb_To = 7\<rparr>)"
  using messages_roundtrip [OF demo_gob_ok] by blast

end
