(* ===== verification/Transport.thy ===== *)
theory Transport
  imports Prelude
begin

text \<open>
  \<open>network/tcp_transport.go\<close> and \<open>network/local_transport.go\<close>. A peer is a connection with a
  flag \<open>closed\<close> that \<open>Send\<close>, the reading loop and \<open>Close\<close> set. The network's part of a
  connection is data of the model: whether a write fails, what was written, whether the socket
  was closed, and how many bytes each read returns. Peers are addressed by the
  remote address of their connection, which is a pointer: no two connections share one.
\<close>

section \<open>TCP peers\<close>

type_synonym net_addr = nat

record TCPPeer =
  peer_closed :: bool
  conn_open :: bool
  conn_broken :: bool
  conn_written :: "bytes list"

datatype send_error = ErrConnClosed | ErrSendFailed

text \<open>A failed write marks the peer as closed, but leaves its connection open.\<close>

definition Send :: "TCPPeer \<Rightarrow> bytes \<Rightarrow> send_error option \<times> TCPPeer" where
  "Send p b =
     (if peer_closed p then (Some ErrConnClosed, p)
      else if conn_broken p then (Some ErrSendFailed, p\<lparr>peer_closed := True\<rparr>)
      else (None, p\<lparr>conn_written := conn_written p @ [b]\<rparr>))"

definition Peer_Close :: "TCPPeer \<Rightarrow> TCPPeer" where
  "Peer_Close p =
     (if peer_closed p then p else p\<lparr>peer_closed := True, conn_open := False\<rparr>)"

section \<open>The reading loop\<close>

text \<open>
  The loop has one buffer of 4096 bytes. A read fills the beginning of it with some of the bytes
  that the connection still has for it; the payload is not a copy but the part of the buffer the
  read filled. The channel to the main loop holds nothing: the loop waits until the main loop takes
  the payload. Then the loop may read again while the main loop decodes, into the bytes the main
  loop is looking at. \<open>Conn_Read\<close> is a read of \<open>n\<close> bytes, \<open>payload_bytes\<close> what a payload of \<open>n\<close> bytes
  holds when it is decoded, which is one step: the decoder copies the payload first.
\<close>

definition Conn_Read :: "nat \<Rightarrow> bytes \<Rightarrow> bytes \<Rightarrow> bytes \<times> bytes" where
  "Conn_Read n buf stream =
     (let k = min n (min (length buf) (length stream)) in (take k stream @ drop k buf, drop k stream))"

definition payload_bytes :: "nat \<Rightarrow> bytes \<Rightarrow> bytes" where
  "payload_bytes n buf = take n buf"

record reader =
  rd_buf :: bytes
  rd_stream :: bytes
  rd_offered :: "nat option"
  rd_taken :: "nat option"
  rd_over :: bool
  rd_peer :: TCPPeer

definition start_reader :: "bytes \<Rightarrow> TCPPeer \<Rightarrow> reader" where
  "start_reader stream p = \<lparr>rd_buf = replicate 4096 0, rd_stream = stream, rd_offered = None,
     rd_taken = None, rd_over = False, rd_peer = p\<rparr>"

text \<open>
  The steps of the loop (a read of \<open>n\<close> bytes; the end of the stream or an error, after either of
  which the peer is marked as closed) and of the main loop (taking a payload, decoding it). A step
  gives what it decoded; \<open>None\<close> is a step that can not happen.
\<close>

datatype read_step = Reads nat | Ends | Takes | Decodes

fun reader_step :: "read_step \<Rightarrow> reader \<Rightarrow> (bytes list \<times> reader) option" where
  "reader_step (Reads n) r =
     (if rd_over r \<or> rd_offered r \<noteq> None then None
      else
        (case Conn_Read n (rd_buf r) (rd_stream r) of
           (buf, stream) \<Rightarrow>
             Some ([], r\<lparr>rd_buf := buf, rd_stream := stream,
                         rd_offered := Some (length (rd_stream r) - length stream)\<rparr>)))"
| "reader_step Ends r =
     (if rd_over r \<or> rd_offered r \<noteq> None then None
      else Some ([], r\<lparr>rd_over := True, rd_peer := (rd_peer r)\<lparr>peer_closed := True\<rparr>\<rparr>))"
| "reader_step Takes r =
     (case rd_offered r of
        None \<Rightarrow> None
      | Some n \<Rightarrow> if rd_taken r \<noteq> None then None else Some ([], r\<lparr>rd_offered := None, rd_taken := Some n\<rparr>))"
| "reader_step Decodes r =
     (case rd_taken r of
        None \<Rightarrow> None
      | Some n \<Rightarrow> Some ([payload_bytes n (rd_buf r)], r\<lparr>rd_taken := None\<rparr>))"

text \<open>A schedule of such steps, and all that was decoded.\<close>

primrec readLoop :: "read_step list \<Rightarrow> reader \<Rightarrow> (bytes list \<times> reader) option" where
  "readLoop [] r = Some ([], r)"
| "readLoop (s # ss) r =
     (case reader_step s r of
        None \<Rightarrow> None
      | Some (xs, r') \<Rightarrow> map_option (apfst ((@) xs)) (readLoop ss r'))"

section \<open>Sending to all peers\<close>

text \<open>The map of peers as the list of its entries in the order a range loop visits them.\<close>

type_synonym peers = "(net_addr \<times> TCPPeer) list"

primrec send_all :: "bytes \<Rightarrow> peers \<Rightarrow> peers \<times> net_addr list" where
  "send_all payload [] = ([], [])"
| "send_all payload (ap # aps) =
     (case Send (snd ap) payload of
        (err, p) \<Rightarrow>
          (case send_all payload aps of
             (aps', failed) \<Rightarrow>
               ((fst ap, p) # aps', if err = None then failed else fst ap # failed)))"

definition remove_peer :: "net_addr \<Rightarrow> peers \<Rightarrow> peers" where
  "remove_peer a ps = filter (\<lambda>ap. fst ap \<noteq> a) ps"

text \<open>
  \<open>broadcast\<close>: peers to which sending failed are closed and deleted from the map. The second
  component is the list of the peers that were dropped, as they were left.
\<close>

definition broadcast :: "bytes \<Rightarrow> peers \<Rightarrow> peers \<times> TCPPeer list" where
  "broadcast payload ps =
     (case send_all payload ps of
        (ps', failed) \<Rightarrow>
          (fold remove_peer failed ps',
           map (\<lambda>ap. Peer_Close (snd ap)) (filter (\<lambda>ap. fst ap \<in> set failed) ps')))"

lemma send_all_map: "fst (send_all x ps) = map (\<lambda>ap. (fst ap, snd (Send (snd ap) x))) ps"
  by (induction ps) (auto split: prod.split)

lemma fold_remove_peer: "fold remove_peer as ps = filter (\<lambda>ap. fst ap \<notin> set as) ps"
  by (induction as arbitrary: ps) (auto simp: remove_peer_def intro: filter_cong)

definition working :: "TCPPeer \<Rightarrow> bool" where
  "working p \<longleftrightarrow> \<not> peer_closed p \<and> \<not> conn_broken p"

lemma Send_working: "fst (Send p x) = None \<longleftrightarrow> working p"
  "working p \<Longrightarrow> snd (Send p x) = p\<lparr>conn_written := conn_written p @ [x]\<rparr>"
  by (auto simp: Send_def working_def)

lemma send_all_failed: "snd (send_all x ps) = map fst (filter (\<lambda>ap. \<not> working (snd ap)) ps)"
proof (induction ps)
  case (Cons ap ps)
  obtain err p where e: "Send (snd ap) x = (err, p)" by (cases "Send (snd ap) x")
  then have "err = None \<longleftrightarrow> working (snd ap)" using Send_working(1) [of "snd ap" x] by simp
  with Cons e show ?case by (cases "send_all x ps") simp
qed simp

lemma failed_iff:
  assumes "distinct (map fst ps)" and "ap \<in> set ps"
  shows "fst ap \<in> set (snd (send_all x ps)) \<longleftrightarrow> \<not> working (snd ap)"
proof -
  have "inj_on fst (set ps)" using assms(1) by (simp add: distinct_map)
  from inj_on_image_mem_iff [OF this assms(2), of "{bp \<in> set ps. \<not> working (snd bp)}"]
  show ?thesis using assms(2) by (simp add: send_all_failed)
qed

lemma broadcast_kept:
  assumes "distinct (map fst ps)"
  shows "fst (broadcast x ps)
    = map (\<lambda>ap. (fst ap, snd (Send (snd ap) x))) (filter (\<lambda>ap. working (snd ap)) ps)"
proof -
  have "fst (broadcast x ps) = filter (\<lambda>ap. fst ap \<notin> set (snd (send_all x ps))) (fst (send_all x ps))"
    by (simp add: broadcast_def fold_remove_peer split: prod.split)
  also have "\<dots> = map (\<lambda>ap. (fst ap, snd (Send (snd ap) x)))
      (filter (\<lambda>ap. fst ap \<notin> set (snd (send_all x ps))) ps)"
    by (simp add: send_all_map filter_map comp_def)
  also have "filter (\<lambda>ap. fst ap \<notin> set (snd (send_all x ps))) ps = filter (\<lambda>ap. working (snd ap)) ps"
    using failed_iff [OF assms] by (intro filter_cong) auto
  finally show ?thesis .
qed

text \<open>
  C38: a broadcast writes the payload exactly once to every working peer and keeps those peers;
  every other peer is deleted from the map, but its connection is left as open as it was.
\<close>

theorem broadcast_spec:
  assumes "distinct (map fst ps)"
  shows "fst (broadcast x ps)
      = map (\<lambda>ap. (fst ap, (snd ap)\<lparr>conn_written := conn_written (snd ap) @ [x]\<rparr>))
          (filter (\<lambda>ap. working (snd ap)) ps)
    \<and> (\<forall>p\<in>set (snd (broadcast x ps)). peer_closed p
        \<and> (\<exists>ap\<in>set ps. \<not> working (snd ap) \<and> conn_open p = conn_open (snd ap)))"
proof -
  have "fst (broadcast x ps)
      = map (\<lambda>ap. (fst ap, (snd ap)\<lparr>conn_written := conn_written (snd ap) @ [x]\<rparr>))
          (filter (\<lambda>ap. working (snd ap)) ps)"
    unfolding broadcast_kept [OF assms] by (simp add: Send_working)
  moreover have "peer_closed p \<and> (\<exists>ap\<in>set ps. \<not> working (snd ap) \<and> conn_open p = conn_open (snd ap))"
    if "p \<in> set (snd (broadcast x ps))" for p
  proof -
    have "snd (broadcast x ps) = map (\<lambda>ap. Peer_Close (snd ap))
        (filter (\<lambda>ap. fst ap \<in> set (snd (send_all x ps)))
          (map (\<lambda>ap. (fst ap, snd (Send (snd ap) x))) ps))"
      by (simp add: broadcast_def send_all_map [symmetric] split: prod.split)
    with that obtain ap where ap: "ap \<in> set ps" "fst ap \<in> set (snd (send_all x ps))"
      and p: "p = Peer_Close (snd (Send (snd ap) x))" by auto
    from ap have "\<not> working (snd ap)" using failed_iff [OF assms] by blast
    with ap(1) p show ?thesis by (auto simp: Send_def Peer_Close_def working_def)
  qed
  ultimately show ?thesis by blast
qed

section \<open>What the main loop decodes\<close>



lemma Conn_Read_message:
  "length m \<le> length buf \<Longrightarrow> Conn_Read (length m) buf (m @ rest) = (m @ drop (length m) buf, rest)"
  by (simp add: Conn_Read_def Let_def)













text \<open>
  C40: of two messages of one length, the second read before the first is decoded, the main loop
  decodes the second one twice and the first one never.
\<close>

theorem late_payload:
  assumes "length m1 \<le> 4096" and "length m2 = length m1"
  shows "\<exists>r. readLoop [Reads (length m1), Takes, Reads (length m2), Decodes, Takes, Decodes]
      (start_reader (m1 @ m2 @ rest) p) = Some ([m2, m2], r) \<and> rd_stream r = rest"
proof -
  let ?buf = "replicate 4096 0 :: bytes"
  have "Conn_Read (length m1) ?buf (m1 @ m2 @ rest) = (m1 @ drop (length m1) ?buf, m2 @ rest)"
    using assms(1) by (intro Conn_Read_message) simp
  moreover have "Conn_Read (length m2) (m1 @ drop (length m1) ?buf) (m2 @ rest)
      = (m2 @ drop (length m1) ?buf, rest)"
    using Conn_Read_message [of m2 "m1 @ drop (length m1) ?buf" rest] assms by simp
  ultimately show ?thesis
    using assms by (simp add: start_reader_def payload_bytes_def)
qed

section \<open>Local transports\<close>

text \<open>
  The transports of one process, by address. A channel holds 1024 messages; sending to a full
  one blocks. \<open>Connect\<close> is given another transport, whose address is the key.
\<close>

record LocalTransport =
  consumeCh :: "(net_addr \<times> bytes) list"
  lt_peers :: "net_addr list"

type_synonym local_net = "net_addr \<rightharpoonup> LocalTransport"

definition NewLocalTransport :: LocalTransport where
  "NewLocalTransport = \<lparr>consumeCh = [], lt_peers = []\<rparr>"

definition Connect :: "net_addr \<Rightarrow> net_addr \<Rightarrow> local_net \<Rightarrow> local_net" where
  "Connect me other net =
     (case net me of
        None \<Rightarrow> net
      | Some t \<Rightarrow> net(me \<mapsto> t\<lparr>lt_peers := List.insert other (lt_peers t)\<rparr>))"

datatype local_error = ErrUnknownPeer net_addr

definition SendMessage ::
  "net_addr \<Rightarrow> net_addr \<Rightarrow> bytes \<Rightarrow> (local_error option, local_net) prog" where
  "SendMessage me to payload net =
     (case net me of
        None \<Rightarrow> Panics net
      | Some t \<Rightarrow>
          if me = to then Returns None net
          else if to \<notin> set (lt_peers t) then Returns (Some (ErrUnknownPeer to)) net
          else
            (case net to of
               None \<Rightarrow> Panics net
             | Some q \<Rightarrow>
                 if 1024 \<le> length (consumeCh q) then Blocks net
                 else Returns None (net(to \<mapsto> q\<lparr>consumeCh := consumeCh q @ [(me, payload)]\<rparr>))))"

primrec send_each ::
  "net_addr \<Rightarrow> bytes \<Rightarrow> net_addr list \<Rightarrow> (local_error option, local_net) prog" where
  "send_each me payload [] = ret None"
| "send_each me payload (a # as) =
     seq (SendMessage me a payload) (\<lambda>err. if err = None then send_each me payload as else ret err)"

definition Local_Broadcast :: "net_addr \<Rightarrow> bytes \<Rightarrow> (local_error option, local_net) prog" where
  "Local_Broadcast me payload net =
     (case net me of None \<Rightarrow> Panics net | Some t \<Rightarrow> send_each me payload (lt_peers t) net)"

text \<open>\<open>Consume\<close> hands out the channel; receiving takes the first message, or waits.\<close>

definition Receive :: "net_addr \<Rightarrow> local_net \<Rightarrow> ((net_addr \<times> bytes) \<times> local_net) option" where
  "Receive me net =
     (case net me of
        None \<Rightarrow> None
      | Some t \<Rightarrow>
          (case consumeCh t of
             [] \<Rightarrow> None
           | m # ms \<Rightarrow> Some (m, net(me \<mapsto> t\<lparr>consumeCh := ms\<rparr>))))"

text \<open>The network in which everybody's channel has room and every peer exists.\<close>

definition net_ready :: "local_net \<Rightarrow> net_addr list \<Rightarrow> bool" where
  "net_ready net as \<longleftrightarrow> (\<forall>a\<in>set as. \<exists>q. net a = Some q \<and> length (consumeCh q) < 1024)"

lemma send_each_delivers:
  assumes "distinct as" and "me \<notin> set as" and "net me = Some t" and "set as \<subseteq> set (lt_peers t)"
    and "net_ready net as"
  shows "\<exists>net'. send_each me x as net = Returns None net' \<and> net' me = Some t
    \<and> (\<forall>a q. net a = Some q \<longrightarrow> net' a =
        (if a \<in> set as then Some (q\<lparr>consumeCh := consumeCh q @ [(me, x)]\<rparr>) else Some q))"
  using assms
proof (induction as arbitrary: net)
  case Nil
  then show ?case by simp
next
  case (Cons a as)
  from Cons.prems(5) obtain q where q: "net a = Some q" "length (consumeCh q) < 1024"
    by (auto simp: net_ready_def)
  let ?net = "net(a \<mapsto> q\<lparr>consumeCh := consumeCh q @ [(me, x)]\<rparr>)"
  have s: "SendMessage me a x net = Returns None ?net"
    using Cons.prems q by (auto simp: SendMessage_def)
  have "net_ready ?net as" using Cons.prems(1,5) by (auto simp: net_ready_def)
  moreover have "distinct as" "me \<notin> set as" "?net me = Some t" "set as \<subseteq> set (lt_peers t)"
    using Cons.prems by auto
  ultimately obtain net' where n: "send_each me x as ?net = Returns None net'"
    "net' me = Some t"
    "\<forall>b p. ?net b = Some p \<longrightarrow> net' b =
      (if b \<in> set as then Some (p\<lparr>consumeCh := consumeCh p @ [(me, x)]\<rparr>) else Some p)"
    using Cons.IH [of ?net] by blast
  have "send_each me x (a # as) net = Returns None net'" by (simp add: seq_def s n(1))
  moreover have "\<forall>b p. net b = Some p \<longrightarrow> net' b =
      (if b \<in> set (a # as) then Some (p\<lparr>consumeCh := consumeCh p @ [(me, x)]\<rparr>) else Some p)"
  proof (intro allI impI)
    fix b p
    assume "net b = Some p"
    then show "net' b =
      (if b \<in> set (a # as) then Some (p\<lparr>consumeCh := consumeCh p @ [(me, x)]\<rparr>) else Some p)"
      using n(3) [rule_format, of b] q(1) Cons.prems(1) by (cases "b = a") auto
  qed
  ultimately show ?case using n(2) by blast
qed

text \<open>
  A local broadcast with room in every channel returns and appends the payload, with the
  sender's address, to the channel of every peer exactly once and to no other; a peer whose
  channel was empty receives it next.
\<close>

theorem Local_Broadcast_delivers:
  assumes me: "net me = Some t" and "distinct (lt_peers t)" and "me \<notin> set (lt_peers t)"
    and ready: "net_ready net (lt_peers t)"
  shows "\<exists>net'. Local_Broadcast me x net = Returns None net'
    \<and> (\<forall>a q. net a = Some q \<longrightarrow> net' a = (if a \<in> set (lt_peers t)
        then Some (q\<lparr>consumeCh := consumeCh q @ [(me, x)]\<rparr>) else Some q))
    \<and> (\<forall>a\<in>set (lt_peers t). \<forall>q. net a = Some q \<longrightarrow> consumeCh q = []
        \<longrightarrow> (\<exists>net''. Receive a net' = Some ((me, x), net'')))"
proof -
  obtain net' where n: "send_each me x (lt_peers t) net = Returns None net'"
    and d: "\<forall>a q. net a = Some q \<longrightarrow> net' a = (if a \<in> set (lt_peers t)
        then Some (q\<lparr>consumeCh := consumeCh q @ [(me, x)]\<rparr>) else Some q)"
    using send_each_delivers [OF assms(2,3) me subset_refl ready] by blast
  have "Local_Broadcast me x net = Returns None net'" by (simp add: Local_Broadcast_def me n)
  moreover have "\<forall>a\<in>set (lt_peers t). \<forall>q. net a = Some q \<longrightarrow> consumeCh q = []
      \<longrightarrow> (\<exists>net''. Receive a net' = Some ((me, x), net''))"
    using d by (simp add: Receive_def)
  ultimately show ?thesis using d by blast
qed

text \<open>Closed instances.\<close>

definition demo_peer :: TCPPeer where
  "demo_peer = \<lparr>peer_closed = False, conn_open = True, conn_broken = False, conn_written = []\<rparr>"

theorem broadcast_spec_witness:
  "fst (broadcast [1] [(1, demo_peer), (2, demo_peer\<lparr>conn_broken := True\<rparr>)])
    = [(1, demo_peer\<lparr>conn_written := [[1]]\<rparr>)]"
proof -
  have "distinct (map fst [(1 :: net_addr, demo_peer), (2, demo_peer\<lparr>conn_broken := True\<rparr>)])" by simp
  from broadcast_spec [OF this, of "[1]"] show ?thesis by (simp add: working_def demo_peer_def)
qed


theorem late_payload_witness:
  "\<exists>r. readLoop [Reads 2, Takes, Reads 2, Decodes, Takes, Decodes] (start_reader [1, 2, 3, 4] demo_peer)
    = Some ([[3, 4], [3, 4]], r)"
  using late_payload [of "[1, 2]" "[3, 4]" "[]" demo_peer] by (auto simp: numeral_2_eq_2 simp del: readLoop.simps)

theorem Local_Broadcast_delivers_witness:
  "\<exists>net'. Local_Broadcast 1 [5] [1 \<mapsto> \<lparr>consumeCh = [], lt_peers = [2]\<rparr>, 2 \<mapsto> NewLocalTransport]
      = Returns None net' \<and> net' 2 = Some \<lparr>consumeCh = [(1, [5])], lt_peers = []\<rparr>"
proof -
  let ?net = "[1 \<mapsto> \<lparr>consumeCh = [], lt_peers = [2]\<rparr>, 2 \<mapsto> NewLocalTransport] :: local_net"
  let ?t = "\<lparr>consumeCh = [], lt_peers = [2]\<rparr> :: LocalTransport"
  have "?net 1 = Some ?t" "distinct (lt_peers ?t)" "1 \<notin> set (lt_peers ?t)" "net_ready ?net (lt_peers ?t)"
    by (simp_all add: net_ready_def NewLocalTransport_def)
  from Local_Broadcast_delivers [of ?net 1 ?t "[5]", OF this] show ?thesis
    by (auto simp: NewLocalTransport_def)
qed

end
