(* ===== verification/Server.thy ===== *)
theory Server
  imports Chain_Hazards Tx_Pool Messages Transport
begin

text \<open>
  \<open>network/server.go\<close>: the node. It owns a chain, a memory pool and a map of peers, and reacts to
  new peers, transactions from the API, payloads from peers and the ticks of the validator. A
  handler runs on the server as state. Goroutines that a handler starts (\<open>go s.broadcastTx\<close>,
  \<open>go s.broadcastBlock\<close>) are tasks that run later. Log lines are left out, except that they ask
  for a block's hash and so read its header, which panics when it is missing.
\<close>

section \<open>State\<close>

datatype task = TaskTx Transaction | TaskBlock Block

record Server =
  srv_chain :: Blockchain
  srv_mempool :: TxPool
  srv_peers :: peers
  srv_PrivateKey :: "PrivateKey option"
  srv_ID :: string
  srv_tasks :: "task list"

datatype server_error =
  SrvTx tx_error
| SrvVerify block_error
| SrvAdd chain_error
| SrvHeader chain_error
| SrvNewBlock block_error
| SrvHeight u32 u32
| SrvSign block_error
| SrvPeer net_addr
| SrvSend send_error
| SrvEncode

type_synonym 'a handler = "('a, Server) prog"

definition isValidator :: "Server \<Rightarrow> bool" where
  "isValidator s \<longleftrightarrow> srv_PrivateKey s \<noteq> None"

section \<open>Sending\<close>

definition update_peer :: "net_addr \<Rightarrow> TCPPeer \<Rightarrow> peers \<Rightarrow> peers" where
  "update_peer a p ps = map (\<lambda>ap. if fst ap = a then (a, p) else ap) ps"

definition send_to :: "net_addr \<Rightarrow> bytes \<Rightarrow> server_error option handler" where
  "send_to a x s =
     (case map_of (srv_peers s) a of
        None \<Rightarrow> Returns (Some (SrvPeer a)) s
      | Some peer \<Rightarrow>
          (case Send peer x of
             (err, peer') \<Rightarrow>
               Returns (map_option SrvSend err) (s\<lparr>srv_peers := update_peer a peer' (srv_peers s)\<rparr>)))"

definition srv_broadcast :: "bytes \<Rightarrow> server_error option handler" where
  "srv_broadcast x s = Returns None (s\<lparr>srv_peers := fst (broadcast x (srv_peers s))\<rparr>)"

definition broadcastTx :: "'z net_prims_scheme \<Rightarrow> Transaction \<Rightarrow> server_error option handler" where
  "broadcastTx P tx s =
     (case Transaction_Encode P tx [] of
        None \<Rightarrow> Returns (Some SrvEncode) s
      | Some x \<Rightarrow> srv_broadcast (payload P MessageTypeTx x) s)"

text \<open>\<open>broadcastBlock\<close> repeats the loop of \<open>broadcast\<close> with other log lines.\<close>

definition broadcastBlock :: "'z net_prims_scheme \<Rightarrow> Block \<Rightarrow> server_error option handler" where
  "broadcastBlock P b s =
     (case Block_Encode P b [] of
        None \<Rightarrow> Returns (Some SrvEncode) s
      | Some x \<Rightarrow> srv_broadcast (payload P MessageTypeBlock x) s)"

definition sendGetStatusMessage ::
  "'z net_prims_scheme \<Rightarrow> net_addr \<Rightarrow> server_error option handler" where
  "sendGetStatusMessage P a = send_to a (payload P MessageTypeGetStatus (gob_getstatus P))"

definition sendGetBlocksMessage ::
  "'z net_prims_scheme \<Rightarrow> net_addr \<Rightarrow> GetBlocksMessage \<Rightarrow> server_error option handler" where
  "sendGetBlocksMessage P a msg =
     send_to a (payload P MessageTypeGetBlocks (GetBlocksMessage_Encode P msg))"

section \<open>Transactions and blocks\<close>

definition spawn :: "task \<Rightarrow> Server \<Rightarrow> Server" where
  "spawn t s = s\<lparr>srv_tasks := srv_tasks s @ [t]\<rparr>"

text \<open>The lookup uses the hash field as it came; it is computed only by \<open>Verify\<close> and \<open>Add\<close>.\<close>

definition processTransaction ::
  "'z net_prims_scheme \<Rightarrow> Transaction \<Rightarrow> server_error option handler" where
  "processTransaction P tx s =
     (if TxPool_Contains (srv_mempool s) (tx_TxHash tx) then Returns None s
      else
        (case Transaction_Verify P tx of
           Panics _ \<Rightarrow> Panics s
         | Blocks _ \<Rightarrow> Blocks s
         | Returns err tx' \<Rightarrow>
             (case err of
                Some e \<Rightarrow> Returns (Some (SrvTx e)) s
              | None \<Rightarrow>
                  map_outcome (\<lambda>_. None)
                    (\<lambda>(pool, _). (spawn (TaskTx tx') s)\<lparr>srv_mempool := pool\<rparr>)
                    (TxPool_Add P (srv_mempool s, tx')))))"

text \<open>Removing the transactions of a block from the pool.\<close>

primrec remove_txs :: "'z net_prims_scheme \<Rightarrow> Transaction list \<Rightarrow> unit handler" where
  "remove_txs P [] s = Returns () s"
| "remove_txs P (tx # txs) s =
     (case Transaction_Hash P tx of
        Returns h _ \<Rightarrow>
          (case TxPool_Remove (srv_mempool s) h of
             None \<Rightarrow> Panics s
           | Some pool \<Rightarrow> remove_txs P txs (s\<lparr>srv_mempool := pool\<rparr>))
      | Panics _ \<Rightarrow> Panics s
      | Blocks _ \<Rightarrow> Blocks s)"

text \<open>
  What \<open>processBlock\<close> and the loop of \<open>processBlocksMessage\<close> do alike: verify the block, add it to
  the chain, and remove its transactions, which are those that succeeded, from the pool.
\<close>

datatype accepting = Rejected server_error | Known | Accepted Block

definition accept_block ::
  "'z net_prims_scheme \<Rightarrow> disk \<Rightarrow> net_block \<Rightarrow> accepting handler" where
  "accept_block P d nb s =
     (case nb of
        None \<Rightarrow> Panics s
      | Some b \<Rightarrow>
          (case Block_Verify P (out_state (Block_Hash P b)) of
             Panics _ \<Rightarrow> Panics s
           | Blocks _ \<Rightarrow> Blocks s
           | Returns err b1 \<Rightarrow>
               (case err of
                  Some e \<Rightarrow> Returns (Rejected (SrvVerify e)) s
                | None \<Rightarrow>
                    (case AddBlock P d (ValidateBlock P) (srv_chain s, b1) of
                       Panics t \<Rightarrow> Panics (s\<lparr>srv_chain := fst t\<rparr>)
                     | Blocks t \<Rightarrow> Blocks (s\<lparr>srv_chain := fst t\<rparr>)
                     | Returns err t \<Rightarrow>
                         (case err of
                            Some e \<Rightarrow>
                              Returns (if e = ErrBlockKnown then Known else Rejected (SrvAdd e))
                                (s\<lparr>srv_chain := fst t\<rparr>)
                          | None \<Rightarrow>
                              seq (remove_txs P (blk_Transactions (snd t)))
                                (\<lambda>_. ret (Accepted (snd t))) (s\<lparr>srv_chain := fst t\<rparr>))))))"

definition processBlock ::
  "'z net_prims_scheme \<Rightarrow> disk \<Rightarrow> net_block \<Rightarrow> server_error option handler" where
  "processBlock P d nb =
     seq (accept_block P d nb) (\<lambda>r.
       case r of
         Rejected e \<Rightarrow> ret (Some e)
       | Known \<Rightarrow> ret None
       | Accepted b \<Rightarrow> seq (broadcastBlock P b) (\<lambda>_. ret None))"

primrec processBlocksMessage ::
  "'z net_prims_scheme \<Rightarrow> disk \<Rightarrow> net_block list \<Rightarrow> server_error option handler" where
  "processBlocksMessage P d [] = ret None"
| "processBlocksMessage P d (nb # nbs) =
     seq (accept_block P d nb) (\<lambda>r s.
       processBlocksMessage P d nbs (case r of Accepted b \<Rightarrow> spawn (TaskBlock b) s | _ \<Rightarrow> s))"

section \<open>Synchronisation\<close>

definition processStatusMessage ::
  "'z net_prims_scheme \<Rightarrow> net_addr \<Rightarrow> StatusMessage \<Rightarrow> server_error option handler" where
  "processStatusMessage P a st s =
     (if bc_Height (srv_chain s) < st_CurrentHeight st then
        sendGetBlocksMessage P a
          \<lparr>gb_From = bc_Height (srv_chain s) + 1, gb_To = st_CurrentHeight st\<rparr> s
      else Returns None s)"

definition processGetStatusMessage ::
  "'z net_prims_scheme \<Rightarrow> net_addr \<Rightarrow> server_error option handler" where
  "processGetStatusMessage P a s =
     send_to a (payload P MessageTypeStatus (gob_status P
       \<lparr>st_ID = srv_ID s, st_Version = 0, st_CurrentHeight = bc_Height (srv_chain s)\<rparr>)) s"

text \<open>
  The loop over the heights. It counts up in 32 bits, so with the largest number as its end it
  does not stop: \<open>None\<close>. The inner \<open>None\<close> is a panic of \<open>GetBlock\<close>.
\<close>

partial_function (option) collect_blocks ::
  "Blockchain \<Rightarrow> u32 \<Rightarrow> u32 \<Rightarrow> Block list \<Rightarrow> Block list option option" where
  "collect_blocks bc height endHeight blocks =
     (if endHeight < height then Some (Some blocks)
      else
        (case GetBlock bc height of
           None \<Rightarrow> Some None
         | Some (Inl _) \<Rightarrow> collect_blocks bc (height + 1) endHeight blocks
         | Some (Inr b) \<Rightarrow> collect_blocks bc (height + 1) endHeight (blocks @ [b])))"

text \<open>A loop that does not end blocks the node as a lock does.\<close>

definition processGetBlocksMessage ::
  "'z net_prims_scheme \<Rightarrow> net_addr \<Rightarrow> GetBlocksMessage \<Rightarrow> server_error option handler" where
  "processGetBlocksMessage P a g s =
     (let ourHeight = bc_Height (srv_chain s);
          endHeight = (if gb_To g = 0 then ourHeight else gb_To g);
          endHeight = (if ourHeight < endHeight then ourHeight else endHeight)
      in if ourHeight < gb_From g then Returns None s
         else
           (case collect_blocks (srv_chain s) (gb_From g) endHeight [] of
              None \<Rightarrow> Blocks s
            | Some None \<Rightarrow> Panics s
            | Some (Some blocks) \<Rightarrow>
                if blocks = [] then Returns None s
                else
                  (case gob_blocks P blocks of
                     None \<Rightarrow> Returns (Some SrvEncode) s
                   | Some x \<Rightarrow> send_to a (payload P MessageTypeBlocks x) s)))"

definition ProcessMessage ::
  "'z net_prims_scheme \<Rightarrow> disk \<Rightarrow> net_addr \<Rightarrow> decoded \<Rightarrow> server_error option handler" where
  "ProcessMessage P d a msg =
     (case msg of
        DTx tx \<Rightarrow> processTransaction P tx
      | DBlock nb \<Rightarrow> processBlock P d nb
      | DGetStatus \<Rightarrow> processGetStatusMessage P a
      | DStatus st \<Rightarrow> processStatusMessage P a st
      | DGetBlocks g \<Rightarrow> processGetBlocksMessage P a g
      | DBlocks nbs \<Rightarrow> processBlocksMessage P d nbs)"

section \<open>Block production\<close>

text \<open>
  \<open>now\<close> and \<open>rnd\<close> are the clock and the random numbers of the signature. The deferred \<open>recover\<close>
  turns a panic of the body into a return without an error, keeping what was done.
\<close>

definition recover_nil :: "server_error option handler \<Rightarrow> server_error option handler" where
  "recover_nil m s = (case m s of Panics t \<Rightarrow> Returns None t | r \<Rightarrow> r)"

definition add_own_block ::
  "'z net_prims_scheme \<Rightarrow> disk \<Rightarrow> Block \<Rightarrow> server_error option handler" where
  "add_own_block P d b s =
     (case AddBlock P d (ValidateBlock P) (srv_chain s, b) of
        Panics t \<Rightarrow> Panics (s\<lparr>srv_chain := fst t\<rparr>)
      | Blocks t \<Rightarrow> Blocks (s\<lparr>srv_chain := fst t\<rparr>)
      | Returns err t \<Rightarrow>
          (case err of
             Some e \<Rightarrow> Returns (if e = ErrBlockKnown then None else Some (SrvAdd e))
                         (s\<lparr>srv_chain := fst t\<rparr>)
           | None \<Rightarrow>
               seq (broadcastBlock P (snd t)) (\<lambda>_. ret None)
                 (s\<lparr>srv_chain := fst t, srv_mempool := ClearPending (srv_mempool s)\<rparr>)))"

definition create_body ::
  "'z net_prims_scheme \<Rightarrow> disk \<Rightarrow> i64 \<Rightarrow> nat \<Rightarrow> Header \<Rightarrow> server_error option handler" where
  "create_body P d now rnd currentHeader s =
     (case NewBlockFromPrevHeader P now currentHeader (Pending (srv_mempool s)) of
        Inl e \<Rightarrow> Returns (Some (SrvNewBlock e)) s
      | Inr block \<Rightarrow>
          if Height (blk_Header block) \<noteq> Height currentHeader + 1
          then Returns (Some (SrvHeight (Height currentHeader + 1) (Height (blk_Header block)))) s
          else
            (case srv_PrivateKey s of
               None \<Rightarrow> Panics s
             | Some k \<Rightarrow>
                 (case Block_Sign P k rnd block of
                    Panics _ \<Rightarrow> Panics s
                  | Blocks _ \<Rightarrow> Blocks s
                  | Returns err block' \<Rightarrow>
                      (case err of
                         Some e \<Rightarrow> Returns (Some (SrvSign e)) s
                       | None \<Rightarrow> add_own_block P d block' s))))"

definition createNewBlock ::
  "'z net_prims_scheme \<Rightarrow> disk \<Rightarrow> i64 \<Rightarrow> nat \<Rightarrow> server_error option handler" where
  "createNewBlock P d now rnd s =
     (case GetHeader (srv_chain s) (bc_Height (srv_chain s)) of
        None \<Rightarrow> Panics s
      | Some (Inl e) \<Rightarrow> Returns (Some (SrvHeader e)) s
      | Some (Inr h) \<Rightarrow> recover_nil (create_body P d now rnd h) s)"

text \<open>\<open>None\<close> is the panic when signing fails.\<close>

definition genesis_tx :: "i64 \<Rightarrow> Transaction" where
  "genesis_tx nonce = (NewTransaction [] nonce)\<lparr>tx_From := [], tx_To := [], tx_Value := 10000000\<rparr>"

definition genesisBlock :: "'z net_prims_scheme \<Rightarrow> i64 \<Rightarrow> PrivateKey \<Rightarrow> nat \<Rightarrow> Block option" where
  "genesisBlock P nonce privKey rnd =
     (let header = \<lparr>Version = 1, DataHash = zero_hash, PrevBlockHash = zero_hash, Height = 0,
            Timestamp = 0\<rparr>;
          b = NewBlock header [];
          b = b\<lparr>blk_Transactions := blk_Transactions b @ [genesis_tx nonce]\<rparr>
      in case Block_Sign P privKey rnd b of
           Returns None b' \<Rightarrow> Some b'
         | _ \<Rightarrow> None)"

section \<open>The node and its events\<close>

text \<open>\<open>None\<close> is a failed or panicking start; the error of adding the genesis block is one.\<close>

definition NewServer ::
  "'z net_prims_scheme \<Rightarrow> disk \<Rightarrow> startup \<Rightarrow> store_package \<Rightarrow> Block \<Rightarrow> PrivateKey option \<Rightarrow> string
   \<Rightarrow> Server option" where
  "NewServer P d e g genesis key sid =
     (case NewBlockchain P d e g genesis of
        Inr (Returns None t) \<Rightarrow>
          Some \<lparr>srv_chain = fst t, srv_mempool = NewTxPool 1000, srv_peers = [],
            srv_PrivateKey = key, srv_ID = sid, srv_tasks = []\<rparr>
      | _ \<Rightarrow> None)"

datatype event =
  EvPeer net_addr TCPPeer
| EvTx Transaction
| EvRpc net_addr bytes
| EvTick i64 nat
| EvTask

text \<open>An existing peer under the address is closed and replaced, and asked for its status.\<close>

definition add_peer :: "'z net_prims_scheme \<Rightarrow> net_addr \<Rightarrow> TCPPeer \<Rightarrow> server_error option handler" where
  "add_peer P a p s =
     sendGetStatusMessage P a (s\<lparr>srv_peers := (a, p) # remove_peer a (srv_peers s)\<rparr>)"

definition run_task :: "'z net_prims_scheme \<Rightarrow> server_error option handler" where
  "run_task P s =
     (case srv_tasks s of
        [] \<Rightarrow> Returns None s
      | t # ts \<Rightarrow>
          (case t of
             TaskTx tx \<Rightarrow> broadcastTx P tx (s\<lparr>srv_tasks := ts\<rparr>)
           | TaskBlock b \<Rightarrow> broadcastBlock P b (s\<lparr>srv_tasks := ts\<rparr>)))"

text \<open>
  One turn of the loop of \<open>Start\<close>, or one tick of \<open>validatorLoop\<close>, which only a validator runs. The
  error is logged and dropped.
\<close>

definition handle_event ::
  "'z net_prims_scheme \<Rightarrow> disk \<Rightarrow> event \<Rightarrow> server_error option handler" where
  "handle_event P d ev s =
     (case ev of
        EvPeer a p \<Rightarrow> add_peer P a p s
      | EvTx tx \<Rightarrow> processTransaction P tx s
      | EvRpc a x \<Rightarrow>
          (case DefaultRPCDecodeFunc P x of
             Inl _ \<Rightarrow> Returns None s
           | Inr msg \<Rightarrow> ProcessMessage P d a msg s)
      | EvTick now rnd \<Rightarrow> if isValidator s then createNewBlock P d now rnd s else Returns None s
      | EvTask \<Rightarrow> run_task P s)"

end
