(* ===== verification/Server_Safety.thy ===== *)
theory Server_Safety
  imports Server
begin

text \<open>
  Relations between the states of a node that every event keeps, however its handler ends. A
  preorder is kept by all handlers as soon as it is kept by the elementary updates: adding a
  block through the validator, the pool operations, and changes of peers and tasks. The invariant
  of a node is one such relation; that a node whose chain is locked never changes its chain is
  another.
\<close>

section \<open>Relations kept by the elementary updates\<close>

text \<open>
  The handlers fall into those that write to peers and take transactions, those that take blocks,
  and those that do both; a relation is kept by a group as soon as the updates of the group keep it.
\<close>

locale task_relation = state_preorder R for R :: "Server \<Rightarrow> Server \<Rightarrow> bool" +
  assumes tasks_update: "R s (s\<lparr>srv_tasks := ts\<rparr>)"

locale peer_relation = task_relation R for R :: "Server \<Rightarrow> Server \<Rightarrow> bool" +
  fixes P :: "'z net_prims_scheme"
  assumes peers_update: "(distinct (map fst (srv_peers s)) \<Longrightarrow> distinct (map fst ps))
      \<Longrightarrow> R s (s\<lparr>srv_peers := ps\<rparr>)"
    and pool_add: "Transaction_Verify P tx0 = Returns None tx
      \<Longrightarrow> R s (s\<lparr>srv_mempool := fst (out_state (TxPool_Add P (srv_mempool s, tx)))\<rparr>)"
begin

lemma keeps_send_to: "keeps R (send_to a x)"
proof -
  have "map fst (update_peer a p ps) = map fst ps" for p ps by (simp add: update_peer_def)
  then show ?thesis
    by (auto simp: keeps_def send_to_def intro!: peers_update split: option.split prod.split)
qed

lemma keeps_srv_broadcast: "keeps R (srv_broadcast x)"
proof -
  have "distinct (map fst (fst (broadcast x ps)))" if "distinct (map fst ps)" for ps
  proof -
    have "map fst (fst (broadcast x ps)) = map fst (filter (\<lambda>ap. working (snd ap)) ps)"
      by (simp add: broadcast_kept [OF that])
    then show ?thesis using that by (simp add: distinct_map_filter)
  qed
  then show ?thesis by (auto simp: keeps_def srv_broadcast_def intro!: peers_update)
qed

lemma keeps_broadcastTx: "keeps R (broadcastTx P tx)"
  using keeps_out [OF keeps_srv_broadcast] by (auto simp: keeps_def broadcastTx_def split: option.split)

lemma keeps_broadcastBlock: "keeps R (broadcastBlock P b)"
  using keeps_out [OF keeps_srv_broadcast] by (auto simp: keeps_def broadcastBlock_def split: option.split)

lemma keeps_processTransaction: "keeps R (processTransaction P tx)"
  unfolding keeps_def
proof
  fix s
  show "R s (out_state (processTransaction P tx s))"
  proof (cases "Transaction_Verify P tx")
    case (Returns err tx')
    show ?thesis
    proof (cases err)
      case None
      let ?s = "spawn (TaskTx tx') s"
      have "R s ?s" unfolding spawn_def by (rule tasks_update)
      moreover have "R ?s (?s\<lparr>srv_mempool := fst (out_state (TxPool_Add P (srv_mempool ?s, tx')))\<rparr>)"
        using Returns None by (intro pool_add) simp
      moreover have "srv_mempool ?s = srv_mempool s" by (simp add: spawn_def)
      ultimately have "R s (?s\<lparr>srv_mempool := fst (out_state (TxPool_Add P (srv_mempool s, tx')))\<rparr>)"
        using trans [of s ?s] by metis
      with Returns None show ?thesis
        by (cases "TxPool_Add P (srv_mempool s, tx')") (auto simp: processTransaction_def)
    qed (use Returns in \<open>simp add: processTransaction_def\<close>)
  qed (simp_all add: processTransaction_def)
qed

lemma keeps_messages:
  "keeps R (processGetBlocksMessage P a g)" "keeps R (processStatusMessage P a st)"
  "keeps R (processGetStatusMessage P a)"
  using keeps_out [OF keeps_send_to]
  by (auto simp: keeps_def processGetBlocksMessage_def processStatusMessage_def
      processGetStatusMessage_def sendGetBlocksMessage_def Let_def split: option.split)

lemma keeps_add_peer: "keeps R (add_peer P a p)"
  unfolding keeps_def
proof
  fix s
  have "R s (s\<lparr>srv_peers := (a, p) # remove_peer a (srv_peers s)\<rparr>)"
    by (rule peers_update) (auto simp: remove_peer_def distinct_map_filter)
  then show "R s (out_state (add_peer P a p s))"
    unfolding add_peer_def sendGetStatusMessage_def
    by (rule trans) (rule keeps_out [OF keeps_send_to])
qed

lemma keeps_run_task: "keeps R (run_task P)"
  unfolding keeps_def
proof
  fix s
  have "R s (out_state (broadcastTx P tx (s\<lparr>srv_tasks := ts\<rparr>)))"
    and "R s (out_state (broadcastBlock P b (s\<lparr>srv_tasks := ts\<rparr>)))" for ts tx b
    by (rule trans [OF tasks_update keeps_out [OF keeps_broadcastTx]],
        rule trans [OF tasks_update keeps_out [OF keeps_broadcastBlock]])
  then show "R s (out_state (run_task P s))"
    by (auto simp: run_task_def split: list.split task.split)
qed

end

locale block_relation = task_relation R for R :: "Server \<Rightarrow> Server \<Rightarrow> bool" +
  fixes P :: "'z net_prims_scheme"
  assumes chain_update:
      "R s (s\<lparr>srv_chain := fst (out_state (AddBlock P d (ValidateBlock P) (srv_chain s, b)))\<rparr>)"
    and pool_remove: "TxPool_Remove (srv_mempool s) h = Some p \<Longrightarrow> R s (s\<lparr>srv_mempool := p\<rparr>)"
begin

lemma keeps_remove_txs: "keeps R (remove_txs P txs)"
  unfolding keeps_def
proof
  fix s
  show "R s (out_state (remove_txs P txs s))"
  proof (induction txs arbitrary: s)
    case (Cons tx txs)
    show ?case
    proof (cases "Transaction_Hash P tx")
      case (Returns h tx')
      show ?thesis
      proof (cases "TxPool_Remove (srv_mempool s) h")
        case (Some p)
        with Returns trans [OF pool_remove [OF Some] Cons.IH] show ?thesis by simp
      qed (use Returns in simp)
    qed simp_all
  qed simp
qed

lemma keeps_accept_block: "keeps R (accept_block P d nb)"
  unfolding keeps_def
proof
  fix s
  show "R s (out_state (accept_block P d nb s))"
  proof (cases nb)
    case (Some b)
    show ?thesis
    proof (cases "Block_Verify P (out_state (Block_Hash P b))")
      case (Returns err b1)
      note v = Returns
      note c = chain_update [of s d b1]
      show ?thesis
      proof (cases err)
        case None
        show ?thesis
        proof (cases "AddBlock P d (ValidateBlock P) (srv_chain s, b1)")
          case (Returns err' t)
          have "keeps R (seq (remove_txs P (blk_Transactions (snd t))) (\<lambda>_. ret (Accepted (snd t))))"
            by (intro keeps_seq keeps_remove_txs keeps_ret)
          from keeps_out [OF this, of "s\<lparr>srv_chain := fst t\<rparr>"] c trans show ?thesis
            using v None Some Returns by (auto simp: accept_block_def split: option.split)
        qed (use c v None Some in \<open>simp_all add: accept_block_def\<close>)
      qed (use v Some in \<open>simp add: accept_block_def\<close>)
    qed (use Some in \<open>simp_all add: accept_block_def\<close>)
  qed (simp add: accept_block_def)
qed

lemma keeps_processBlocksMessage: "keeps R (processBlocksMessage P d nbs)"
proof (induction nbs)
  case Nil
  then show ?case by (simp add: keeps_ret)
next
  case (Cons nb nbs)
  have "R s (case r of Accepted b \<Rightarrow> spawn (TaskBlock b) s | _ \<Rightarrow> s)" for r s
    by (auto simp: spawn_def intro: tasks_update split: accepting.split)
  then have "keeps R (\<lambda>s. processBlocksMessage P d nbs
      (case r of Accepted b \<Rightarrow> spawn (TaskBlock b) s | _ \<Rightarrow> s))" for r
    using keeps_out [OF Cons.IH] unfolding keeps_def by (blast intro: trans)
  then show ?case by (simp add: keeps_seq [OF keeps_accept_block])
qed

end

locale server_relation = peer_relation R P + block_relation R P
  for R :: "Server \<Rightarrow> Server \<Rightarrow> bool" and P :: "'z net_prims_scheme" +
  assumes pool_clear: "R s (s\<lparr>srv_mempool := ClearPending (srv_mempool s)\<rparr>)"
begin

lemma keeps_processBlock: "keeps R (processBlock P d nb)"
  unfolding processBlock_def
  by (rule keeps_seq [OF keeps_accept_block])
    (auto intro!: keeps_intros keeps_broadcastBlock split: accepting.split)

lemma keeps_ProcessMessage: "keeps R (ProcessMessage P d a msg)"
  by (auto simp: ProcessMessage_def intro: keeps_processTransaction keeps_processBlock
      keeps_processBlocksMessage keeps_messages split: decoded.split)

lemma keeps_add_own_block: "keeps R (add_own_block P d b)"
  unfolding keeps_def
proof
  fix s
  note c = chain_update [of s d b]
  show "R s (out_state (add_own_block P d b s))"
  proof (cases "AddBlock P d (ValidateBlock P) (srv_chain s, b)")
    case (Returns err t)
    let ?s = "s\<lparr>srv_chain := fst t\<rparr>"
    let ?s' = "s\<lparr>srv_chain := fst t, srv_mempool := ClearPending (srv_mempool s)\<rparr>"
    have "keeps R (seq (broadcastBlock P (snd t)) (\<lambda>_. ret None))"
      by (intro keeps_seq keeps_broadcastBlock keeps_ret)
    from keeps_out [OF this, of ?s'] pool_clear [of ?s] c Returns show ?thesis
      by (cases err) (auto simp: add_own_block_def intro: trans)
  qed (use c in \<open>simp_all add: add_own_block_def\<close>)
qed

lemma keeps_createNewBlock: "keeps R (createNewBlock P d now rnd)"
proof -
  have "keeps R (create_body P d now rnd h)" for h
    using keeps_out [OF keeps_add_own_block]
    by (auto simp: keeps_def create_body_def split: sum.split option.split outcome.split)
  moreover have "out_state (recover_nil m s) = out_state (m s)" for m s
    by (cases "m s") (simp_all add: recover_nil_def)
  ultimately show ?thesis
    by (auto simp: keeps_def createNewBlock_def split: option.split sum.split)
qed

lemma keeps_handle_event: "keeps R (handle_event P d ev)"
  using keeps_out [OF keeps_add_peer] keeps_out [OF keeps_processTransaction]
    keeps_out [OF keeps_ProcessMessage] keeps_out [OF keeps_createNewBlock]
    keeps_out [OF keeps_run_task]
  by (auto simp: keeps_def handle_event_def split: event.split sum.split)

end

section \<open>The invariant of a node\<close>

text \<open>
  The chain is in order, the pool is within its bound and has only verified transactions
  pending, and no address has two peers.
\<close>

definition pool_verified :: "'z tx_prims_scheme \<Rightarrow> TxPool \<Rightarrow> bool" where
  "pool_verified P p \<longleftrightarrow> (\<forall>tx\<in>set (Pending p). Transaction_Verify P tx = Returns None tx)"

definition srv_ok :: "'z net_prims_scheme \<Rightarrow> Server \<Rightarrow> bool" where
  "srv_ok P s \<longleftrightarrow> chain_ok P (srv_chain s) \<and> pool_ok P (srv_mempool s)
     \<and> pool_verified P (srv_mempool s) \<and> maxLength (srv_mempool s) = 1000
     \<and> distinct (map fst (srv_peers s))"

lemma Pending_items: "Pending p = items (pending p)"
  by (simp add: Pending_def items_def)

lemma pool_add_verified:
  fixes P :: "'z net_prims_scheme"
  assumes v: "Transaction_Verify P tx0 = Returns None tx" and p: "pool_ok P p" "pool_verified P p"
  obtains p' where "TxPool_Add P (p, tx) = Returns () (p', tx)" and "pool_ok P p'"
    and "pool_verified P p'" and "maxLength p' = maxLength p"
proof -
  from Transaction_Verify_again [OF v] have v': "Transaction_Verify P tx = Returns None tx" .
  then obtain h where h: "Transaction_Hash P tx = Returns h tx" by (auto elim: Transaction_Verify_accepted)
  obtain p' where p': "TxPool_Add P (p, tx) = Returns () (p', tx)" "pool_ok P p'"
    "maxLength p' = maxLength p" "items (pending p') =
      (if h \<in> set (keys_of (pruned (maxLength p) (items (all p)))) then items (pending p)
       else add_new (items (pending p)) tx)"
    using TxPool_Add_ok [OF p(1) h] by blast
  moreover have "pool_verified P p'"
    using p(2) v' p'(4) by (auto simp: pool_verified_def Pending_items add_new_def)
  ultimately show ?thesis using that by blast
qed

interpretation srv_inv: server_relation "\<lambda>s s'. srv_ok P s \<longrightarrow> srv_ok P s'" P
  for P :: "'z net_prims_scheme"
proof
  fix s :: Server and d b
  show "srv_ok P s \<longrightarrow> srv_ok P (s\<lparr>srv_chain
      := fst (out_state (AddBlock P d (ValidateBlock P) (srv_chain s, b)))\<rparr>)"
    by (simp add: srv_ok_def block_validator.AddBlock_chain_ok)
next
  fix s :: Server and tx0 tx
  assume v: "Transaction_Verify P tx0 = Returns None tx"
  show "srv_ok P s \<longrightarrow> srv_ok P
      (s\<lparr>srv_mempool := fst (out_state (TxPool_Add P (srv_mempool s, tx)))\<rparr>)"
  proof
    assume ok: "srv_ok P s"
    then have p: "pool_ok P (srv_mempool s)" "pool_verified P (srv_mempool s)"
      by (simp_all add: srv_ok_def)
    obtain p' where "TxPool_Add P (srv_mempool s, tx) = Returns () (p', tx)" "pool_ok P p'"
      "pool_verified P p'" "maxLength p' = maxLength (srv_mempool s)"
      using pool_add_verified [OF v p] by blast
    with ok show "srv_ok P (s\<lparr>srv_mempool := fst (out_state (TxPool_Add P (srv_mempool s, tx)))\<rparr>)"
      by (simp add: srv_ok_def)
  qed
next
  fix s :: Server and h p
  assume r: "TxPool_Remove (srv_mempool s) h = Some p"
  show "srv_ok P s \<longrightarrow> srv_ok P (s\<lparr>srv_mempool := p\<rparr>)"
  proof
    assume ok: "srv_ok P s"
    then have "pool_ok P (srv_mempool s)" by (simp add: srv_ok_def)
    then obtain p' where "TxPool_Remove (srv_mempool s) h = Some p'" "pool_ok P p'"
      "maxLength p' = maxLength (srv_mempool s)"
      "items (pending p') = filter (\<lambda>y. tx_TxHash y \<noteq> h) (items (pending (srv_mempool s)))"
      by (rule TxPool_Remove_ok)
    with r ok show "srv_ok P (s\<lparr>srv_mempool := p\<rparr>)"
      by (simp add: srv_ok_def pool_verified_def Pending_items)
  qed
next
  fix s :: Server and ps :: peers
  assume "distinct (map fst (srv_peers s)) \<Longrightarrow> distinct (map fst ps)"
  then show "srv_ok P s \<longrightarrow> srv_ok P (s\<lparr>srv_peers := ps\<rparr>)" by (simp add: srv_ok_def)
next
  fix s :: Server
  have "pool_verified P (ClearPending p)" for p
    by (simp add: pool_verified_def Pending_items pool_ok_ClearPending)
  then show "srv_ok P s \<longrightarrow> srv_ok P (s\<lparr>srv_mempool := ClearPending (srv_mempool s)\<rparr>)"
    by (simp add: srv_ok_def pool_ok_ClearPending)
qed (simp_all add: srv_ok_def)

declare srv_inv.refl [simp del]

text \<open>A node whose chain is locked keeps its chain as it is.\<close>

lemma AddBlock_locked:
  "bc_stateLock bc \<Longrightarrow> fst (out_state (AddBlock P d (ValidateBlock P) (bc, b))) = bc"
  by (cases rule: block_validator.AddBlock_validated_cases [of P bc b d])
    (auto simp: addBlock_locked)

interpretation frozen: server_relation
    "\<lambda>s s'. bc_stateLock (srv_chain s) \<longrightarrow> srv_chain s' = srv_chain s" P
  for P :: "'z net_prims_scheme"
  by unfold_locales (auto simp: AddBlock_locked)

declare frozen.refl [simp del]

text \<open>
  What writes to peers and takes transactions leaves the chain alone, and what takes blocks leaves
  the peers alone.
\<close>

interpretation same_chain: peer_relation "\<lambda>s s'. srv_chain s' = srv_chain s" P
  for P :: "'z net_prims_scheme"
  by unfold_locales auto

declare same_chain.refl [simp del]

interpretation same_peers: block_relation "\<lambda>s s'. srv_peers s' = srv_peers s" P
  for P :: "'z net_prims_scheme"
  by unfold_locales auto

declare same_peers.refl [simp del]

text \<open>A message that brings a block.\<close>

definition brings_block :: "'z net_prims_scheme \<Rightarrow> event \<Rightarrow> bool" where
  "brings_block P ev =
     (case ev of
        EvRpc a x \<Rightarrow>
          (case DefaultRPCDecodeFunc P x of
             Inr (DBlock _) \<Rightarrow> True
           | Inr (DBlocks _) \<Rightarrow> True
           | _ \<Rightarrow> False)
      | _ \<Rightarrow> False)"

lemma event_keeps_chain:
  assumes "\<not> brings_block P ev" and "\<And>now rnd. ev \<noteq> EvTick now rnd"
  shows "srv_chain (out_state (handle_event P d ev s)) = srv_chain s"
proof (cases ev)
  case (EvRpc a x)
  with assms(1) show ?thesis
    using same_chain.keeps_out [OF same_chain.keeps_processTransaction]
      same_chain.keeps_out [OF same_chain.keeps_messages(1)]
      same_chain.keeps_out [OF same_chain.keeps_messages(2)]
      same_chain.keeps_out [OF same_chain.keeps_messages(3)]
    by (auto simp: handle_event_def brings_block_def ProcessMessage_def split: sum.splits decoded.splits)
qed (use assms(2) same_chain.keeps_out [OF same_chain.keeps_add_peer]
      same_chain.keeps_out [OF same_chain.keeps_processTransaction]
      same_chain.keeps_out [OF same_chain.keeps_run_task] in \<open>auto simp: handle_event_def\<close>)

end
