(* ===== verification/Node_Start.thy ===== *)
theory Node_Start
  imports Server_Safety Chain_Progress
begin

text \<open>
  How a node starts: the genesis block, the chain and the money it begins with, and concrete
  nodes on which the closed instances of the node's theorems evaluate.
\<close>

section \<open>The genesis block\<close>

lemma genesis_header:
  assumes "genesisBlock P nonce gk rnd = Some b"
  shows "Height (blk_Header b) = 0" and "blk_Transactions b = [genesis_tx nonce]"
    and "hash_cache_ok P b"
  using assms
  by (auto simp: genesisBlock_def Let_def NewBlock_def Block_Sign_def hash_cache_ok_def
      split: outcome.splits option.splits)

lemma genesis_tx_fields:
  "tx_TxInner (genesis_tx n) = NoInner" "tx_Data (genesis_tx n) = []"
  "tx_From (genesis_tx n) = []" "tx_To (genesis_tx n) = []" "tx_Value (genesis_tx n) = 10000000"
  by (simp_all add: genesis_tx_def NewTransaction_def)

lemma NewServer_chain:
  assumes "NewServer P d e g b key sid = Some s"
  obtains t where "NewBlockchain P d e g b = Inr (Returns None t)" and "srv_chain s = fst t"
    and "srv_mempool s = NewTxPool 1000" and "srv_peers s = []" and "srv_PrivateKey s = key"
  using assms by (auto simp: NewServer_def split: sum.splits outcome.splits option.splits)

text \<open>The chain before its genesis block is added.\<close>

lemma NewServer_adds_genesis:
  assumes "NewServer P d e g b key sid = Some s"
  obtains a store b' where "PublicKey_Address P [] = Some a"
    and "addBlockWithoutValidation P d
      (fresh_chain (snd (CreateAccount NewAccountState a)) (Persistent store), b)
      = Returns None (srv_chain s, b')"
proof -
  from assms obtain t where t: "NewBlockchain P d e g b = Inr (Returns None t)" "srv_chain s = fst t"
    by (rule NewServer_chain)
  then show ?thesis
    using that by (cases t) (auto simp: NewBlockchain_def split: option.splits sum.splits)
qed

text \<open>When the store opens and takes writes, the node starts with one block.\<close>

lemma NewServer_starts:
  assumes P: "sha_fixed_length P" and gob: "\<forall>tx. gob_tx P tx \<noteq> None"
    and b: "genesisBlock P nonce gk rnd = Some b"
    and st: "fst (NewPersistentStore P e g) = Inr (Some store)" "ps_open store"
    and d: "\<not> seek_fails d" "write_result d = WritesAll" "\<not> sync_fails d"
  shows "\<exists>s. NewServer P d e g b key sid = Some s \<and> bc_Headers (srv_chain s) = [blk_Header b]
    \<and> \<not> bc_stateLock (srv_chain s) \<and> writable d (srv_chain s) \<and> srv_PrivateKey s = key
    \<and> srv_mempool s = NewTxPool 1000 \<and> srv_peers s = [] \<and> srv_tasks s = []"
proof -
  obtain a where a: "PublicKey_Address P [] = Some a" using addr_Some [OF P] by blast
  let ?bc = "fresh_chain (snd (CreateAccount NewAccountState a)) (Persistent (Some store))"
  have w: "writable d ?bc" using st(2) d by (simp add: writable_def fresh_chain_def)
  have "\<not> bc_stateLock ?bc" by (simp add: fresh_chain_def)
  moreover have "\<forall>tx\<in>set (blk_Transactions b). value_only tx"
    by (simp add: genesis_header(2) [OF b] value_only_def genesis_tx_fields)
  ultimately obtain bc' b' where add: "addBlockWithoutValidation P d (?bc, b) = Returns None (bc', b')"
    "bc_Headers bc' = bc_Headers ?bc @ [blk_Header b]" "\<not> bc_stateLock bc'" "writable d bc'"
    using addBlock_writes [OF P _ w, of b] gob by blast
  have "NewBlockchain P d e g b = Inr (Returns None (bc', b'))"
    by (simp add: NewBlockchain_def a st(1) add(1))
  then show ?thesis
    using add(2-4) by (simp add: NewServer_def) (simp add: fresh_chain_def)
qed

text \<open>
  C27: with SHA-256 a node starts with exactly the ten million units of its genesis block, all of
  them on the account of the empty public key.
\<close>

theorem genesis_supply:
  assumes b: "genesisBlock (P\<lparr>sha256 := Sum256\<rparr>) nonce gk rnd = Some b"
    and s: "NewServer (P\<lparr>sha256 := Sum256\<rparr>) d e g b key sid = Some s"
  shows "total_supply (bc_AccountState (srv_chain s)) = 10000000
    \<and> balance_of (bc_AccountState (srv_chain s)) coinbase_address = 10000000"
proof -
  let ?P = "P\<lparr>sha256 := Sum256\<rparr>" and ?c = coinbase_address
  have a: "PublicKey_Address ?P [] = Some ?c"
    by (simp add: PublicKey_Address_def Sum256_empty AddressFromBytes_def Let_def coinbase_address_def)
  obtain store b' where add: "addBlockWithoutValidation ?P d
      (fresh_chain (snd (CreateAccount NewAccountState ?c)) (Persistent store), b)
      = Returns None (srv_chain s, b')"
    using NewServer_adds_genesis [OF s] a by (metis option.inject)
  let ?bc = "fresh_chain (snd (CreateAccount NewAccountState ?c)) (Persistent store)"
  let ?accs = "\<lparr>accounts = [?c \<mapsto> \<lparr>acc_Address = ?c, acc_Balance = 10000000\<rparr>]\<rparr>"
  have t: "Transfer (snd (CreateAccount NewAccountState ?c)) ?c ?c 10000000 = (None, ?accs)"
    by (simp add: Transfer_def getAccountWithoutLock_def CreateAccount_def NewAccountState_def
        set_balance_def balance_of_def coinbase_address_text Let_def)
  obtain h where h: "Transaction_Hash ?P (genesis_tx nonce)
      = Returns h ((genesis_tx nonce)\<lparr>tx_TxHash := h\<rparr>)"
    using Transaction_Hash_value_only [of "genesis_tx nonce" ?P] by (auto simp: genesis_tx_fields)
  have "handleTransaction ?P (?bc\<lparr>bc_stateLock := True\<rparr>, genesis_tx nonce)
      = Returns None (?bc\<lparr>bc_stateLock := True, bc_AccountState := ?accs\<rparr>,
          (genesis_tx nonce)\<lparr>tx_TxHash := h\<rparr>)"
    by (simp add: handleTransaction_def tx_hash_def h seq_def run_code_def unless_error_def
        handle_dispatch_def handle_nft_part_def handle_value_part_def genesis_tx_fields
        handleNativeTransfer_def a fresh_chain_def t)
  then have txs: "handle_txs ?P (blk_Transactions b) (?bc\<lparr>bc_stateLock := True\<rparr>)
      = Returns [(genesis_tx nonce)\<lparr>tx_TxHash := h\<rparr>]
          (?bc\<lparr>bc_stateLock := True, bc_AccountState := ?accs\<rparr>, [(genesis_tx nonce)\<lparr>tx_TxHash := h\<rparr>])"
    by (simp add: genesis_header(2) [OF b])
  have "\<not> bc_stateLock ?bc" by (simp add: fresh_chain_def)
  then have "bc_AccountState (srv_chain s) = ?accs"
  proof (cases rule: addBlock_cases [of ?bc ?P b d])
    case (appends r bc1 ts hash b2)
    then show ?thesis
      using add txs
      by (cases rule: put_block_frame [of ?P d "append_block hash (bc1\<lparr>bc_stateLock := False\<rparr>) b2" b2])
        auto
  qed (use add in simp_all)
  then show ?thesis by (simp add: total_supply_def balance_of_def)
qed

section \<open>Concrete nodes\<close>

text \<open>The primitives of the message theory with an encoding of every transaction.\<close>

definition demo_node_prims :: net_prims where
  "demo_node_prims = demo_net_prims\<lparr>gob_tx := gob_tx demo_tx_prims\<rparr>"

lemma demo_node_prims_ok:
  "sha_fixed_length demo_node_prims" "signatures_verify demo_node_prims"
  "sha_fixed_length (demo_node_prims\<lparr>sha256 := Sum256\<rparr>)" "gob_tx demo_node_prims tx \<noteq> None"
  "gob_tx (demo_node_prims\<lparr>sha256 := Sum256\<rparr>) tx \<noteq> None"
  using demo_prims_ok
  by (simp_all add: sha_fixed_length_def signatures_verify_def demo_node_prims_def
      demo_net_prims_def demo_prims_def demo_tx_prims_def length_Sum256)

lemma demo_sign:
  "\<exists>sg. PrivateKey_Sign demo_node_prims k rnd m = Some sg"
  "\<exists>sg. PrivateKey_Sign (demo_node_prims\<lparr>sha256 := Sum256\<rparr>) k rnd m = Some sg"
  by (simp_all add: PrivateKey_Sign_def demo_node_prims_def demo_net_prims_def demo_prims_def)

lemma genesisBlock_exists:
  assumes "\<And>m. \<exists>sg. PrivateKey_Sign P k rnd m = Some sg"
  shows "\<exists>b. genesisBlock P nonce k rnd = Some b"
  by (simp add: genesisBlock_def Let_def Block_Sign_def split: option.split)
    (metis assms option.distinct(1))

lemma demo_store_opens: "fst (NewPersistentStore P demo_startup demo_package) = Inr (Some demo_store)"
  by (simp add: NewPersistentStore_def demo_startup_def demo_package_def loadBlockHashes_def
      load_hashes.simps good_disk_def demo_store_def)

lemma good_disk_writes: "\<not> seek_fails good_disk" "write_result good_disk = WritesAll"
  "\<not> sync_fails good_disk"
  by (simp_all add: good_disk_def)

text \<open>A validator with the key 5 on an empty blocks file.\<close>

lemma demo_start_on:
  assumes "sha_fixed_length P" and "\<forall>tx. gob_tx P tx \<noteq> None"
    and "\<And>m. \<exists>sg. PrivateKey_Sign P 7 0 m = Some sg"
  shows "\<exists>b s. genesisBlock P 0 7 0 = Some b
    \<and> NewServer P good_disk demo_startup demo_package b (Some 5) ''A'' = Some s
    \<and> bc_Headers (srv_chain s) = [blk_Header b] \<and> \<not> bc_stateLock (srv_chain s)
    \<and> writable good_disk (srv_chain s) \<and> srv_PrivateKey s = Some 5
    \<and> srv_mempool s = NewTxPool 1000 \<and> srv_peers s = [] \<and> srv_tasks s = []"
proof -
  obtain b where b: "genesisBlock P 0 7 0 = Some b" using genesisBlock_exists [OF assms(3)] by blast
  have "ps_open demo_store" by (simp add: demo_store_def)
  from NewServer_starts [OF assms(1,2) b demo_store_opens this good_disk_writes]
  show ?thesis using b by blast
qed

theorem genesis_supply_witness:
  "\<exists>b s. NewServer (demo_node_prims\<lparr>sha256 := Sum256\<rparr>) good_disk demo_startup demo_package b
      (Some 5) ''A'' = Some s
    \<and> total_supply (bc_AccountState (srv_chain s)) = 10000000"
proof -
  let ?P = "demo_node_prims\<lparr>sha256 := Sum256\<rparr>"
  obtain b s where b: "genesisBlock ?P 0 7 0 = Some b"
    and s: "NewServer ?P good_disk demo_startup demo_package b (Some 5) ''A'' = Some s"
    using demo_start_on [of ?P] demo_node_prims_ok(3,5) demo_sign(2) by blast
  with genesis_supply [OF b s] show ?thesis by blast
qed

end
