(* ===== verification/Node.thy ===== *)
theory Node
  imports Node_Start
begin

text \<open>
  A node over its lifetime: what holds in every state it can reach, how its chain grows, which
  blocks it answers a peer with, what its validator produces, and how it can be stopped from
  outside.
\<close>

section \<open>The chain only grows\<close>

definition grows :: "Blockchain \<Rightarrow> Blockchain \<Rightarrow> bool" where
  "grows bc bc' \<longleftrightarrow> prefix (bc_Headers bc) (bc_Headers bc') \<and> prefix (bc_blocks bc) (bc_blocks bc')"

lemma grows_refl [simp]: "grows bc bc"
  by (simp add: grows_def)

lemma grows_trans: "grows a b \<Longrightarrow> grows b c \<Longrightarrow> grows a c"
  by (auto simp: grows_def intro: prefix_order.trans)

lemma grows_fixed: "chain_fixed (bc\<lparr>bc_stateLock := l\<rparr>) bc1 \<Longrightarrow> grows bc bc1"
  by (simp add: grows_def chain_fixed_def)

lemma addBlock_grows: "grows bc (fst (out_state (addBlockWithoutValidation P d (bc, b))))"
proof (cases "bc_stateLock bc")
  case True
  then show ?thesis by (simp add: addBlock_locked)
next
  case False
  let ?bc = "bc\<lparr>bc_stateLock := True\<rparr>"
  have fx: "chain_fixed ?bc (fst (out_state (handle_txs P (blk_Transactions b) ?bc)))"
    using handle_txs_frame by blast
  from False show ?thesis
  proof (cases rule: addBlock_cases [of bc P b d])
    case (appends r bc1 ts hash b2)
    from fx appends(1) have "bc_Headers bc1 = bc_Headers bc" "bc_blocks bc1 = bc_blocks bc"
      by (simp_all add: chain_fixed_def)
    then show ?thesis
      by (cases rule: put_block_frame [of P d "append_block hash (bc1\<lparr>bc_stateLock := False\<rparr>) b2" b2])
        (simp_all add: appends(3) grows_def)
  qed (use fx grows_fixed in simp_all)
qed

lemma AddBlock_grows: "grows bc (fst (out_state (AddBlock P d (ValidateBlock P) (bc, b))))"
  by (cases rule: block_validator.AddBlock_validated_cases [of P bc b d])
    (auto simp: addBlock_grows)

interpretation growing: server_relation "\<lambda>s s'. grows (srv_chain s) (srv_chain s')" P
  for P :: "'z net_prims_scheme"
  by unfold_locales (auto simp: AddBlock_grows intro: grows_trans)

section \<open>Reachable nodes\<close>

inductive node_reachable :: "'z net_prims_scheme \<Rightarrow> Server \<Rightarrow> bool" for P where
  start: "genesisBlock P nonce gk rnd = Some b \<Longrightarrow> NewServer P d e g b key sid = Some s
    \<Longrightarrow> node_reachable P s"
| event: "node_reachable P s \<Longrightarrow> node_reachable P (out_state (handle_event P d ev s))"

inductive_cases node_reachableE: "node_reachable P s"

lemma start_ok:
  assumes "genesisBlock P nonce gk rnd = Some b" and "NewServer P d e g b key sid = Some s"
  shows "srv_ok P s" and "bc_Headers (srv_chain s) \<noteq> []"
proof -
  from assms(2) obtain t where t: "NewBlockchain P d e g b = Inr (Returns None t)"
    "srv_chain s = fst t" "srv_mempool s = NewTxPool 1000" "srv_peers s = []"
    by (rule NewServer_chain)
  have "chain_ok P (fst t)"
    using NewBlockchain_chain_ok [OF t(1) genesis_header(1) [OF assms(1)]] by simp
  moreover have "pool_ok P (NewTxPool 1000)" by (rule pool_ok_New) simp
  moreover have "pool_verified P (NewTxPool 1000)" "maxLength (NewTxPool 1000) = 1000"
    by (simp_all add: pool_verified_def Pending_items NewTxPool_def)
  ultimately show "srv_ok P s" using t by (simp add: srv_ok_def)
  from t(1) obtain a st where add: "addBlockWithoutValidation P d
      (fresh_chain (snd (CreateAccount NewAccountState a)) (Persistent st), b) = Returns None t"
    by (auto simp: NewBlockchain_def split: option.splits sum.splits)
  let ?bc = "fresh_chain (snd (CreateAccount NewAccountState a)) (Persistent st)"
  have "\<not> bc_stateLock ?bc" by (simp add: fresh_chain_def)
  then have "bc_Headers (fst t) \<noteq> []"
  proof (cases rule: addBlock_cases [of ?bc P b d])
    case (appends r bc1 ts hash b2)
    then show ?thesis
      using add
      by (cases rule: put_block_frame [of P d "append_block hash (bc1\<lparr>bc_stateLock := False\<rparr>) b2" b2])
        auto
  qed (use add in simp_all)
  then show "bc_Headers (srv_chain s) \<noteq> []" by (simp add: t(2))
qed

lemma reachable_srv_ok:
  assumes "node_reachable P s"
  shows "srv_ok P s \<and> bc_Headers (srv_chain s) \<noteq> []"
  using assms
proof induction
  case (start nonce gk rnd b d e g key sid s)
  then show ?case by (intro conjI start_ok)
next
  case (event s d ev)
  have "grows (srv_chain s) (srv_chain (out_state (handle_event P d ev s)))"
    by (rule growing.keeps_out [OF growing.keeps_handle_event])
  moreover have "srv_ok P (out_state (handle_event P d ev s))"
    using srv_inv.keeps_out [OF srv_inv.keeps_handle_event] event.IH by blast
  ultimately show ?case using event.IH by (auto simp: grows_def)
qed

text \<open>
  C3: in every state a node can reach from its start, by any sequence of connections, messages,
  API transactions, ticks and background tasks, however each ends, its chain is in order and not
  empty, the memory pool has at most 1000 transactions, every pending transaction verifies, and
  no address has two peers.
\<close>

theorem node_invariant:
  assumes "node_reachable P s"
  shows "chain_ok P (srv_chain s) \<and> bc_Headers (srv_chain s) \<noteq> []
    \<and> TxSortedMap_Count (all (srv_mempool s)) \<le> 1000
    \<and> (\<forall>tx\<in>set (Pending (srv_mempool s)). Transaction_Verify P tx = Returns None tx)
    \<and> distinct (map fst (srv_peers s))"
proof -
  from reachable_srv_ok [OF assms] have ok: "srv_ok P s" and ne: "bc_Headers (srv_chain s) \<noteq> []"
    by simp_all
  from ok have "pool_ok P (srv_mempool s)" "maxLength (srv_mempool s) = 1000" by (simp_all add: srv_ok_def)
  then have "TxSortedMap_Count (all (srv_mempool s)) \<le> 1000"
    using tsm_Count [of P "all (srv_mempool s)"] by (simp add: pool_ok_def)
  with ok ne show ?thesis by (simp add: srv_ok_def pool_verified_def)
qed

text \<open>
  The chain of a node is append-only: no event rewrites or drops a header or a block.
\<close>

theorem node_chain_append_only:
  "\<exists>hs bs. bc_Headers (srv_chain (out_state (handle_event P d ev s))) = bc_Headers (srv_chain s) @ hs
    \<and> bc_blocks (srv_chain (out_state (handle_event P d ev s))) = bc_blocks (srv_chain s) @ bs"
  using growing.keeps_out [OF growing.keeps_handle_event, of s P d ev]
  by (auto simp: grows_def prefix_def)

section \<open>The contract state\<close>

lemma addBlock_contract:
  "state_grows (bc_contractState bc)
    (bc_contractState (fst (out_state (addBlockWithoutValidation P d (bc, b)))))"
proof (cases "bc_stateLock bc")
  case True
  then show ?thesis by (simp add: addBlock_locked)
next
  case False
  let ?bc = "bc\<lparr>bc_stateLock := True\<rparr>"
  have fx: "state_grows (bc_contractState bc)
      (bc_contractState (fst (out_state (handle_txs P (blk_Transactions b) ?bc))))"
    using handle_txs_frame [of ?bc P "blk_Transactions b"] by (simp add: chain_fixed_def)
  from False show ?thesis
  proof (cases rule: addBlock_cases [of bc P b d])
    case (appends r bc1 ts hash b2)
    with fx show ?thesis
      by (cases rule: put_block_frame [of P d "append_block hash (bc1\<lparr>bc_stateLock := False\<rparr>) b2" b2])
        simp_all
  qed (use fx in simp_all)
qed

interpretation contract: server_relation
    "\<lambda>s s'. state_grows (bc_contractState (srv_chain s)) (bc_contractState (srv_chain s'))" P
  for P :: "'z net_prims_scheme"
proof
  fix s :: Server and d b
  show "state_grows (bc_contractState (srv_chain s)) (bc_contractState (srv_chain
      (s\<lparr>srv_chain := fst (out_state (AddBlock P d (ValidateBlock P) (srv_chain s, b)))\<rparr>)))"
    by (cases rule: block_validator.AddBlock_validated_cases [of P "srv_chain s" b d])
      (auto simp: addBlock_contract)
qed (auto intro: state_grows_trans)

text \<open>
  C34: the contract state of a node is typed: in every reachable state, every key that any program
  of any block has written holds a value of exactly eight bytes, the encoding of an integer.
\<close>

theorem contract_state_typed:
  assumes "node_reachable P s"
  shows "ran (st_data (bc_contractState (srv_chain s))) \<subseteq> {v. length v = 8}"
proof -
  from assms have "state_grows NewState (bc_contractState (srv_chain s))"
  proof induction
    case (start nonce gk rnd b d e g key sid s)
    then obtain a store b' where "addBlockWithoutValidation P d
        (fresh_chain (snd (CreateAccount NewAccountState a)) (Persistent store), b)
        = Returns None (srv_chain s, b')" using NewServer_adds_genesis by blast
    with addBlock_contract [of "fresh_chain (snd (CreateAccount NewAccountState a)) (Persistent store)" P d b]
    show ?case by (simp add: fresh_chain_def)
  next
    case (event s d ev)
    then show ?case
      using contract.keeps_out [OF contract.keeps_handle_event] by (blast intro: state_grows_trans)
  qed
  then show ?thesis
    by (auto simp: state_grows_def NewState_def ran_def) (metis option.inject option.distinct(1))
qed

section \<open>Answering a peer\<close>

lemma collect_blocks_spec:
  assumes ok: "chain_ok P bc" and ne: "bc_Headers bc \<noteq> []"
    and last: "unat endHeight < length (bc_Headers bc)" and bound: "unat endHeight < 2 ^ 32 - 1"
  shows "collect_blocks bc height endHeight acc
    = Some (Some (acc @ map (\<lambda>i. bc_blocks bc ! i) [unat height ..< Suc (unat endHeight)]))"
proof (induction "Suc (unat endHeight) - unat height" arbitrary: height acc)
  case 0
  then have "endHeight < height" by (simp add: word_less_nat_alt)
  with 0 show ?case by (subst collect_blocks.simps) (simp add: not_less)
next
  case (Suc n)
  then have le: "unat height \<le> unat endHeight" by simp
  then have nl: "\<not> endHeight < height" by (simp add: word_less_nat_alt)
  have g: "GetBlock bc height = Some (Inr (bc_blocks bc ! unat height))"
    using GetBlock_chain [OF ok ne, of height] le last by simp
  have u: "unat (height + 1) = Suc (unat height)"
    using le bound by (simp add: unat_word_ariths)
  have "n = Suc (unat endHeight) - unat (height + 1)" using Suc.hyps(2) u by simp
  from Suc.hyps(1) [OF this, of "acc @ [bc_blocks bc ! unat height]"]
  show ?case
    using le by (subst collect_blocks.simps) (simp add: nl g u upt_conv_Cons del: upt_Suc)
qed

lemma getBlocks_answer:
  assumes ok: "chain_ok P (srv_chain s)" and ne: "bc_Headers (srv_chain s) \<noteq> []"
    and bound: "length (bc_Headers (srv_chain s)) < 2 ^ 32"
  shows "processGetBlocksMessage P a g s =
    (let top = length (bc_Headers (srv_chain s)) - 1;
         upto = (if unat (gb_To g) = 0 \<or> top < unat (gb_To g) then top else unat (gb_To g));
         blocks = map (\<lambda>i. bc_blocks (srv_chain s) ! i) [unat (gb_From g) ..< Suc upto]
     in if blocks = [] then Returns None s
        else case gob_blocks P blocks of
               None \<Rightarrow> Returns (Some SrvEncode) s
             | Some x \<Rightarrow> send_to a (payload P MessageTypeBlocks x) s)"
proof -
  let ?bc = "srv_chain s"
  define h where "h = bc_Height ?bc"
  have uh: "unat h = length (bc_Headers ?bc) - 1"
    unfolding h_def by (rule bc_Height_chain [OF ne]) (use bound in simp)
  define eh where "eh = (let e = (if gb_To g = 0 then h else gb_To g) in if h < e then h else e)"
  have ue: "unat eh = (if unat (gb_To g) = 0 \<or> unat h < unat (gb_To g) then unat h else unat (gb_To g))"
    by (simp add: eh_def Let_def word_less_nat_alt unat_eq_0)
  have pos: "0 < length (bc_Headers ?bc)" using ne by simp
  have le: "unat eh \<le> unat h" by (simp add: ue)
  have lt: "unat eh < length (bc_Headers ?bc)" "unat eh < 2 ^ 32 - 1"
    using le uh pos bound by linarith+
  have coll: "collect_blocks ?bc (gb_From g) eh []
      = Some (Some (map (\<lambda>i. bc_blocks ?bc ! i) [unat (gb_From g) ..< Suc (unat eh)]))"
    using collect_blocks_spec [OF ok ne lt, of "gb_From g" "[]"] by (simp del: upt_Suc)
  have def: "processGetBlocksMessage P a g s =
      (if h < gb_From g then Returns None s
       else case collect_blocks ?bc (gb_From g) eh [] of
              None \<Rightarrow> Blocks s
            | Some None \<Rightarrow> Panics s
            | Some (Some blocks) \<Rightarrow>
                if blocks = [] then Returns None s
                else case gob_blocks P blocks of
                       None \<Rightarrow> Returns (Some SrvEncode) s
                     | Some x \<Rightarrow> send_to a (payload P MessageTypeBlocks x) s)"
    by (simp add: processGetBlocksMessage_def h_def eh_def Let_def)
  show ?thesis
  proof (cases "h < gb_From g")
    case True
    then have "Suc (unat eh) \<le> unat (gb_From g)" using le by (simp add: word_less_nat_alt)
    with True show ?thesis unfolding Let_def uh [symmetric] ue [symmetric] by (simp add: def)
  next
    case False
    then show ?thesis
      unfolding Let_def uh [symmetric] ue [symmetric] by (simp add: def coll del: upt_Suc)
  qed
qed

text \<open>
  C22: a request for blocks is answered, by a node whose chain is in order and below the largest
  height, with exactly the blocks of the requested heights that exist: from \<open>From\<close> up to \<open>To\<close>, or
  to the end when \<open>To\<close> is zero or beyond it. The loop over the heights ends.
\<close>

theorem processGetBlocksMessage_spec:
  assumes ok: "chain_ok P (srv_chain s)" and ne: "bc_Headers (srv_chain s) \<noteq> []"
    and bound: "length (bc_Headers (srv_chain s)) < 2 ^ 32"
  shows "processGetBlocksMessage P a g s =
    (let top = length (bc_Headers (srv_chain s)) - 1;
         upto = (if unat (gb_To g) = 0 \<or> top < unat (gb_To g) then top else unat (gb_To g));
         blocks = map (\<lambda>i. bc_blocks (srv_chain s) ! i) [unat (gb_From g) ..< Suc upto]
     in if blocks = [] then Returns None s
        else case gob_blocks P blocks of
               None \<Rightarrow> Returns (Some SrvEncode) s
             | Some x \<Rightarrow> send_to a (payload P MessageTypeBlocks x) s)"
  by (rule getBlocks_answer [OF assms])

section \<open>Transactions\<close>

lemma processTransaction_pool:
  assumes ok: "srv_ok P s" and v: "Transaction_Verify P tx = Returns None tx'"
    and nc: "\<not> TxPool_Contains (srv_mempool s) (tx_TxHash tx)"
  obtains p' where "processTransaction P tx s = Returns None ((spawn (TaskTx tx') s)\<lparr>srv_mempool := p'\<rparr>)"
    and "TxPool_Contains p' (tx_TxHash tx')" and "maxLength p' = maxLength (srv_mempool s)"
    and "items (all p') = add_new (pruned (maxLength p') (items (all (srv_mempool s)))) tx'"
    and "Pending p' = (if tx_TxHash tx' \<in> set (keys_of (pruned (maxLength p') (items (all (srv_mempool s)))))
      then Pending (srv_mempool s) else add_new (Pending (srv_mempool s)) tx')"
proof -
  let ?p = "srv_mempool s"
  have p: "pool_ok P ?p" using ok by (simp add: srv_ok_def)
  obtain h where h: "Transaction_Hash P tx' = Returns h tx'"
    using Transaction_Verify_again [OF v] by (auto elim: Transaction_Verify_accepted)
  have k: "tx_TxHash tx' = h" using Transaction_Hash_frame(8) [OF h] .
  obtain p' where p': "TxPool_Add P (?p, tx') = Returns () (p', tx')" "pool_ok P p'"
    "maxLength p' = maxLength ?p"
    "items (all p') = add_new (pruned (maxLength ?p) (items (all ?p))) tx'"
    "items (pending p') = (if h \<in> set (keys_of (pruned (maxLength ?p) (items (all ?p))))
      then items (pending ?p) else add_new (items (pending ?p)) tx')"
    using TxPool_Add_ok [OF p h] by blast
  have "tsm_ok P (all p')" using p'(2) by (simp add: pool_ok_def)
  then have "TxPool_Contains p' (tx_TxHash tx')"
    using p'(4) by (auto simp: TxPool_Contains_def tsm_Contains add_new_def)
  moreover have "processTransaction P tx s = Returns None ((spawn (TaskTx tx') s)\<lparr>srv_mempool := p'\<rparr>)"
    using nc v p'(1) by (simp add: processTransaction_def)
  ultimately show ?thesis using p' k by (intro that [of p']) (simp_all add: Pending_items)
qed

lemma processTransaction_adds:
  assumes ok: "srv_ok P s" and v: "Transaction_Verify P tx = Returns None tx'"
    and nc: "\<not> TxPool_Contains (srv_mempool s) (tx_TxHash tx)"
  obtains p' where "processTransaction P tx s = Returns None ((spawn (TaskTx tx') s)\<lparr>srv_mempool := p'\<rparr>)"
    and "TxPool_Contains p' (tx_TxHash tx')"
    and "Pending p' \<in> {Pending (srv_mempool s), Pending (srv_mempool s) @ [tx']}"
    and "items (all (srv_mempool s)) = [] \<Longrightarrow> Pending (srv_mempool s) = [] \<Longrightarrow> Pending p' = [tx']"
proof (rule processTransaction_pool [OF assms])
  fix p'
  assume "processTransaction P tx s = Returns None ((spawn (TaskTx tx') s)\<lparr>srv_mempool := p'\<rparr>)"
    and "TxPool_Contains p' (tx_TxHash tx')"
    and "Pending p' = (if tx_TxHash tx' \<in> set (keys_of (pruned (maxLength p') (items (all (srv_mempool s)))))
      then Pending (srv_mempool s) else add_new (Pending (srv_mempool s)) tx')"
  then show ?thesis by (intro that [of p']) (auto simp: add_new_def pruned_def)
qed

lemma empty_pool:
  "\<not> TxPool_Contains (NewTxPool n) h" "items (all (NewTxPool n)) = []" "Pending (NewTxPool n) = []"
  by (simp_all add: NewTxPool_def Pending_items TxPool_Contains_def TxSortedMap_Contains_def)
    (simp add: NewTxSortedMap_def)

text \<open>
  C25: how a node in its invariant takes a transaction from a peer or the API, on every branch. One
  whose hash field names a pooled transaction is dropped in silence; one that does not verify is
  answered with an error, and one whose verification panics or hangs does the same to the handler,
  and each leaves the node as it was. One that verifies leads to a task that sends it on and to nothing else
  but the pool's change: a full pool first loses its oldest transaction; then, unless the hash of
  the new one is still there, it is added at the end, and at the end of the pending list too,
  unless that has its hash already. Its hash is in the pool afterwards.
\<close>

theorem processTransaction_spec:
  assumes ok: "srv_ok P s"
  shows "case Transaction_Verify P tx of
      Panics _ \<Rightarrow> processTransaction P tx s
        = (if TxPool_Contains (srv_mempool s) (tx_TxHash tx) then Returns None s else Panics s)
    | Blocks _ \<Rightarrow> processTransaction P tx s
        = (if TxPool_Contains (srv_mempool s) (tx_TxHash tx) then Returns None s else Blocks s)
    | Returns err tx' \<Rightarrow>
        if TxPool_Contains (srv_mempool s) (tx_TxHash tx) then processTransaction P tx s = Returns None s
        else if err \<noteq> None then processTransaction P tx s = Returns (map_option SrvTx err) s
        else (\<exists>p'. processTransaction P tx s
              = Returns None (s\<lparr>srv_tasks := srv_tasks s @ [TaskTx tx'], srv_mempool := p'\<rparr>)
          \<and> TxPool_Contains p' (tx_TxHash tx') \<and> maxLength p' = maxLength (srv_mempool s)
          \<and> (let old = items (all (srv_mempool s));
                 kept = (if int (length old) = maxLength p' then tl old else old)
             in if tx_TxHash tx' \<in> tx_TxHash ` set kept
                then items (all p') = kept \<and> Pending p' = Pending (srv_mempool s)
                else items (all p') = kept @ [tx']
                  \<and> Pending p' = (if tx_TxHash tx' \<in> tx_TxHash ` set (Pending (srv_mempool s))
                      then Pending (srv_mempool s) else Pending (srv_mempool s) @ [tx'])))"
proof (cases "Transaction_Verify P tx")
  case v: (Returns err tx')
  show ?thesis
  proof (cases "TxPool_Contains (srv_mempool s) (tx_TxHash tx) \<or> err \<noteq> None")
    case True
    with v show ?thesis by (auto simp: processTransaction_def)
  next
    case False
    then have f: "\<not> TxPool_Contains (srv_mempool s) (tx_TxHash tx)" "\<not> err \<noteq> None" by blast+
    with v have "Transaction_Verify P tx = Returns None tx'" by simp
    from processTransaction_pool [OF ok this f(1)] obtain p' where
      p: "processTransaction P tx s = Returns None ((spawn (TaskTx tx') s)\<lparr>srv_mempool := p'\<rparr>)"
      "TxPool_Contains p' (tx_TxHash tx')" "maxLength p' = maxLength (srv_mempool s)" and
      q: "items (all p') = add_new (pruned (maxLength p') (items (all (srv_mempool s)))) tx'"
      "Pending p' = (if tx_TxHash tx' \<in> set (keys_of (pruned (maxLength p') (items (all (srv_mempool s)))))
        then Pending (srv_mempool s) else add_new (Pending (srv_mempool s)) tx')" by blast
    show ?thesis
      unfolding v outcome.case if_not_P [OF f(1)] if_not_P [OF f(2)] Let_def pruned_def [symmetric]
      using p q unfolding spawn_def by (intro exI [of _ p']) (simp add: add_new_def)
  qed
qed (simp_all add: processTransaction_def)

text \<open>
  A payload that decodes to a block without a header makes the node panic: the handler runs
  in the goroutine of the main loop, without a \<open>recover\<close>, so any peer can stop the process.
\<close>

theorem headerless_block_crashes:
  assumes "DefaultRPCDecodeFunc P x = Inr (DBlock None)"
  shows "handle_event P d (EvRpc a x) s = Panics s"
  using assms by (simp add: handle_event_def ProcessMessage_def processBlock_def accept_block_def seq_def)

section \<open>Instances\<close>

lemma demo_reachable_on:
  assumes "sha_fixed_length P" and "\<forall>tx. gob_tx P tx \<noteq> None"
    and "\<And>m. \<exists>sg. PrivateKey_Sign P 7 0 m = Some sg"
  shows "\<exists>s. node_reachable P s \<and> length (bc_Headers (srv_chain s)) = 1
    \<and> \<not> bc_stateLock (srv_chain s) \<and> writable good_disk (srv_chain s)
    \<and> srv_PrivateKey s = Some 5 \<and> srv_mempool s = NewTxPool 1000 \<and> srv_peers s = []"
  using demo_start_on [OF assms] node_reachable.start by fastforce

lemmas demo_server_reachable =
  demo_reachable_on [OF demo_node_prims_ok(1) allI [OF demo_node_prims_ok(4)] demo_sign(1)]

theorem node_invariant_witness:
  "\<exists>s. length (bc_Headers (srv_chain s)) = 1
    \<and> chain_ok demo_node_prims
      (srv_chain (out_state (handle_event demo_node_prims good_disk (EvTick 1000 0) s)))"
proof -
  obtain s where s: "node_reachable demo_node_prims s" "length (bc_Headers (srv_chain s)) = 1"
    using demo_server_reachable by blast
  have "node_reachable demo_node_prims
      (out_state (handle_event demo_node_prims good_disk (EvTick 1000 0) s))"
    using s(1) by (rule node_reachable.event)
  from node_invariant [OF this] s(2) show ?thesis by blast
qed

theorem contract_state_typed_witness:
  "\<exists>s. length (bc_Headers (srv_chain s)) = 1
    \<and> ran (st_data (bc_contractState (srv_chain
        (out_state (handle_event demo_node_prims good_disk (EvTick 1000 0)
          (out_state (handle_event demo_node_prims good_disk
            (EvTx (demo_tx\<lparr>tx_Data := store_code [1, 2] 7\<rparr>)) s))))))) \<subseteq> {v. length v = 8}"
proof -
  obtain s where s: "node_reachable demo_node_prims s" "length (bc_Headers (srv_chain s)) = 1"
    using demo_server_reachable by blast
  from contract_state_typed [OF node_reachable.event [OF node_reachable.event [OF s(1)]]] s(2)
  show ?thesis by blast
qed

theorem processGetBlocksMessage_spec_witness:
  "\<exists>s b. bc_blocks (srv_chain s) = [b]
    \<and> processGetBlocksMessage demo_node_prims 1 \<lparr>gb_From = 0, gb_To = 9\<rparr> s
      = (case gob_blocks demo_node_prims [b] of
           None \<Rightarrow> Returns (Some SrvEncode) s
         | Some x \<Rightarrow> send_to 1 (payload demo_node_prims MessageTypeBlocks x) s)"
proof -
  obtain s where s: "node_reachable demo_node_prims s" "length (bc_Headers (srv_chain s)) = 1"
    using demo_server_reachable by blast
  from reachable_srv_ok [OF s(1)] have ok: "chain_ok demo_node_prims (srv_chain s)"
    and ne: "bc_Headers (srv_chain s) \<noteq> []" by (auto simp: srv_ok_def)
  have "map blk_Header (bc_blocks (srv_chain s)) = bc_Headers (srv_chain s)"
    using ok by (simp add: chain_ok_def)
  then have "length (bc_blocks (srv_chain s)) = 1" using s(2) by (metis length_map)
  then obtain b where b: "bc_blocks (srv_chain s) = [b]" by (auto simp: length_Suc_conv)
  have "processGetBlocksMessage demo_node_prims 1 \<lparr>gb_From = 0, gb_To = 9\<rparr> s
      = (case gob_blocks demo_node_prims [b] of
           None \<Rightarrow> Returns (Some SrvEncode) s
         | Some x \<Rightarrow> send_to 1 (payload demo_node_prims MessageTypeBlocks x) s)"
    using processGetBlocksMessage_spec [OF ok ne, of 1 "\<lparr>gb_From = 0, gb_To = 9\<rparr>"]
      s(2) by (simp add: b)
  with b show ?thesis by blast
qed

lemma demo_node_tx_verifies: "Transaction_Verify demo_node_prims demo_tx = Returns None demo_tx"
  by (simp add: Transaction_Verify_def seq_def Transaction_Hash_def demo_tx_def Hash_IsZero_def
      Signature_Verify_def demo_node_prims_def demo_net_prims_def demo_prims_def sum_list_replicate)

theorem processTransaction_spec_witness:
  "\<exists>s p'. srv_mempool s = NewTxPool 1000
    \<and> processTransaction demo_node_prims demo_tx s
      = Returns None (s\<lparr>srv_tasks := srv_tasks s @ [TaskTx demo_tx], srv_mempool := p'\<rparr>)
    \<and> TxPool_Contains p' (tx_TxHash demo_tx) \<and> Pending p' = [demo_tx] \<and> items (all p') = [demo_tx]"
proof -
  obtain s where s: "node_reachable demo_node_prims s" "srv_mempool s = NewTxPool 1000"
    using demo_server_reachable by blast
  then have ok: "srv_ok demo_node_prims s" using reachable_srv_ok by blast
  have "\<not> TxPool_Contains (srv_mempool s) (tx_TxHash demo_tx)" by (simp add: s(2) empty_pool)
  with processTransaction_spec [OF ok, of demo_tx, unfolded demo_node_tx_verifies]
  obtain p' where "processTransaction demo_node_prims demo_tx s
      = Returns None (s\<lparr>srv_tasks := srv_tasks s @ [TaskTx demo_tx], srv_mempool := p'\<rparr>)"
    and "TxPool_Contains p' (tx_TxHash demo_tx)" "Pending p' = [demo_tx]" "items (all p') = [demo_tx]"
    by (auto simp: s(2) empty_pool Let_def)
  with s(2) show ?thesis by blast
qed

theorem headerless_block_crashes_witness:
  "handle_event (demo_node_prims\<lparr>gob_unblock := \<lambda>x. Some None\<rparr>) good_disk (EvRpc 1 [2, 0])
     \<lparr>srv_chain = demo_chain, srv_mempool = NewTxPool 1000, srv_peers = [], srv_PrivateKey = None,
      srv_ID = ''B'', srv_tasks = []\<rparr>
   = Panics \<lparr>srv_chain = demo_chain, srv_mempool = NewTxPool 1000, srv_peers = [],
      srv_PrivateKey = None, srv_ID = ''B'', srv_tasks = []\<rparr>"
  by (rule headerless_block_crashes)
    (simp add: DefaultRPCDecodeFunc_def demo_node_prims_def demo_net_prims_def message_type_defs
      decode_data_def block_coding)

end
