(* ===== verification/Node_Progress.thy ===== *)
theory Node_Progress
  imports Node
begin

text \<open>
  What a node achieves: its validator builds blocks its own validation accepts, and a node that
  is behind catches up with a peer by one exchange of messages. And what stops it: one student
  transaction.
\<close>

section \<open>The validator\<close>

lemma srv_okD:
  assumes "srv_ok P s"
  shows "chain_ok P (srv_chain s)"
    and "\<forall>tx\<in>set (Pending (srv_mempool s)). Transaction_Verify P tx = Returns None tx"
  using assms unfolding srv_ok_def pool_verified_def by blast+

lemma built_block_extends:
  assumes ok: "srv_ok P s" and ne: "bc_Headers (srv_chain s) \<noteq> []"
    and bound: "length (bc_Headers (srv_chain s)) < 2 ^ 32" and P: "signatures_verify P"
    and new: "NewBlockFromPrevHeader P now (last (bc_Headers (srv_chain s))) (Pending (srv_mempool s)) = Inr b"
    and sign: "Block_Sign P k rnd b = Returns None b'"
  shows "extends P (srv_chain s) (blk_Header b')" and "Block_Verify P b' = Returns None b'"
    and "ValidateBlock P (srv_chain s, b') = Returns None (srv_chain s, b')"
    and "blk_Transactions b' = Pending (srv_mempool s)" and "Height (blk_Header b) = Height (last (bc_Headers (srv_chain s))) + 1"
proof -
  let ?bc = "srv_chain s"
  note c = srv_okD(1) [OF ok] and pv = srv_okD(2) [OF ok]
  obtain n where n: "length (bc_Headers ?bc) = Suc n" using ne by (cases "length (bc_Headers ?bc)") auto
  note bs = built_and_signed_block [OF P pv new sign]
  have "unat (Height (last (bc_Headers ?bc))) = n" using last_header_height [OF c ne] n by simp
  then have "unat (Height (last (bc_Headers ?bc)) + 1) = Suc n"
    using bound n by (simp add: unat_word_ariths)
  then show ext: "extends P ?bc (blk_Header b')" using bs n by (simp add: extends_def)
  show "Block_Verify P b' = Returns None b'" by (rule bs(1))
  then show "ValidateBlock P (?bc, b') = Returns None (?bc, b')"
    by (rule ValidateBlock_complete [OF c ne ext])
  show "blk_Transactions b' = Pending (srv_mempool s)" by (rule bs(2))
  show "Height (blk_Header b) = Height (last (bc_Headers ?bc)) + 1"
    using new by (auto simp: NewBlockFromPrevHeader_Inr NewBlock_def)
qed

lemma createNewBlock_adds:
  assumes ok: "srv_ok P s" and ne: "bc_Headers (srv_chain s) \<noteq> []"
    and bound: "length (bc_Headers (srv_chain s)) < 2 ^ 32" and P: "signatures_verify P"
    and key: "srv_PrivateKey s = Some k"
    and new: "NewBlockFromPrevHeader P now (last (bc_Headers (srv_chain s))) (Pending (srv_mempool s)) = Inr b"
    and sign: "Block_Sign P k rnd b = Returns None b'"
  shows "createNewBlock P d now rnd s = recover_nil (add_own_block P d b') s"
    and "AddBlock P d (ValidateBlock P) (srv_chain s, b') = addBlockWithoutValidation P d (srv_chain s, b')"
proof -
  note v = built_block_extends [OF ok ne bound P new sign]
  have c: "chain_ok P (srv_chain s)" using ok by (simp add: srv_ok_def)
  show "createNewBlock P d now rnd s = recover_nil (add_own_block P d b') s"
    by (simp add: createNewBlock_def GetHeader_top [OF c ne] recover_nil_def create_body_def new v(5) key sign)
  show "AddBlock P d (ValidateBlock P) (srv_chain s, b') = addBlockWithoutValidation P d (srv_chain s, b')"
    by (simp add: AddBlock_def seq_def v(3))
qed

lemma broadcastBlock_returns:
  "\<exists>e ps. broadcastBlock P b s = Returns e (s\<lparr>srv_peers := ps\<rparr>)"
proof (cases "Block_Encode P b []")
  case None
  then show ?thesis
    by (intro exI [of _ "Some SrvEncode"] exI [of _ "srv_peers s"]) (simp add: broadcastBlock_def)
qed (auto simp: broadcastBlock_def srv_broadcast_def)

text \<open>
  The block a node has built can be added by any node with the same chain: by itself, whatever has
  happened to its pool and its peers since.
\<close>

lemma own_block_added:
  assumes ok: "srv_ok P s" and ne: "bc_Headers (srv_chain s) \<noteq> []"
    and bound: "length (bc_Headers (srv_chain s)) < 2 ^ 32"
    and P: "signatures_verify P" "sha_fixed_length P" and key: "srv_PrivateKey s = Some k"
    and pend: "\<forall>tx\<in>set (Pending (srv_mempool s)). value_only tx"
    and free: "\<not> bc_stateLock (srv_chain s)" and w: "writable d (srv_chain s)"
    and new: "NewBlockFromPrevHeader P now (last (bc_Headers (srv_chain s))) (Pending (srv_mempool s)) = Inr b"
    and sign: "Block_Sign P k rnd b = Returns None b'"
    and same: "srv_chain t = srv_chain s"
  shows "\<exists>s'. recover_nil (add_own_block P d b') t = Returns None s'
    \<and> bc_Headers (srv_chain s') = bc_Headers (srv_chain s) @ [blk_Header b']
    \<and> srv_mempool s' = ClearPending (srv_mempool t)"
proof -
  note v = built_block_extends [OF ok ne bound P(1) new sign]
  note c = createNewBlock_adds [OF ok ne bound P(1) key new sign, of d]
  have g: "\<forall>tx\<in>set (Pending (srv_mempool s)). gob_tx P tx \<noteq> None"
    using new by (auto simp: NewBlockFromPrevHeader_Inr CalculateDataHash_def dest: encode_txs_all)
  have "\<forall>tx\<in>set (Pending (srv_mempool s)). settled P tx"
    using srv_okD(2) [OF ok] verified_settled by blast
  with g have "\<forall>tx\<in>set (Pending (srv_mempool s)). settled P tx \<and> gob_tx P tx \<noteq> None" by blast
  with pend obtain bc b'' where add: "addBlockWithoutValidation P d (srv_chain s, b') = Returns None (bc, b'')"
    "bc_Headers bc = bc_Headers (srv_chain s) @ [blk_Header b']"
    using addBlock_writes [OF P(2) free w, of b'] unfolding v(4) by blast
  obtain e s' where "broadcastBlock P b'' (t\<lparr>srv_chain := bc, srv_mempool := ClearPending (srv_mempool t)\<rparr>)
      = Returns e s'" "srv_chain s' = bc" "srv_mempool s' = ClearPending (srv_mempool t)"
    using broadcastBlock_returns by force
  then show ?thesis
    by (simp add: recover_nil_def add_own_block_def same c(2) add seq_def)
qed

text \<open>
  C9: the tick of a validator makes progress. In a reachable state whose chain is not locked and
  whose store takes writes, with only plain value transactions pending, a block can be built and
  signed; its own validation accepts it, and the tick ends without an error: the block's header
  is appended to the chain and no transaction is pending any more.
\<close>

theorem tick_produces_block:
  assumes r: "node_reachable P s" and bound: "length (bc_Headers (srv_chain s)) < 2 ^ 32"
    and P: "signatures_verify P" "sha_fixed_length P" and key: "srv_PrivateKey s = Some k"
    and pend: "\<forall>tx\<in>set (Pending (srv_mempool s)). value_only tx"
    and free: "\<not> bc_stateLock (srv_chain s)" and w: "writable d (srv_chain s)"
    and new: "NewBlockFromPrevHeader P now (last (bc_Headers (srv_chain s))) (Pending (srv_mempool s)) = Inr b"
    and sign: "Block_Sign P k rnd b = Returns None b'"
  shows "\<exists>s'. handle_event P d (EvTick now rnd) s = Returns None s'
    \<and> bc_Headers (srv_chain s') = bc_Headers (srv_chain s) @ [blk_Header b']
    \<and> Pending (srv_mempool s') = []"
proof -
  from reachable_srv_ok [OF r] have ok: "srv_ok P s" and ne: "bc_Headers (srv_chain s) \<noteq> []" by blast+
  obtain s' where "recover_nil (add_own_block P d b') s = Returns None s'"
    "bc_Headers (srv_chain s') = bc_Headers (srv_chain s) @ [blk_Header b']"
    "srv_mempool s' = ClearPending (srv_mempool s)"
    using own_block_added [OF ok ne bound P key pend free w new sign refl] by blast
  moreover have "handle_event P d (EvTick now rnd) s = recover_nil (add_own_block P d b') s"
    using key createNewBlock_adds(1) [OF ok ne bound P(1) key new sign, of d]
    by (simp add: handle_event_def isValidator_def)
  ultimately show ?thesis by (simp add: Pending_items pool_ok_ClearPending)
qed

section \<open>One student transaction\<close>

primrec run_events :: "'z net_prims_scheme \<Rightarrow> (disk \<times> event) list \<Rightarrow> Server \<Rightarrow> Server" where
  "run_events P [] s = s"
| "run_events P (de # des) s =
     run_events P des (out_state (handle_event P (fst de) (snd de) s))"

lemma run_events_frozen:
  "bc_stateLock (srv_chain s) \<Longrightarrow> srv_chain (run_events P evs s) = srv_chain s"
proof (induction evs arbitrary: s)
  case (Cons de evs)
  let ?s = "out_state (handle_event P (fst de) (snd de) s)"
  have c: "srv_chain ?s = srv_chain s"
    using frozen.keeps_out [OF frozen.keeps_handle_event] Cons.prems by blast
  have "bc_stateLock (srv_chain ?s)" unfolding c by (rule Cons.prems)
  from Cons.IH [OF this] show ?case unfolding run_events.simps c .
qed simp

lemma student_tick_blocks:
  assumes r: "node_reachable P s" and bound: "length (bc_Headers (srv_chain s)) < 2 ^ 32"
    and P: "signatures_verify P" and key: "srv_PrivateKey s = Some k"
    and pend: "Pending (srv_mempool s) = tx # rest"
    and tx: "tx_TxInner tx = InStudent t" "tx_Data tx = []"
    and new: "NewBlockFromPrevHeader P now (last (bc_Headers (srv_chain s))) (Pending (srv_mempool s)) = Inr b"
    and sign: "Block_Sign P k rnd b = Returns None b'"
  shows "\<exists>s'. handle_event P d (EvTick now rnd) s = Blocks s' \<and> bc_stateLock (srv_chain s')
    \<and> bc_Headers (srv_chain s') = bc_Headers (srv_chain s)
    \<and> (\<forall>evs. srv_chain (run_events P evs s') = srv_chain s')"
proof -
  from reachable_srv_ok [OF r] have ok: "srv_ok P s" and ne: "bc_Headers (srv_chain s) \<noteq> []" by blast+
  note v = built_block_extends [OF ok ne bound P new sign]
  note c = createNewBlock_adds [OF ok ne bound P key new sign, of d]
  let ?bc = "srv_chain s"
  have txs: "blk_Transactions b' = tx # rest" using v(4) pend by simp
  have "Transaction_Verify P tx = Returns None tx" using srv_okD(2) [OF ok] by (simp add: pend)
  then obtain h where h: "Transaction_Hash P tx = Returns h tx" by (auto elim: Transaction_Verify_accepted)
  have "\<exists>bc1 b1. addBlockWithoutValidation P d (?bc, b') = Blocks (bc1, b1) \<and> bc_stateLock bc1
      \<and> bc_Headers bc1 = bc_Headers ?bc"
  proof (cases "bc_stateLock ?bc")
    case True
    then show ?thesis by (simp add: addBlock_locked)
  next
    case False
    have "handleTransaction P (?bc\<lparr>bc_stateLock := True\<rparr>, tx) = Blocks (?bc\<lparr>bc_stateLock := True\<rparr>, tx)"
      by (rule handle_student_locked [OF _ tx h]) simp
    with False show ?thesis by (simp add: addBlockWithoutValidation_def txs)
  qed
  then obtain bc1 b1 where b1: "addBlockWithoutValidation P d (?bc, b') = Blocks (bc1, b1)"
    "bc_stateLock bc1" "bc_Headers bc1 = bc_Headers ?bc" by blast
  let ?s' = "s\<lparr>srv_chain := bc1\<rparr>"
  have "handle_event P d (EvTick now rnd) s = createNewBlock P d now rnd s"
    using key by (simp add: handle_event_def isValidator_def)
  also have "\<dots> = recover_nil (add_own_block P d b') s" by (rule c(1))
  also have "\<dots> = Blocks ?s'" by (simp add: recover_nil_def add_own_block_def c(2) b1(1))
  finally have e: "handle_event P d (EvTick now rnd) s = Blocks ?s'" .
  have "srv_chain (run_events P evs ?s') = srv_chain ?s'" for evs
    by (rule run_events_frozen) (simp add: b1(2))
  with e b1(2,3) show ?thesis by (intro exI [of _ ?s'] conjI allI) (simp_all del: run_events.simps)
qed

text \<open>
  When a student transaction without data is the first pending one, the next tick of the
  validator never ends: it holds the state lock, and whatever happens to the node afterwards, its
  chain does not change any more.
\<close>

theorem student_tx_halts_node:
  assumes r: "node_reachable P s" and bound: "length (bc_Headers (srv_chain s)) < 2 ^ 32"
    and P: "signatures_verify P" and key: "srv_PrivateKey s = Some k"
    and pend: "Pending (srv_mempool s) = tx # rest"
    and tx: "tx_TxInner tx = InStudent t" "tx_Data tx = []"
    and new: "NewBlockFromPrevHeader P now (last (bc_Headers (srv_chain s))) (Pending (srv_mempool s)) = Inr b"
    and sign: "Block_Sign P k rnd b = Returns None b'"
  shows "\<exists>s'. handle_event P d (EvTick now rnd) s = Blocks s' \<and> bc_stateLock (srv_chain s')
    \<and> bc_Headers (srv_chain s') = bc_Headers (srv_chain s)
    \<and> (\<forall>evs. srv_chain (run_events P evs s') = srv_chain s')"
  by (rule student_tick_blocks [OF assms])

section \<open>Instances\<close>

lemma demo_block_build:
  "\<exists>b b'. NewBlockFromPrevHeader demo_node_prims now h ts = Inr b
    \<and> Block_Sign demo_node_prims 5 rnd b = Returns None b'"
proof -
  have "\<exists>x. encode_txs demo_node_prims w ts = Some x" for w
  proof (induction ts arbitrary: w)
    case (Cons tx ts)
    obtain y where "gob_tx demo_node_prims tx = Some y" using demo_node_prims_ok(4) [of tx] by blast
    with Cons.IH show ?case by (simp add: tx_coding)
  qed simp
  then obtain dh where "CalculateDataHash demo_node_prims ts = Some dh"
    by (metis CalculateDataHash_def option.map(2))
  then obtain b where b: "NewBlockFromPrevHeader demo_node_prims now h ts = Inr b"
    by (auto simp: NewBlockFromPrevHeader_Inr)
  obtain sg where "PrivateKey_Sign demo_node_prims 5 rnd (Header_Bytes demo_node_prims (blk_Header b)) = Some sg"
    using demo_sign(1) by blast
  with b show ?thesis by (simp add: Block_Sign_Returns)
qed

theorem tick_produces_block_witness:
  "\<exists>s s' h. length (bc_Headers (srv_chain s)) = 1
    \<and> handle_event demo_node_prims good_disk (EvTick 1000 0) s = Returns None s'
    \<and> bc_Headers (srv_chain s') = bc_Headers (srv_chain s) @ [h]"
proof -
  obtain s where s: "node_reachable demo_node_prims s" "length (bc_Headers (srv_chain s)) = 1"
    "\<not> bc_stateLock (srv_chain s)" "writable good_disk (srv_chain s)"
    "srv_PrivateKey s = Some 5" "srv_mempool s = NewTxPool 1000"
    using demo_server_reachable by blast
  have e: "Pending (srv_mempool s) = []"
    by (simp add: s(6) NewTxPool_def Pending_items)
  have pend: "\<forall>tx\<in>set (Pending (srv_mempool s)). value_only tx" by (simp add: e)
  have bound: "length (bc_Headers (srv_chain s)) < 2 ^ 32" by (simp add: s(2))
  obtain b b' where b: "NewBlockFromPrevHeader demo_node_prims 1000 (last (bc_Headers (srv_chain s)))
      (Pending (srv_mempool s)) = Inr b"
    and sg: "Block_Sign demo_node_prims 5 0 b = Returns None b'"
    using demo_block_build by blast
  from tick_produces_block [OF s(1) bound demo_node_prims_ok(2,1) s(5) pend s(3,4) b sg] s(2)
  show ?thesis by blast
qed

text \<open>A signed transaction that creates a student, as the client sends it.\<close>

definition demo_enrol_tx :: Transaction where
  "demo_enrol_tx = demo_tx\<lparr>tx_TxInner := InStudent
     \<lparr>stx_Type = StudentTxTypeCreate, stx_StudentID = ''S1'', stx_Student = None, stx_Fee = 100\<rparr>\<rparr>"

lemma demo_enrol_verifies: "Transaction_Verify demo_node_prims demo_enrol_tx = Returns None demo_enrol_tx"
  by (simp add: Transaction_Verify_def seq_def Transaction_Hash_def demo_enrol_tx_def demo_tx_def
      Hash_IsZero_def Signature_Verify_def demo_node_prims_def demo_net_prims_def demo_prims_def
      sum_list_replicate)

theorem student_tx_halts_node_witness:
  "\<exists>s s'. srv_PrivateKey s = Some 5
    \<and> handle_event demo_node_prims good_disk (EvTick 1000 0)
        (out_state (handle_event demo_node_prims good_disk (EvTx demo_enrol_tx) s)) = Blocks s'
    \<and> bc_stateLock (srv_chain s')"
proof -
  obtain s where s: "node_reachable demo_node_prims s" "length (bc_Headers (srv_chain s)) = 1"
    "srv_PrivateKey s = Some 5" "srv_mempool s = NewTxPool 1000"
    using demo_server_reachable by blast
  then have ok: "srv_ok demo_node_prims s" using reachable_srv_ok by blast
  obtain p' where p': "processTransaction demo_node_prims demo_enrol_tx s
      = Returns None ((spawn (TaskTx demo_enrol_tx) s)\<lparr>srv_mempool := p'\<rparr>)"
    "Pending p' = [demo_enrol_tx]"
    using processTransaction_adds [OF ok demo_enrol_verifies] by (metis s(4) empty_pool)
  let ?s1 = "(spawn (TaskTx demo_enrol_tx) s)\<lparr>srv_mempool := p'\<rparr>"
  have e: "out_state (handle_event demo_node_prims good_disk (EvTx demo_enrol_tx) s) = ?s1"
    by (simp add: handle_event_def p'(1))
  have r: "node_reachable demo_node_prims ?s1"
    using node_reachable.event [OF s(1), of good_disk "EvTx demo_enrol_tx"] by (simp add: e)
  have c: "srv_chain ?s1 = srv_chain s" "srv_PrivateKey ?s1 = Some 5" "Pending (srv_mempool ?s1) = demo_enrol_tx # []"
    by (simp_all add: spawn_def s(3) p'(2))
  have bound: "length (bc_Headers (srv_chain ?s1)) < 2 ^ 32" by (simp add: c(1) s(2))
  have t: "tx_TxInner demo_enrol_tx = InStudent \<lparr>stx_Type = StudentTxTypeCreate,
      stx_StudentID = ''S1'', stx_Student = None, stx_Fee = 100\<rparr>" "tx_Data demo_enrol_tx = []"
    by (simp_all add: demo_enrol_tx_def demo_tx_def)
  obtain b b' where b: "NewBlockFromPrevHeader demo_node_prims 1000 (last (bc_Headers (srv_chain ?s1)))
      (Pending (srv_mempool ?s1)) = Inr b"
    and sg: "Block_Sign demo_node_prims 5 0 b = Returns None b'"
    using demo_block_build by blast
  from student_tx_halts_node [OF r bound demo_node_prims_ok(2) c(2,3) t b sg, of good_disk]
  show ?thesis using s(3) by (auto simp: e)
qed

end
