(* ===== verification/Node_Sync.thy ===== *)
theory Node_Sync
  imports Node_Progress
begin

text \<open>
  How nodes reach the same chain: a node that is behind takes the blocks of a peer and ends on the
  peer's chain, and it makes no difference whether blocks come one at a time or in one message.
\<close>

section \<open>Taking a block\<close>

lemma remove_txs_returns:
  assumes "\<forall>tx\<in>set ts. settled P tx" and "pool_ok P (srv_mempool s)"
  shows "\<exists>p. remove_txs P ts s = Returns () (s\<lparr>srv_mempool := p\<rparr>)"
  using assms
proof (induction ts arbitrary: s)
  case Nil
  have "s = s\<lparr>srv_mempool := srv_mempool s\<rparr>" by simp
  then show ?case by (intro exI [of _ "srv_mempool s"]) simp
next
  case (Cons tx ts)
  obtain h where h: "Transaction_Hash P tx = Returns h tx" using Cons.prems(1) by (auto simp: settled_def)
  obtain p where p: "TxPool_Remove (srv_mempool s) h = Some p" "pool_ok P p"
    using TxPool_Remove_ok [OF Cons.prems(2)] by blast
  have "pool_ok P (srv_mempool (s\<lparr>srv_mempool := p\<rparr>))" by (simp add: p(2))
  from Cons.IH [OF _ this] Cons.prems(1) h p(1) show ?case by auto
qed

lemma verified_block_settled:
  assumes "Block_Verify P b = Returns None b"
  shows "\<forall>tx\<in>set (blk_Transactions b). settled P tx \<and> gob_tx P tx \<noteq> None"
proof -
  from assms obtain ts where ts: "verify_txs P (blk_Transactions b) = Returns None ts"
    "b = b\<lparr>blk_Transactions := ts\<rparr>" unfolding Block_Verify_accepts_iff by blast
  from arg_cong [OF ts(2), of blk_Transactions] have e: "blk_Transactions b = ts" by simp
  have "\<forall>tx\<in>set ts. settled P tx"
    using verify_txs_accepted_fixed [OF ts(1)] verified_settled by blast
  moreover have "\<forall>tx\<in>set (blk_Transactions b). gob_tx P tx \<noteq> None"
    using Block_Verify_data_hash [OF assms] by (auto simp: CalculateDataHash_def dest: encode_txs_all)
  ultimately show ?thesis by (simp add: e)
qed

text \<open>A block that verifies as it is, of plain value transactions.\<close>

definition plain_block :: "'z prims_scheme \<Rightarrow> Block \<Rightarrow> bool" where
  "plain_block P b \<longleftrightarrow> Block_Verify P b = Returns None b \<and> (\<forall>tx\<in>set (blk_Transactions b). value_only tx)"

definition ready :: "'z net_prims_scheme \<Rightarrow> disk \<Rightarrow> Server \<Rightarrow> bool" where
  "ready P d s \<longleftrightarrow> srv_ok P s \<and> bc_Headers (srv_chain s) \<noteq> [] \<and> \<not> bc_stateLock (srv_chain s)
     \<and> writable d (srv_chain s)"

lemma readyD:
  assumes "ready P d s"
  shows "srv_ok P s" and "bc_Headers (srv_chain s) \<noteq> []" and "\<not> bc_stateLock (srv_chain s)"
    and "writable d (srv_chain s)" and "chain_ok P (srv_chain s)" and "pool_ok P (srv_mempool s)"
  using assms unfolding ready_def srv_ok_def by blast+

lemma accept_block_extends:
  assumes P: "sha_fixed_length P" and s: "ready P d s" and b: "plain_block P b"
    and ext: "extends P (srv_chain s) (blk_Header b)"
  shows "\<exists>s' b'. accept_block P d (Some b) s = Returns (Accepted b') s'
    \<and> bc_Headers (srv_chain s') = bc_Headers (srv_chain s) @ [blk_Header b] \<and> ready P d s'"
proof -
  note r = readyD [OF s]
  let ?bc = "srv_chain s"
  from b have v: "Block_Verify P b = Returns None b" and vo: "\<forall>tx\<in>set (blk_Transactions b). value_only tx"
    by (simp_all add: plain_block_def)
  obtain h b0 where b0: "Block_Hash P b = Returns h b0" "b0 = b\<lparr>blk_hash := h\<rparr>"
    using Block_Hash_returns by blast
  have v0: "Block_Verify P b0 = Returns None b0" using Block_Verify_hash_cache [OF v] b0(2) by simp
  have "extends P ?bc (blk_Header b0)" using ext b0(2) by simp
  from ValidateBlock_complete [OF r(5,2) this v0]
  have a: "AddBlock P d (ValidateBlock P) (?bc, b0) = addBlockWithoutValidation P d (?bc, b0)"
    by (simp add: AddBlock_def seq_def)
  note st = verified_block_settled [OF v0]
  have vo0: "\<forall>tx\<in>set (blk_Transactions b0). value_only tx" using vo b0(2) by simp
  obtain bc' b' where add: "addBlockWithoutValidation P d (?bc, b0) = Returns None (bc', b')"
    "bc_Headers bc' = bc_Headers ?bc @ [blk_Header b0]" "\<not> bc_stateLock bc'" "writable d bc'"
    using addBlock_writes [OF P r(3,4) vo0 disjI1 [OF st]] by blast
  have "\<forall>tx\<in>set (blk_Transactions b'). settled P tx"
  proof (rule block_validator.AddBlock_success [OF r(5) a [unfolded add(1)]])
    fix b1 res bc1 ts hash b2 st'
    assume "ValidateBlock P (?bc, b0) = Returns None (?bc, b1)"
      and h: "handle_txs P (blk_Transactions b1) (?bc\<lparr>bc_stateLock := True\<rparr>) = Returns res (bc1, ts)"
      and bh: "Block_Hash P (b1\<lparr>blk_Transactions := res\<rparr>) = Returns hash b2" and oc: "only_caches b2 b'"
    then have "b1 = b0" using v0 ValidateBlock_accepts(5) by fastforce
    then have "subseq res (blk_Transactions b0)" using handle_txs_settled [OF h] st by simp
    then have "set res \<subseteq> set (blk_Transactions b0)" by (auto elim: list_emb_set)
    moreover have "blk_Transactions b' = res"
      using only_caches_fields(2) [OF oc] Block_Hash_frame(2) [OF bh] by simp
    ultimately show ?thesis using st by blast
  qed
  then obtain p where p: "remove_txs P (blk_Transactions b') (s\<lparr>srv_chain := bc'\<rparr>)
      = Returns () (s\<lparr>srv_chain := bc', srv_mempool := p\<rparr>)"
    using remove_txs_returns [of "blk_Transactions b'" P "s\<lparr>srv_chain := bc'\<rparr>"] r(6) by auto
  have acc: "accept_block P d (Some b) s = Returns (Accepted b') (s\<lparr>srv_chain := bc', srv_mempool := p\<rparr>)"
    by (simp add: accept_block_def b0(1) v0 a add(1) seq_def p)
  have "srv_ok P (out_state (accept_block P d (Some b) s))"
    using srv_inv.keeps_out [OF srv_inv.keeps_accept_block] r(1) by blast
  with acc add(2-4) b0(2) show ?thesis by (simp add: ready_def)
qed

section \<open>Catching up\<close>

text \<open>The blocks continue the headers, one height after another.\<close>

primrec follows :: "'z prims_scheme \<Rightarrow> Header list \<Rightarrow> Block list \<Rightarrow> bool" where
  "follows P hs [] = True"
| "follows P hs (b # bs) \<longleftrightarrow> unat (Height (blk_Header b)) = length hs
     \<and> PrevBlockHash (blk_Header b) = BlockHasher_Hash P (last hs)
     \<and> follows P (hs @ [blk_Header b]) bs"

lemma processBlocksMessage_follows:
  assumes P: "sha_fixed_length P" and "ready P d s" and "\<forall>b\<in>set bs. plain_block P b"
    and "follows P (bc_Headers (srv_chain s)) bs"
  shows "\<exists>s'. processBlocksMessage P d (map Some bs) s = Returns None s'
    \<and> bc_Headers (srv_chain s') = bc_Headers (srv_chain s) @ map blk_Header bs \<and> ready P d s'"
  using assms(2-)
proof (induction bs arbitrary: s)
  case (Cons b bs)
  from Cons.prems(2,3) have b: "plain_block P b" "extends P (srv_chain s) (blk_Header b)"
    by (simp_all add: extends_def)
  obtain s1 b' where s1: "accept_block P d (Some b) s = Returns (Accepted b') s1"
    "bc_Headers (srv_chain s1) = bc_Headers (srv_chain s) @ [blk_Header b]" "ready P d s1"
    using accept_block_extends [OF P Cons.prems(1) b] by blast
  let ?s1 = "spawn (TaskBlock b') s1"
  have c: "srv_chain ?s1 = srv_chain s1" by (simp add: spawn_def)
  have "ready P d ?s1" using s1(3) by (simp add: ready_def srv_ok_def spawn_def)
  moreover have "follows P (bc_Headers (srv_chain ?s1)) bs" using Cons.prems(3) s1(2) c by simp
  ultimately obtain s' where "processBlocksMessage P d (map Some bs) ?s1 = Returns None s'"
    "bc_Headers (srv_chain s') = bc_Headers (srv_chain ?s1) @ map blk_Header bs" "ready P d s'"
    using Cons.IH Cons.prems(2) by fastforce
  then show ?case using s1(1,2) c by (simp add: seq_def)
qed simp

lemma links_follows:
  assumes "chain_ok P bc" and "0 < n" and "n \<le> length (bc_blocks bc)"
  shows "follows P (take n (bc_Headers bc)) (drop n (bc_blocks bc))"
  using assms(2,3)
proof (induction "length (bc_blocks bc) - n" arbitrary: n)
  case (Suc k)
  have m: "map blk_Header (bc_blocks bc) = bc_Headers bc" and lk: "links P (bc_Headers bc)"
    using assms(1) by (simp_all add: chain_ok_def)
  have l: "length (bc_Headers bc) = length (bc_blocks bc)" by (metis length_map m)
  from Suc.hyps(2) have n: "n < length (bc_blocks bc)" by simp
  then have h: "blk_Header (bc_blocks bc ! n) = bc_Headers bc ! n" by (metis m nth_map)
  have t: "take n (bc_Headers bc) @ [bc_Headers bc ! n] = take (Suc n) (bc_Headers bc)"
    using n l by (simp add: take_Suc_conv_app_nth)
  have "last (take n (bc_Headers bc)) = bc_Headers bc ! (n - 1)"
    using n l Suc.prems(1) by (cases n) (simp_all add: take_Suc_conv_app_nth)
  then show ?case
    using Suc.hyps(1) [of "Suc n"] Suc.hyps(2) n l h t lk Suc.prems(1)
    by (simp add: links_def Cons_nth_drop_Suc [symmetric] del: drop_append)
qed simp

lemma decode_blocks:
  assumes "gob_ok P" and "gob_blocks P bs = Some x"
  shows "DefaultRPCDecodeFunc P (payload P MessageTypeBlocks x) = Inr (DBlocks (map (Some \<circ> sent_block) bs))"
  using assms
  by (simp add: DefaultRPCDecodeFunc_def payload_def Message_Bytes_def gob_ok_def NewMessage_def
      message_type_defs decode_data_def)

lemma plain_block_sent: "plain_block P b \<Longrightarrow> plain_block P (sent_block b)"
  using Block_Verify_hash_cache [of P b b zero_hash] by (simp add: plain_block_def sent_block_def)

lemma follows_sent: "follows P hs (map sent_block bs) = follows P hs bs"
  by (induction bs arbitrary: hs) (simp_all add: sent_block_def)

text \<open>
  A node catches up with a peer whose chain continues its own. When it gets, in one message,
  the peer's blocks from its own length on, and these verify and hold plain value transactions,
  the message is handled without an error and the node has the peer's headers, in order.
\<close>

theorem peer_catches_up:
  assumes P: "sha_fixed_length P" and g: "gob_ok P" and A: "chain_ok P bcA"
    and s: "ready P d s" and n: "bc_Headers (srv_chain s) = take n (bc_Headers bcA)"
    and bs: "\<forall>b\<in>set (drop n (bc_blocks bcA)). plain_block P b"
    and x: "gob_blocks P (drop n (bc_blocks bcA)) = Some x"
  shows "\<exists>s'. handle_event P d (EvRpc a (payload P MessageTypeBlocks x)) s = Returns None s'
    \<and> bc_Headers (srv_chain s') = bc_Headers bcA"
proof -
  let ?bs = "map sent_block (drop n (bc_blocks bcA))"
  have m: "map blk_Header (bc_blocks bcA) = bc_Headers bcA" using A by (simp add: chain_ok_def)
  have "0 < n" using readyD(2) [OF s] n by (cases n) auto
  have "follows P (bc_Headers (srv_chain s)) ?bs"
  proof (cases "n \<le> length (bc_blocks bcA)")
    case True
    then show ?thesis unfolding follows_sent n by (rule links_follows [OF A \<open>0 < n\<close>])
  qed simp
  moreover have "\<forall>b\<in>set ?bs. plain_block P b" using bs plain_block_sent by auto
  ultimately obtain s' where s': "processBlocksMessage P d (map Some ?bs) s = Returns None s'"
    "bc_Headers (srv_chain s') = bc_Headers (srv_chain s) @ map blk_Header ?bs"
    using processBlocksMessage_follows [OF P s] by blast
  have "map blk_Header ?bs = drop n (bc_Headers bcA)"
    by (simp add: sent_block_def comp_def drop_map [symmetric] m)
  then have "bc_Headers (srv_chain s') = bc_Headers bcA" using s'(2) n by simp
  moreover have "handle_event P d (EvRpc a (payload P MessageTypeBlocks x)) s = Returns None s'"
    using s'(1) by (simp add: handle_event_def decode_blocks [OF g x] ProcessMessage_def)
  ultimately show ?thesis by blast
qed

section \<open>One message or many\<close>

text \<open>The blocks of a message delivered one after another, as long as the node runs.\<close>

primrec deliver_each :: "'z net_prims_scheme \<Rightarrow> disk \<Rightarrow> net_block list \<Rightarrow> server_error option handler" where
  "deliver_each P d [] = ret None"
| "deliver_each P d (nb # nbs) = seq (processBlock P d nb) (\<lambda>_. deliver_each P d nbs)"

definition core :: "Server \<Rightarrow> Blockchain \<times> TxPool" where
  "core s = (srv_chain s, srv_mempool s)"

lemma remove_txs_core:
  "map_outcome id core (remove_txs P ts s) = map_outcome id core (remove_txs P ts t)"
  if "core s = core t"
  using that
proof (induction ts arbitrary: s t)
  case (Cons tx ts)
  have e: "srv_mempool s = srv_mempool t" "srv_chain s = srv_chain t" using Cons.prems by (simp_all add: core_def)
  show ?case
  proof (cases "Transaction_Hash P tx")
    case (Returns h tx')
    show ?thesis
    proof (cases "TxPool_Remove (srv_mempool t) h")
      case (Some p)
      have "core (s\<lparr>srv_mempool := p\<rparr>) = core (t\<lparr>srv_mempool := p\<rparr>)" using e by (simp add: core_def)
      from Cons.IH [OF this] Returns Some e show ?thesis by simp
    qed (use Returns e Cons.prems in simp)
  qed (use Cons.prems in simp_all)
qed simp

lemma accept_block_core:
  assumes "core s = core t"
  shows "map_outcome id core (accept_block P d nb s) = map_outcome id core (accept_block P d nb t)"
proof -
  have e: "srv_mempool s = srv_mempool t" "srv_chain s = srv_chain t" using assms by (simp_all add: core_def)
  have c: "core (s\<lparr>srv_chain := bc\<rparr>) = core (t\<lparr>srv_chain := bc\<rparr>)" for bc using e by (simp add: core_def)
  have r: "map_outcome id core (seq (remove_txs P ts) (\<lambda>_. ret r) (s\<lparr>srv_chain := bc\<rparr>))
      = map_outcome id core (seq (remove_txs P ts) (\<lambda>_. ret r) (t\<lparr>srv_chain := bc\<rparr>))" for ts r bc
    using remove_txs_core [OF c, of P ts bc]
    by (cases "remove_txs P ts (s\<lparr>srv_chain := bc\<rparr>)"; cases "remove_txs P ts (t\<lparr>srv_chain := bc\<rparr>)")
      (simp_all add: seq_def)
  show ?thesis
    using assms
    by (simp add: accept_block_def e c r split: option.split outcome.split)
qed

text \<open>
  C21: blocks that arrive together have the same effect on the chain and on the pool as the same
  blocks one at a time, whatever the blocks are and however handling them ends.
\<close>

theorem batch_is_singles:
  "map_outcome (\<lambda>_. ()) core (processBlocksMessage P d nbs s)
    = map_outcome (\<lambda>_. ()) core (deliver_each P d nbs s)"
proof -
  have "map_outcome (\<lambda>_. ()) core (processBlocksMessage P d nbs s)
      = map_outcome (\<lambda>_. ()) core (deliver_each P d nbs t)" if "core s = core t" for s t
    using that
  proof (induction nbs arbitrary: s t)
    case Nil
    then show ?case by simp
  next
    case (Cons nb nbs)
    note a = accept_block_core [OF Cons.prems, of P d nb]
    have sp: "core (case r of Accepted b \<Rightarrow> spawn (TaskBlock b) u | _ \<Rightarrow> u) = core u" for r u
      by (simp add: core_def spawn_def split: accepting.split)
    show ?case
    proof (cases "accept_block P d nb t")
      case (Returns r t1)
      with a obtain s1 where s1: "accept_block P d nb s = Returns r s1" "core s1 = core t1"
        by (cases "accept_block P d nb s") simp_all
      obtain e t2 where t2: "processBlock P d nb t = Returns e t2" "core t2 = core t1"
      proof (cases r)
        case (Accepted b)
        obtain e ps where "broadcastBlock P b t1 = Returns e (t1\<lparr>srv_peers := ps\<rparr>)"
          using broadcastBlock_returns by blast
        then show ?thesis
          using that [of None "t1\<lparr>srv_peers := ps\<rparr>"] Returns Accepted
          by (simp add: processBlock_def seq_def core_def)
      qed (use that Returns in \<open>auto simp: processBlock_def seq_def\<close>)
      let ?s2 = "case r of Accepted b \<Rightarrow> spawn (TaskBlock b) s1 | _ \<Rightarrow> s1"
      have "core ?s2 = core t2" using sp s1(2) t2(2) by simp
      from Cons.IH [OF this] show ?thesis by (simp add: seq_def s1(1) t2(1))
    next
      case (Panics t1)
      with a obtain s1 where "accept_block P d nb s = Panics s1" "core s1 = core t1"
        by (cases "accept_block P d nb s") simp_all
      with Panics show ?thesis by (simp add: seq_def processBlock_def)
    next
      case (Blocks t1)
      with a obtain s1 where "accept_block P d nb s = Blocks s1" "core s1 = core t1"
        by (cases "accept_block P d nb s") simp_all
      with Blocks show ?thesis by (simp add: seq_def processBlock_def)
    qed
  qed
  then show ?thesis by blast
qed

section \<open>Instances\<close>

lemma demo_net_fields:
  "sha256 demo_net_prims = sha256 demo_block_prims" "gob_header demo_net_prims = gob_header demo_block_prims"
  "ecdsa_verify demo_net_prims = ecdsa_verify demo_block_prims"
  "gob_tx demo_net_prims demo_tx = gob_tx demo_block_prims demo_tx"
  by (simp_all add: demo_net_prims_def demo_block_prims_def)

lemma demo_net_hash: "BlockHasher_Hash demo_net_prims h = BlockHasher_Hash demo_block_prims h"
  by (simp add: BlockHasher_Hash_def Header_Bytes_def demo_net_fields)

lemma demo_plain_block: "plain_block demo_net_prims demo_block"
proof -
  obtain sg where a: "blk_Signature demo_block = Some sg"
    "Signature_Verify demo_block_prims sg (blk_Validator demo_block)
      (Header_Bytes demo_block_prims (blk_Header demo_block)) = Some True"
    using demo_block_verifies unfolding Block_Verify_accepts_iff by blast
  have d: "CalculateDataHash demo_block_prims [demo_tx] = Some (DataHash (blk_Header demo_block))"
    using Block_Verify_data_hash [OF demo_block_verifies] by (simp add: demo_block_transactions)
  have "Transaction_Verify demo_net_prims demo_tx = Returns None demo_tx"
    by (simp add: Transaction_Verify_def seq_def Transaction_Hash_def demo_tx_def Hash_IsZero_def
        Signature_Verify_def demo_net_prims_def demo_prims_def sum_list_replicate)
  then have "verify_txs demo_net_prims [demo_tx] = Returns None [demo_tx]" by (simp add: verify_txs_fixed)
  moreover have "CalculateDataHash demo_net_prims [demo_tx] = Some (DataHash (blk_Header demo_block))"
    using d by (cases "gob_tx demo_block_prims demo_tx")
      (simp_all add: CalculateDataHash_def tx_coding demo_net_fields)
  moreover have "Signature_Verify demo_net_prims sg (blk_Validator demo_block)
      (Header_Bytes demo_net_prims (blk_Header demo_block)) = Some True"
    using a(2) by (simp add: Signature_Verify_def Header_Bytes_def demo_net_fields)
  moreover have "demo_block = demo_block\<lparr>blk_Transactions := [demo_tx]\<rparr>"
    by (simp flip: demo_block_transactions)
  ultimately have "Block_Verify demo_net_prims demo_block = Returns None demo_block"
    unfolding Block_Verify_accepts_iff demo_block_transactions using a(1) by blast
  then show ?thesis
    by (simp add: plain_block_def demo_block_transactions value_only_def) (simp add: demo_tx_def)
qed

definition demo_follower :: Server where
  "demo_follower = \<lparr>srv_chain = demo_chain, srv_mempool = NewTxPool 1000, srv_peers = [],
     srv_PrivateKey = None, srv_ID = ''B'', srv_tasks = []\<rparr>"

definition demo_leader_chain :: Blockchain where
  "demo_leader_chain = append_block demo_hash demo_chain demo_block"

lemma demo_chain_ok_net: "chain_ok demo_net_prims demo_chain"
  using demo_chain_ok by (simp add: chain_ok_def links_def)

lemma demo_leader_chain_ok: "chain_ok demo_net_prims demo_leader_chain"
proof -
  have "extends demo_net_prims demo_chain (blk_Header demo_block)"
    by (simp add: extends_def demo_block_header demo_net_hash demo_hash_def)
  from chain_ok_append [OF demo_chain_ok_net this] show ?thesis by (simp add: demo_leader_chain_def)
qed

lemma demo_follower_ready: "ready demo_net_prims good_disk demo_follower"
proof -
  have "pool_ok demo_net_prims (NewTxPool 1000)" by (rule pool_ok_New) simp
  moreover have "pool_verified demo_net_prims (NewTxPool 1000)" "maxLength (NewTxPool 1000) = 1000"
    by (simp_all add: pool_verified_def Pending_items NewTxPool_def)
  ultimately show ?thesis
    using demo_chain_ok_net good_disk_writes
    by (simp add: ready_def srv_ok_def demo_follower_def writable_def demo_store1_def)
qed

theorem peer_catches_up_witness:
  "\<exists>s'. handle_event demo_net_prims good_disk
        (EvRpc 1 (payload demo_net_prims MessageTypeBlocks [3])) demo_follower = Returns None s'
    \<and> bc_Headers (srv_chain s') = [demo_header, blk_Header demo_block]"
proof -
  have P: "sha_fixed_length demo_net_prims"
    using demo_block_prims_ok by (simp add: sha_fixed_length_def demo_net_fields)
  have hs: "bc_Headers demo_leader_chain = [demo_header, blk_Header demo_block]"
    "bc_blocks demo_leader_chain = [demo_genesis, demo_block]" by (simp_all add: demo_leader_chain_def)
  have n: "bc_Headers (srv_chain demo_follower) = take 1 (bc_Headers demo_leader_chain)"
    by (simp add: hs demo_follower_def)
  have bs: "\<forall>b\<in>set (drop 1 (bc_blocks demo_leader_chain)). plain_block demo_net_prims b"
    by (simp add: hs demo_plain_block)
  have x: "gob_blocks demo_net_prims (drop 1 (bc_blocks demo_leader_chain)) = Some [3]"
    by (simp add: hs demo_net_prims_def)
  from peer_catches_up [OF P demo_gob_ok demo_leader_chain_ok demo_follower_ready n bs x] hs(1)
  show ?thesis by simp
qed

end
