(* ===== verification/Network.thy ===== *)
theory Network
  imports Node_Sync
begin

text \<open>
  How nodes find each other and what two connected nodes achieve: listening and dialling
  (\<open>TCPTransport.Start\<close>, \<open>acceptLoop\<close>, \<open>bootstrapNetwork\<close>), and the conversation of two nodes over
  one connection: two streams of bytes, read in pieces that the network chooses, in an order that it
  chooses.
\<close>

section \<open>Connections\<close>

text \<open>
  What the operating system answers is an argument: a connection is the address of its other end
  and whether writing to it fails.
\<close>

type_synonym connection = "net_addr \<times> bool"

record TCPTransport =
  listenAddr :: string
  listening :: bool

definition NewTCPTransport :: "string \<Rightarrow> TCPTransport" where
  "NewTCPTransport la = \<lparr>listenAddr = la, listening = False\<rparr>"

text \<open>A peer on a new connection, as the accepting and the dialling side make it.\<close>

definition new_peer :: "connection \<Rightarrow> net_addr \<times> TCPPeer" where
  "new_peer c = (fst c, \<lparr>peer_closed = False, conn_open = True, conn_broken = snd c, conn_written = []\<rparr>)"

text \<open>The peers the accepting loop hands on; an error is printed and the loop goes on.\<close>

primrec acceptLoop :: "connection option list \<Rightarrow> (net_addr \<times> TCPPeer) list" where
  "acceptLoop [] = []"
| "acceptLoop (c # cs) = (case c of None \<Rightarrow> acceptLoop cs | Some conn \<Rightarrow> new_peer conn # acceptLoop cs)"

text \<open>
  \<open>ok\<close> is whether listening succeeds. The first component is whether an error is returned, the last
  one the peers that the loop it starts hands on.
\<close>

definition TCPTransport_Start ::
  "bool \<Rightarrow> connection option list \<Rightarrow> TCPTransport \<Rightarrow> bool \<times> TCPTransport \<times> (net_addr \<times> TCPPeer) list" where
  "TCPTransport_Start ok cs t =
     (if ok then (False, t\<lparr>listening := True\<rparr>, acceptLoop cs) else (True, t, []))"

text \<open>One goroutine for each seed node; a failed dial is printed and dropped.\<close>

primrec bootstrapNetwork :: "(string \<Rightarrow> connection option) \<Rightarrow> string list \<Rightarrow> (net_addr \<times> TCPPeer) list" where
  "bootstrapNetwork dial [] = []"
| "bootstrapNetwork dial (seed # seeds) =
     (case dial seed of
        None \<Rightarrow> bootstrapNetwork dial seeds
      | Some conn \<Rightarrow> new_peer conn # bootstrapNetwork dial seeds)"

text \<open>
  The head of \<open>Server.Start\<close>: the error of listening is dropped, and the new peers reach the main
  loop in some order that interleaves the dialled and the accepted ones.
\<close>

definition start_peers ::
  "bool \<Rightarrow> connection option list \<Rightarrow> (string \<Rightarrow> connection option) \<Rightarrow> string list \<Rightarrow> TCPTransport
   \<Rightarrow> TCPTransport \<times> (net_addr \<times> TCPPeer) list set" where
  "start_peers ok cs dial seeds t =
     (case TCPTransport_Start ok cs t of
        (_, t', accepted) \<Rightarrow> (t', shuffles accepted (bootstrapNetwork dial seeds)))"

section \<open>Peers and what was written to them\<close>

definition has_peer :: "net_addr \<Rightarrow> bytes list \<Rightarrow> Server \<Rightarrow> bool" where
  "has_peer a ws s \<longleftrightarrow>
     (\<exists>p. map_of (srv_peers s) a = Some p \<and> working p \<and> conn_written p = ws)"

text \<open>The same node with other peers.\<close>

definition only_peers :: "Server \<Rightarrow> Server \<Rightarrow> bool" where
  "only_peers s s' \<longleftrightarrow> s' = s\<lparr>srv_peers := srv_peers s'\<rparr>"

lemma only_peers_refl [simp]: "only_peers s s"
  by (simp add: only_peers_def)

lemma only_peers_upd [simp]: "only_peers s (s\<lparr>srv_peers := ps\<rparr>)"
  by (simp add: only_peers_def)



lemma map_of_update_peer:
  "map_of (update_peer a p ps) b = (if b = a \<and> map_of ps a \<noteq> None then Some p else map_of ps b)"
  by (induction ps) (auto simp: update_peer_def)

lemma send_to_peer:
  assumes "has_peer a ws s"
  shows "\<exists>s'. send_to a x s = Returns None s' \<and> has_peer a (ws @ [x]) s' \<and> only_peers s s'"
proof -
  from assms obtain p where p: "map_of (srv_peers s) a = Some p" "working p" "conn_written p = ws"
    by (auto simp: has_peer_def)
  let ?p = "p\<lparr>conn_written := ws @ [x]\<rparr>"
  have "Send p x = (None, ?p)" using p(2,3) by (simp add: Send_def working_def)
  then have "send_to a x s = Returns None (s\<lparr>srv_peers := update_peer a ?p (srv_peers s)\<rparr>)"
    by (simp add: send_to_def p(1))
  moreover have "has_peer a (ws @ [x]) (s\<lparr>srv_peers := update_peer a ?p (srv_peers s)\<rparr>)"
    using p(1,2) by (simp add: has_peer_def map_of_update_peer working_def)
  ultimately show ?thesis using only_peers_upd by blast
qed

section \<open>The handlers of the conversation\<close>

abbreviation getstatus_payload :: "'z net_prims_scheme \<Rightarrow> bytes" where
  "getstatus_payload P \<equiv> payload P MessageTypeGetStatus (gob_getstatus P)"




lemma EvPeer_asks:
  assumes "working p" and "conn_written p = []"
  shows "\<exists>s'. handle_event P d (EvPeer a p) s = Returns None s'
    \<and> has_peer a [getstatus_payload P] s' \<and> only_peers s s'"
proof -
  let ?s = "s\<lparr>srv_peers := (a, p) # remove_peer a (srv_peers s)\<rparr>"
  have "has_peer a [] ?s" using assms by (simp add: has_peer_def)
  from send_to_peer [OF this, of "getstatus_payload P"]
  show ?thesis
    by (auto simp: handle_event_def add_peer_def sendGetStatusMessage_def only_peers_def)
qed

lemma EvPeer_others:
  assumes "has_peer b ws s" and "b \<noteq> a"
  shows "has_peer b ws (out_state (handle_event P d (EvPeer a p) s))"
proof -
  have "map_of (remove_peer a ps) b = map_of ps b" for ps
    using assms(2) by (induction ps) (auto simp: remove_peer_def)
  with assms show ?thesis
    by (auto simp: has_peer_def handle_event_def add_peer_def sendGetStatusMessage_def send_to_def
        map_of_update_peer split: option.splits prod.splits)
qed

lemma connected_keep:
  assumes "has_peer b ws s" and "b \<notin> fst ` set aps"
  shows "has_peer b ws (run_events P (map (\<lambda>ap. (d, EvPeer (fst ap) (snd ap))) aps) s)"
  using assms by (induction aps arbitrary: s) (simp_all add: EvPeer_others)

lemma connected_asked:
  assumes "distinct (map fst aps)" and "(a, p) \<in> set aps" and "working p" and "conn_written p = []"
  shows "has_peer a [getstatus_payload P]
    (run_events P (map (\<lambda>ap. (d, EvPeer (fst ap) (snd ap))) aps) s)"
  using assms(1,2)
proof (induction aps arbitrary: s)
  case (Cons ap aps)
  let ?s = "out_state (handle_event P d (EvPeer (fst ap) (snd ap)) s)"
  show ?case
  proof (cases "(a, p) = ap")
    case True
    obtain s' where "handle_event P d (EvPeer a p) s = Returns None s'"
      "has_peer a [getstatus_payload P] s'" using EvPeer_asks [OF assms(3,4)] by blast
    then have "has_peer a [getstatus_payload P] ?s" by (simp flip: True)
    moreover have "a \<notin> fst ` set aps" using Cons.prems(1) by (simp flip: True)
    ultimately show ?thesis by (simp add: connected_keep)
  next
    case False
    with Cons show ?thesis by simp
  qed
qed simp

lemma dialled_peer: "Some c \<in> dial ` set seeds \<Longrightarrow> new_peer c \<in> set (bootstrapNetwork dial seeds)"
  by (induction seeds) (auto split: option.split)

lemma accepted_peer: "Some c \<in> set cs \<Longrightarrow> new_peer c \<in> set (acceptLoop cs)"
  by (induction cs) (auto split: option.split)

text \<open>
  A node that dials its seed nodes and accepts connections asks every working peer for its status
  exactly once, in whatever order the peers reach the main loop; seed nodes that do not answer
  are left out. That listening failed shows nowhere.
\<close>

theorem start_asks_every_peer:
  assumes "start_peers ok cs dial seeds t = (t', orders)" and "aps \<in> orders"
    and "distinct (map fst aps)"
    and "Some (a, False) \<in> dial ` set seeds \<union> (if ok then set cs else {})"
  shows "has_peer a [getstatus_payload P]
    (run_events P (map (\<lambda>ap. (d, EvPeer (fst ap) (snd ap))) aps) s)"
proof -
  let ?p = "snd (new_peer (a, False))"
  have p: "working ?p" "conn_written ?p = []" by (simp_all add: working_def new_peer_def)
  have "aps \<in> shuffles (if ok then acceptLoop cs else []) (bootstrapNetwork dial seeds)"
    using assms(1,2) by (auto simp: start_peers_def TCPTransport_Start_def split: if_splits)
  note all_peers = set_shuffles [OF this]
  have "new_peer (a, False) \<in> set (if ok then acceptLoop cs else []) \<union> set (bootstrapNetwork dial seeds)"
    using assms(4) dialled_peer [of "(a, False)" dial seeds] accepted_peer [of "(a, False)" cs]
    by (cases ok) auto
  then have "new_peer (a, False) \<in> set aps" by (simp add: all_peers)
  then have "(a, ?p) \<in> set aps" by (simp add: new_peer_def)
  from connected_asked [OF assms(3) this p] show ?thesis .
qed




section \<open>A conversation\<close>

text \<open>
  Two nodes and the two directions of their connection: what was written to a node and has not
  been read. A connection delivers bytes: a read takes up to 4096 of those that are there, whatever
  the pieces are they were written in. The node handles what it read, before its reading loop
  reads again (see \<open>Transport\<close> for what happens otherwise), and its answers are written behind what
  is underway to the other. A handler that panics or hangs ends the conversation.
\<close>

fun drop_bytes :: "nat \<Rightarrow> bytes list \<Rightarrow> bytes list" where
  "drop_bytes n [] = []"
| "drop_bytes n (x # xs) =
     (if n = 0 then x # xs
      else if length x \<le> n then drop_bytes (n - length x) xs
      else drop n x # xs)"

lemma drop_bytes_0 [simp]: "drop_bytes 0 xs = xs"
  by (cases xs) simp_all

lemma concat_drop_bytes: "concat (drop_bytes n xs) = drop n (concat xs)"
  by (induction n xs rule: drop_bytes.induct) simp_all

record link =
  node1 :: Server
  node2 :: Server
  to1 :: "bytes list"
  to2 :: "bytes list"

datatype side = One | Two

definition written :: "net_addr \<Rightarrow> Server \<Rightarrow> bytes list" where
  "written a s = (case map_of (srv_peers s) a of None \<Rightarrow> [] | Some p \<Rightarrow> conn_written p)"

definition handle_bytes ::
  "'z net_prims_scheme \<Rightarrow> disk \<Rightarrow> net_addr \<Rightarrow> bytes \<Rightarrow> Server \<Rightarrow> (Server \<times> bytes list) option" where
  "handle_bytes P d a x s =
     (case handle_event P d (EvRpc a x) s of
        Returns _ s' \<Rightarrow> Some (s', drop (length (written a s)) (written a s'))
      | _ \<Rightarrow> None)"

definition readable :: "nat \<Rightarrow> bytes list \<Rightarrow> bool" where
  "readable n xs \<longleftrightarrow> 0 < n \<and> n \<le> 4096 \<and> n \<le> length (concat xs)"

fun link_reads ::
  "'z net_prims_scheme \<Rightarrow> disk \<Rightarrow> disk \<Rightarrow> net_addr \<Rightarrow> net_addr \<Rightarrow> side \<Rightarrow> nat \<Rightarrow> link \<Rightarrow> link option" where
  "link_reads P d1 d2 a1 a2 One n l =
     (if readable n (to1 l)
      then map_option (\<lambda>(s, out). l\<lparr>node1 := s, to1 := drop_bytes n (to1 l), to2 := to2 l @ out\<rparr>)
        (handle_bytes P d1 a2 (take n (concat (to1 l))) (node1 l))
      else None)"
| "link_reads P d1 d2 a1 a2 Two n l =
     (if readable n (to2 l)
      then map_option (\<lambda>(s, out). l\<lparr>node2 := s, to2 := drop_bytes n (to2 l), to1 := to1 l @ out\<rparr>)
        (handle_bytes P d2 a1 (take n (concat (to2 l))) (node2 l))
      else None)"

inductive link_step ::
  "'z net_prims_scheme \<Rightarrow> disk \<Rightarrow> disk \<Rightarrow> net_addr \<Rightarrow> net_addr \<Rightarrow> link \<Rightarrow> link \<Rightarrow> bool"
  for P d1 d2 a1 a2 where
  reads: "link_reads P d1 d2 a1 a2 sd n l = Some l' \<Longrightarrow> link_step P d1 d2 a1 a2 l l'"


text \<open>The reads in which the network delivers exactly one of the pieces that were written.\<close>

fun first_piece :: "side \<Rightarrow> link \<Rightarrow> nat" where
  "first_piece One l = (case to1 l of [] \<Rightarrow> 0 | x # _ \<Rightarrow> length x)"
| "first_piece Two l = (case to2 l of [] \<Rightarrow> 0 | x # _ \<Rightarrow> length x)"

inductive whole_step ::
  "'z net_prims_scheme \<Rightarrow> disk \<Rightarrow> disk \<Rightarrow> net_addr \<Rightarrow> net_addr \<Rightarrow> link \<Rightarrow> link \<Rightarrow> bool"
  for P d1 d2 a1 a2 where
  whole: "link_reads P d1 d2 a1 a2 sd (first_piece sd l) l = Some l' \<Longrightarrow> whole_step P d1 d2 a1 a2 l l'"

inductive_cases whole_stepE: "whole_step P d1 d2 a1 a2 l l'"

lemma whole_is_step: "whole_step P d1 d2 a1 a2 l l' \<Longrightarrow> link_step P d1 d2 a1 a2 l l'"
  by (auto elim: whole_stepE intro: link_step.reads)


section \<open>Whatever the network delivers\<close>





text \<open>
  Two messages that arrive in one read: when the decoder takes the first value and leaves the
  rest, as the standard library's does, the second message is lost.
\<close>

lemma second_of_one_read_lost:
  assumes "gob_unmsg P (x @ y) = gob_unmsg P x"
  shows "handle_event P d (EvRpc a (x @ y)) s = handle_event P d (EvRpc a x) s"
  by (simp add: handle_event_def DefaultRPCDecodeFunc_def assms)

section \<open>What the two nodes say\<close>


lemma written_has [simp]: "has_peer a ws s \<Longrightarrow> written a s = ws"
  by (auto simp: has_peer_def written_def)






























section \<open>Two nodes reach one chain\<close>


section \<open>Instances\<close>







end
