(* ===== verification/Client.thy ===== *)
theory Client
  imports Api Node_Progress
begin

text \<open>
  \<open>main.go\<close> and \<open>mock/students.go\<close>: the program that starts a node and then, as a client of its
  HTTP interface, creates, updates and deletes students. The HTTP exchange is the argument \<open>post\<close>:
  it gets the body of the request and changes the world \<open>'s\<close>, and answers the status or \<open>None\<close> for
  a transport error. Its model for the node of the development is \<open>post_tx\<close>.
\<close>

section \<open>Sending a student transaction\<close>

datatype client_error =
  CliSign tx_error
| CliEncode
| CliHttp
| CliStatus nat

type_synonym 's post = "bytes \<Rightarrow> (nat option, 's) prog"

definition student_tx ::
  "'z crypto_prims_scheme \<Rightarrow> PrivateKey \<Rightarrow> i64 \<Rightarrow> string \<Rightarrow> Student option \<Rightarrow> StudentTxType
   \<Rightarrow> Transaction" where
  "student_tx P privKey nonce studentID student txType =
     (NewTransaction [] nonce)\<lparr>
       tx_TxInner := InStudent \<lparr>stx_Type = txType, stx_StudentID = studentID,
         stx_Student = student, stx_Fee = 100\<rparr>,
       tx_From := PrivateKey_PublicKey P privKey\<rparr>"

definition createStudentTx ::
  "'z tx_prims_scheme \<Rightarrow> 's post \<Rightarrow> i64 \<Rightarrow> nat \<Rightarrow> PrivateKey \<Rightarrow> string \<Rightarrow> Student option \<Rightarrow> StudentTxType
   \<Rightarrow> (client_error option, 's) prog" where
  "createStudentTx P post nonce rnd privKey studentID student txType s =
     (case Transaction_Sign P privKey rnd (student_tx P privKey nonce studentID student txType) of
        Panics _ \<Rightarrow> Panics s
      | Blocks _ \<Rightarrow> Blocks s
      | Returns (Some e) _ \<Rightarrow> Returns (Some (CliSign e)) s
      | Returns None tx \<Rightarrow>
          (case Transaction_Encode P tx [] of
             None \<Rightarrow> Returns (Some CliEncode) s
           | Some buf \<Rightarrow>
               seq (post buf) (\<lambda>resp. ret (
                 case resp of
                   None \<Rightarrow> Some CliHttp
                 | Some statusCode \<Rightarrow>
                     if statusCode \<noteq> 200 then Some (CliStatus statusCode) else None)) s))"

definition createStudent where
  "createStudent P F post nonce rnd privKey studentID paidDues semesters =
     createStudentTx P post nonce rnd privKey studentID
       (Some (CalculateCGPA F \<lparr>stu_ID = studentID, PaidDues = paidDues, Semesters = semesters, CGPA = 0\<rparr>))
       StudentTxTypeCreate"

definition updateStudent where
  "updateStudent P F post nonce rnd privKey studentID paidDues semesters =
     createStudentTx P post nonce rnd privKey studentID
       (Some (CalculateCGPA F \<lparr>stu_ID = studentID, PaidDues = paidDues, Semesters = semesters, CGPA = 0\<rparr>))
       StudentTxTypeUpdate"

definition deleteStudent where
  "deleteStudent P post nonce rnd privKey studentID =
     createStudentTx P post nonce rnd privKey studentID None StudentTxTypeDelete"

section \<open>The demonstration\<close>

record mock_student =
  ms_Id :: string
  ms_PaidDues :: bool
  ms_Semesters :: "Semester list"

text \<open>The grades 3.2, 3.5, 3.6, 3.8 and 3.9 as bit patterns.\<close>

definition three_semesters :: "Semester list" where
  "three_semesters =
     [\<lparr>SemesterNumber = 1, SGPA = 0x400999999999999a\<rparr>,
      \<lparr>SemesterNumber = 2, SGPA = 0x400ccccccccccccd\<rparr>,
      \<lparr>SemesterNumber = 3, SGPA = 0x400f333333333333\<rparr>]"

definition MockStudents :: "mock_student list" where
  "MockStudents =
     [\<lparr>ms_Id = ''STU001'', ms_PaidDues = True, ms_Semesters =
         [\<lparr>SemesterNumber = 1, SGPA = 0x400c000000000000\<rparr>,
          \<lparr>SemesterNumber = 2, SGPA = 0x400e666666666666\<rparr>]\<rparr>,
      \<lparr>ms_Id = ''STU002'', ms_PaidDues = True, ms_Semesters = three_semesters\<rparr>,
      \<lparr>ms_Id = ''STU003'', ms_PaidDues = True, ms_Semesters = three_semesters\<rparr>,
      \<lparr>ms_Id = ''STU004'', ms_PaidDues = False, ms_Semesters = three_semesters\<rparr>,
      \<lparr>ms_Id = ''STU005'', ms_PaidDues = True, ms_Semesters = three_semesters\<rparr>,
      \<lparr>ms_Id = ''STU006'', ms_PaidDues = True, ms_Semesters = three_semesters\<rparr>,
      \<lparr>ms_Id = ''STU007'', ms_PaidDues = True, ms_Semesters = three_semesters\<rparr>,
      \<lparr>ms_Id = ''STU008'', ms_PaidDues = True, ms_Semesters = three_semesters\<rparr>,
      \<lparr>ms_Id = ''STU009'', ms_PaidDues = True, ms_Semesters = three_semesters\<rparr>,
      \<lparr>ms_Id = ''STU0010'', ms_PaidDues = True, ms_Semesters = three_semesters\<rparr>,
      \<lparr>ms_Id = ''STU0011'', ms_PaidDues = True, ms_Semesters = three_semesters\<rparr>,
      \<lparr>ms_Id = ''STU0012'', ms_PaidDues = True, ms_Semesters = three_semesters\<rparr>]"

text \<open>
  The loops of \<open>main\<close> after the nodes run. The \<open>i\<close>-th transaction draws the nonce \<open>nonce i\<close> and signs
  with \<open>rnd i\<close>; \<open>wait\<close> is what the world does while the program sleeps. An error ends the program.
\<close>

primrec create_all ::
  "'z tx_prims_scheme \<Rightarrow> float_ops \<Rightarrow> 's post \<Rightarrow> ('s \<Rightarrow> 's) \<Rightarrow> (nat \<Rightarrow> i64) \<Rightarrow> (nat \<Rightarrow> nat) \<Rightarrow> PrivateKey
   \<Rightarrow> nat \<Rightarrow> mock_student list \<Rightarrow> (client_error option, 's) prog" where
  "create_all P F post wait nonce rnd k i [] = ret None"
| "create_all P F post wait nonce rnd k i (student # students) =
     seq (createStudent P F post (nonce i) (rnd i) k (ms_Id student) (ms_PaidDues student)
         (ms_Semesters student))
       (\<lambda>err s. case err of
          Some e \<Rightarrow> Returns (Some e) s
        | None \<Rightarrow> create_all P F post wait nonce rnd k (Suc i) students (wait s))"

primrec update_all ::
  "'z tx_prims_scheme \<Rightarrow> float_ops \<Rightarrow> 's post \<Rightarrow> ('s \<Rightarrow> 's) \<Rightarrow> (nat \<Rightarrow> i64) \<Rightarrow> (nat \<Rightarrow> nat) \<Rightarrow> PrivateKey
   \<Rightarrow> nat \<Rightarrow> mock_student list \<Rightarrow> (client_error option, 's) prog" where
  "update_all P F post wait nonce rnd k i [] = ret None"
| "update_all P F post wait nonce rnd k i (student # students) =
     (let updatedSemesters = ms_Semesters student
        @ [\<lparr>SemesterNumber = int (length (ms_Semesters student)) + 1, SGPA = 0x4010000000000000\<rparr>]
      in seq (updateStudent P F post (nonce i) (rnd i) k (ms_Id student) (ms_PaidDues student)
           updatedSemesters)
         (\<lambda>err s. case err of
            Some e \<Rightarrow> Returns (Some e) s
          | None \<Rightarrow> update_all P F post wait nonce rnd k (Suc i) students (wait s)))"

definition student_demo ::
  "'z tx_prims_scheme \<Rightarrow> float_ops \<Rightarrow> 's post \<Rightarrow> ('s \<Rightarrow> 's) \<Rightarrow> (nat \<Rightarrow> i64) \<Rightarrow> (nat \<Rightarrow> nat) \<Rightarrow> PrivateKey
   \<Rightarrow> mock_student list \<Rightarrow> (client_error option, 's) prog" where
  "student_demo P F post wait nonce rnd k students =
     seq (create_all P F post wait nonce rnd k 0 students) (\<lambda>err.
       case err of
         Some e \<Rightarrow> ret (Some e)
       | None \<Rightarrow>
           seq (update_all P F post wait nonce rnd k (length students) students) (\<lambda>err.
             case err of
               Some e \<Rightarrow> ret (Some e)
             | None \<Rightarrow>
                 (case students of
                    [] \<Rightarrow> panic
                  | student # _ \<Rightarrow>
                      deleteStudent P post (nonce (2 * length students)) (rnd (2 * length students)) k
                        (ms_Id student))))"

section \<open>The node behind its interface\<close>

text \<open>The answer leaves when the main loop has taken the transaction; what it does then shows later.\<close>

definition post_tx :: "'z net_prims_scheme \<Rightarrow> disk \<Rightarrow> Server post" where
  "post_tx P d body s =
     (case handlePostTx P body of
        (a, None) \<Rightarrow> Returns (Some (status a)) s
      | (a, Some tx) \<Rightarrow> map_outcome (\<lambda>_. Some (status a)) id (handle_event P d (EvTx tx) s))"

section \<open>Properties\<close>

text \<open>What a student request carries: a transaction without data that verifies.\<close>

lemma student_request:
  assumes P: "signatures_verify P"
    and sign: "Transaction_Sign P k rnd (student_tx P k nonce sid st ty) = Returns None tx"
  shows "Transaction_Verify P tx = Returns None tx"
    and "tx_TxInner tx = InStudent \<lparr>stx_Type = ty, stx_StudentID = sid, stx_Student = st, stx_Fee = 100\<rparr>"
    and "tx_Data tx = []"
proof -
  have "tx_From (student_tx P k nonce sid st ty) = PrivateKey_PublicKey P k" by (simp add: student_tx_def)
  then show "Transaction_Verify P tx = Returns None tx" using signed_verifies [OF P sign] by blast
  from sign obtain hash tx1 sg where h: "Transaction_Hash P (student_tx P k nonce sid st ty) = Returns hash tx1"
    and "tx = tx1\<lparr>tx_From := PrivateKey_PublicKey P k, tx_Signature := Some sg\<rparr>"
    by (rule Transaction_Sign_Returns)
  then show "tx_TxInner tx = InStudent \<lparr>stx_Type = ty, stx_StudentID = sid, stx_Student = st, stx_Fee = 100\<rparr>"
    and "tx_Data tx = []"
    using Transaction_Hash_frame(1,2) [OF h] by (simp_all add: student_tx_def NewTransaction_def)
qed

lemma createStudentTx_posts:
  assumes sign: "Transaction_Sign P k rnd (student_tx P k nonce sid st ty) = Returns None tx"
    and enc: "gob_tx P tx = Some body" and dec: "gob_untx P body = Some tx"
  shows "createStudentTx P (post_tx P d) nonce rnd k sid st ty s
    = map_outcome (\<lambda>_. None) id (processTransaction P tx s)"
proof -
  have "Transaction_Decode P body = Some tx"
    using dec by (simp add: tx_coding)
  then show ?thesis
    by (cases "processTransaction P tx s")
      (simp_all add: createStudentTx_def sign tx_coding enc seq_def post_tx_def
        handlePostTx_def handle_event_def status_def)
qed

text \<open>
  C13: the program's own demonstration stops its node. A student transaction that is sent to a
  validator in a reachable state with an empty pool is answered as a success; the next tick of
  that node, when its block can be signed, takes the state lock and never ends, and whatever
  happens to the node from then on, no block is added to its chain.
\<close>

theorem enrolment_halts_node:
  assumes r: "node_reachable P s" and pool: "srv_mempool s = NewTxPool 1000"
    and bound: "length (bc_Headers (srv_chain s)) < 2 ^ 32" and key: "srv_PrivateKey s = Some k'"
    and P: "signatures_verify P"
    and sign: "Transaction_Sign P k rnd (student_tx P k nonce sid st ty) = Returns None tx"
    and enc: "gob_tx P tx = Some body" and dec: "gob_untx P body = Some tx"
    and signs: "\<forall>m. PrivateKey_Sign P k' rnd' m \<noteq> None"
  shows "\<exists>s1 s2. createStudentTx P (post_tx P d) nonce rnd k sid st ty s = Returns None s1
    \<and> handle_event P d' (EvTick now rnd') s1 = Blocks s2
    \<and> bc_stateLock (srv_chain s2) \<and> bc_Headers (srv_chain s2) = bc_Headers (srv_chain s)
    \<and> (\<forall>evs. srv_chain (run_events P evs s2) = srv_chain s2)"
proof -
  note req = student_request [OF P sign]
  have ok: "srv_ok P s" using reachable_srv_ok [OF r] by blast
  have "\<not> TxPool_Contains (srv_mempool s) (tx_TxHash tx)" by (simp add: pool empty_pool)
  from processTransaction_adds [OF ok req(1) this] pool obtain p' where
    p': "processTransaction P tx s = Returns None ((spawn (TaskTx tx) s)\<lparr>srv_mempool := p'\<rparr>)"
    "Pending p' = [tx]" by (metis empty_pool(2,3))
  let ?s1 = "(spawn (TaskTx tx) s)\<lparr>srv_mempool := p'\<rparr>"
  have post: "createStudentTx P (post_tx P d) nonce rnd k sid st ty s = Returns None ?s1"
    by (simp add: createStudentTx_posts [OF sign enc dec] p'(1))
  have r1: "node_reachable P ?s1"
    using node_reachable.event [OF r, of d "EvTx tx"] by (simp add: handle_event_def p'(1))
  have s1: "srv_chain ?s1 = srv_chain s" "srv_PrivateKey ?s1 = Some k'"
    "Pending (srv_mempool ?s1) = tx # []" by (simp_all add: spawn_def key p'(2))
  have b1: "length (bc_Headers (srv_chain ?s1)) < 2 ^ 32" unfolding s1(1) by (rule bound)
  have "CalculateDataHash P (Pending (srv_mempool ?s1)) = Some (sha256 P body)"
    unfolding s1(3) by (simp add: CalculateDataHash_def tx_coding enc)
  then obtain b where b: "NewBlockFromPrevHeader P now (last (bc_Headers (srv_chain ?s1)))
      (Pending (srv_mempool ?s1)) = Inr b" by (auto simp: NewBlockFromPrevHeader_Inr)
  obtain b' where b': "Block_Sign P k' rnd' b = Returns None b'"
    unfolding Block_Sign_Returns using signs by blast
  from student_tick_blocks [OF r1 b1 P s1(2,3) req(2,3) b b', of d'] post
  show ?thesis unfolding s1(1) by blast
qed

text \<open>
  The interface answers with success to every transaction it can decode, also to one that
  the node then rejects and drops.
\<close>

theorem post_hides_rejection:
  assumes "Transaction_Decode P body = Some tx"
    and "Transaction_Verify P tx = Returns (Some e) tx'"
  shows "post_tx P d body s = Returns (Some 200) s"
  using assms
  by (simp add: post_tx_def handlePostTx_def handle_event_def processTransaction_def status_def)

section \<open>Instances\<close>

definition demo_request :: Transaction where
  "demo_request =
     out_state (Transaction_Sign demo_node_prims 3 0
       (student_tx demo_node_prims 3 0 ''S1'' None StudentTxTypeDelete))"

definition demo_client_prims :: net_prims where
  "demo_client_prims = demo_node_prims\<lparr>gob_untx := \<lambda>b. Some demo_request\<rparr>"

lemma demo_client_prims_ok:
  "sha_fixed_length demo_client_prims" "signatures_verify demo_client_prims"
  "gob_tx demo_client_prims tx \<noteq> None" "\<exists>sg. PrivateKey_Sign demo_client_prims k rnd m = Some sg"
  "gob_untx demo_client_prims b = Some demo_request"
  using demo_node_prims_ok demo_sign
  by (simp_all add: demo_client_prims_def sha_fixed_length_def signatures_verify_def PrivateKey_Sign_def)

lemma demo_request_signed:
  "Transaction_Sign demo_client_prims 3 0
     (student_tx demo_client_prims 3 0 ''S1'' None StudentTxTypeDelete) = Returns None demo_request"
proof -
  have "student_tx demo_client_prims 3 0 ''S1'' None StudentTxTypeDelete
      = student_tx demo_node_prims 3 0 ''S1'' None StudentTxTypeDelete"
    by (simp add: student_tx_def PrivateKey_PublicKey_def demo_client_prims_def)
  then show ?thesis
    by (simp add: demo_request_def)
      (simp add: Transaction_Sign_def seq_def Transaction_Hash_def TxHasher_Hash_def tx_preimage_def
        student_tx_def NewTransaction_def PrivateKey_PublicKey_def PrivateKey_Sign_def
        demo_client_prims_def demo_node_prims_def demo_net_prims_def demo_tx_prims_def demo_prims_def
        split: if_split)
qed

theorem enrolment_halts_node_witness:
  "\<exists>s s1 s2. srv_PrivateKey s = Some 5
    \<and> deleteStudent demo_client_prims (post_tx demo_client_prims good_disk) 0 0 3 ''S1'' s = Returns None s1
    \<and> handle_event demo_client_prims good_disk (EvTick 1000 0) s1 = Blocks s2"
proof -
  obtain s where s: "node_reachable demo_client_prims s" "length (bc_Headers (srv_chain s)) = 1"
    "srv_PrivateKey s = Some 5" "srv_mempool s = NewTxPool 1000"
    using demo_reachable_on [of demo_client_prims] demo_client_prims_ok(1,3,4) by blast
  have bound: "length (bc_Headers (srv_chain s)) < 2 ^ 32" by (simp add: s(2))
  obtain body where enc: "gob_tx demo_client_prims demo_request = Some body"
    using demo_client_prims_ok(3) by blast
  have "\<forall>m. PrivateKey_Sign demo_client_prims 5 0 m \<noteq> None" using demo_client_prims_ok(4) by fastforce
  from enrolment_halts_node [OF s(1,4) bound s(3) demo_client_prims_ok(2) demo_request_signed enc
      demo_client_prims_ok(5) this, of good_disk good_disk 1000] s(3)
  show ?thesis unfolding deleteStudent_def by blast
qed

theorem post_hides_rejection_witness:
  "\<exists>s. post_tx (demo_node_prims\<lparr>gob_untx := \<lambda>b. Some (NewTransaction [] 0)\<rparr>) good_disk [] s = Returns (Some 200) s"
proof -
  let ?P = "demo_node_prims\<lparr>gob_untx := \<lambda>b. Some (NewTransaction [] 0)\<rparr>"
  have "Transaction_Decode ?P [] = Some (NewTransaction [] 0)" by (simp add: tx_coding)
  moreover have "Transaction_Verify ?P (NewTransaction [] 0) = Returns (Some TxNoSignature) (NewTransaction [] 0)"
    by (simp add: Transaction_Verify_def NewTransaction_def)
  ultimately show ?thesis using post_hides_rejection by blast
qed

end
