(* ===== verification/Random_Data.thy ===== *)
theory Random_Data
  imports Block
begin

text \<open>
  \<open>util/random.go\<close> and \<open>util/transaction.go\<close>: random bytes, transactions and blocks. What the
  sources of randomness supply is an argument: the bytes that \<open>rand.Read\<close> writes, the generated
  keys and the randomness of signatures. An assertion of the test library that fails is reported
  and the function goes on; the results carry whether all of them held.
\<close>

section \<open>Bytes\<close>

text \<open>A fresh slice of zeros of which \<open>fill\<close> overwrites a beginning, at most all of it.\<close>

definition RandomBytes :: "(nat \<Rightarrow> bytes) \<Rightarrow> nat \<Rightarrow> bytes" where
  "RandomBytes fill n =
     (let r = take n (fill n) in r @ replicate (n - length r) 0)"

definition RandomHash :: "(nat \<Rightarrow> bytes) \<Rightarrow> hash option" where
  "RandomHash fill = HashFromBytes (RandomBytes fill 32)"

lemma length_RandomBytes [simp]: "length (RandomBytes fill n) = n"
  by (simp add: RandomBytes_def Let_def)

lemma RandomHash_total: "RandomHash fill = Some (RandomBytes fill 32)"
  by (simp add: RandomHash_def HashFromBytes_def)

section \<open>Transactions and blocks\<close>

text \<open>A key with the randomness of one signature.\<close>

type_synonym signer = "PrivateKey \<times> nat"

text \<open>The error of signing is dropped.\<close>

definition NewRandomTransaction ::
  "'z tx_prims_scheme \<Rightarrow> i64 \<Rightarrow> signer \<Rightarrow> u64 \<Rightarrow> (unit, Transaction) outcome" where
  "NewRandomTransaction P nonce gen amount =
     seq (Transaction_Sign P (fst gen) (snd gen)) (\<lambda>_. ret ())
       ((NewTransaction [] nonce)\<lparr>tx_Value := amount, tx_From := PrivateKey_PublicKey P (fst gen)\<rparr>)"

text \<open>The transaction is signed again with another key.\<close>

definition NewRandomTransactionWithSignature ::
  "'z tx_prims_scheme \<Rightarrow> i64 \<Rightarrow> signer \<Rightarrow> signer \<Rightarrow> u64 \<Rightarrow> (bool, Transaction) outcome" where
  "NewRandomTransactionWithSignature P nonce gen key amount =
     (case NewRandomTransaction P nonce gen amount of
        Returns _ tx \<Rightarrow> map_outcome (\<lambda>err. err = None) id (Transaction_Sign P (fst key) (snd key) tx)
      | Panics tx \<Rightarrow> Panics tx
      | Blocks tx \<Rightarrow> Blocks tx)"

text \<open>The data hash stays zero when a transaction has no encoding.\<close>

definition NewRandomBlock ::
  "'z prims_scheme \<Rightarrow> i64 \<Rightarrow> signer \<Rightarrow> signer \<Rightarrow> i64 \<Rightarrow> u32 \<Rightarrow> hash \<Rightarrow> (bool \<times> Block) option" where
  "NewRandomBlock P nonce gen txSigner now height prevBlockHash =
     (case NewRandomTransactionWithSignature P nonce gen txSigner 100 of
        Returns ok tx \<Rightarrow>
          (let header = \<lparr>Version = 1, DataHash = zero_hash, PrevBlockHash = prevBlockHash,
                 Height = height, Timestamp = now\<rparr>;
               b = NewBlock header [tx]
           in case CalculateDataHash P (blk_Transactions b) of
                None \<Rightarrow> Some (False, b)
              | Some dataHash \<Rightarrow> Some (ok, b\<lparr>blk_Header := (blk_Header b)\<lparr>DataHash := dataHash\<rparr>\<rparr>))
      | _ \<Rightarrow> None)"

definition NewRandomBlockWithSignature ::
  "'z prims_scheme \<Rightarrow> i64 \<Rightarrow> signer \<Rightarrow> signer \<Rightarrow> i64 \<Rightarrow> signer \<Rightarrow> u32 \<Rightarrow> hash \<Rightarrow> (bool \<times> Block) option" where
  "NewRandomBlockWithSignature P nonce gen txSigner now pk height prevHash =
     (case NewRandomBlock P nonce gen txSigner now height prevHash of
        None \<Rightarrow> None
      | Some (ok, b) \<Rightarrow>
          (case Block_Sign P (fst pk) (snd pk) b of
             Returns err b' \<Rightarrow> Some (ok \<and> err = None, b')
           | _ \<Rightarrow> None))"

section \<open>What they are\<close>

text \<open>
  The hash of a twice signed transaction is the one its first signer computed: it names the first
  key, so it is not the hash of the content any more.
\<close>

lemma random_transaction:
  assumes "signatures_verify P"
    and r: "NewRandomTransactionWithSignature P nonce gen key amount = Returns True tx"
    and nz: "\<not> Hash_IsZero (tx_TxHash tx)"
  shows "Transaction_Verify P tx = Returns None tx" and "tx_From tx = PrivateKey_PublicKey P (fst key)"
proof -
  from r obtain tx0 where t: "map_outcome (\<lambda>err. err = None) id (Transaction_Sign P (fst key) (snd key) tx0)
      = Returns True tx"
    by (auto simp: NewRandomTransactionWithSignature_def split: outcome.splits)
  then have "Transaction_Sign P (fst key) (snd key) tx0 = Returns None tx"
    by (cases "Transaction_Sign P (fst key) (snd key) tx0") simp_all
  from signed_verifies [OF assms(1) this] nz
  show "Transaction_Verify P tx = Returns None tx" "tx_From tx = PrivateKey_PublicKey P (fst key)" by simp_all
qed

text \<open>
  A random signed block of which all assertions held verifies, at the asked height and over the
  asked predecessor, as long as its transaction's hash is not zero.
\<close>

theorem random_block_verifies:
  assumes P: "signatures_verify P"
    and b: "NewRandomBlockWithSignature P nonce gen txSigner now pk height prevHash = Some (True, b)"
    and nz: "\<not> Hash_IsZero (tx_TxHash (hd (blk_Transactions b)))"
  shows "Block_Verify P b = Returns None b \<and> Height (blk_Header b) = height
    \<and> PrevBlockHash (blk_Header b) = prevHash"
proof -
  from b obtain b0 where b0: "NewRandomBlock P nonce gen txSigner now height prevHash = Some (True, b0)"
    and s: "Block_Sign P (fst pk) (snd pk) b0 = Returns None b"
    by (auto simp: NewRandomBlockWithSignature_def split: option.splits outcome.splits prod.splits)
  then obtain sg where sg: "PrivateKey_Sign P (fst pk) (snd pk) (Header_Bytes P (blk_Header b0)) = Some sg"
    and be: "b = b0\<lparr>blk_Validator := PrivateKey_PublicKey P (fst pk), blk_Signature := Some sg\<rparr>"
    unfolding Block_Sign_Returns by blast
  from b0 obtain tx dh where tx: "NewRandomTransactionWithSignature P nonce gen txSigner 100 = Returns True tx"
    and dh: "CalculateDataHash P [tx] = Some dh"
    and b0e: "b0 = NewBlock \<lparr>Version = 1, DataHash = dh, PrevBlockHash = prevHash, Height = height,
      Timestamp = now\<rparr> [tx]"
    by (auto simp: NewRandomBlock_def Let_def NewBlock_def split: outcome.splits option.splits)
  have "\<not> Hash_IsZero (tx_TxHash tx)" using nz by (simp add: be b0e NewBlock_def)
  from random_transaction(1) [OF P tx this] have "verify_txs P [tx] = Returns None [tx]"
    by (simp add: verify_txs_fixed)
  then have "Block_Verify P b = Returns None b"
    unfolding Block_Verify_accepts_iff using Sign_then_Verify [OF P sg] dh by (simp add: be b0e NewBlock_def)
  then show ?thesis by (simp add: be b0e NewBlock_def)
qed

end
