(* ===== verification/Add_Steps.thy ===== *)
theory Add_Steps
  imports Node_Sync
begin

text \<open>
  Adding a block in the steps other goroutines can come between. The main loop and the validator
  each call \<open>AddBlock\<close> on one chain (\<open>core/blockchain.go\<close>, \<open>core/validator.go\<close>), which holds no lock
  from its validation to the append: the height is read, read again by \<open>HasBlock\<close>, the previous
  header is read, the transactions run under \<open>stateLock\<close>, the block is appended under \<open>lock\<close>, and
  the store writes it under its own lock. A phase is where a call is between two such steps. Reading
  a header compares its height first and then indexes; the chain only grows in between, so this is
  one step.
\<close>

section \<open>Phases\<close>

datatype phase =
  CheckHeight Block
| CheckKnown u32 Block
| CheckPrev Block
| AwaitLock Block
| Appending hash Block
| Storing Block
| Finished "chain_error option" Block
| Died Block
| Hangs Block

text \<open>A rejected block is logged with its hash.\<close>

definition rejects :: "'z prims_scheme \<Rightarrow> chain_error \<Rightarrow> Block \<Rightarrow> phase" where
  "rejects P e b = Finished (Some e) (out_state (Block_Hash P b))"

definition verify_step :: "'z prims_scheme \<Rightarrow> Block \<Rightarrow> phase" where
  "verify_step P b =
     (case Block_Verify P b of
        Panics b1 \<Rightarrow> Died b1
      | Blocks b1 \<Rightarrow> Hangs b1
      | Returns (Some e) b1 \<Rightarrow> rejects P (ErrVerify e) b1
      | Returns None b1 \<Rightarrow>
          (case CalculateDataHash P (blk_Transactions b1) of
             None \<Rightarrow> rejects P ErrDataHashFails b1
           | Some dataHash \<Rightarrow>
               if dataHash \<noteq> DataHash (blk_Header b1)
               then rejects P (ErrDataHash dataHash (DataHash (blk_Header b1))) b1
               else AwaitLock b1))"

text \<open>The transactions under the state lock: nobody else reads or writes what they change.\<close>

definition locked_step :: "'z prims_scheme \<Rightarrow> Blockchain \<Rightarrow> Block \<Rightarrow> Blockchain \<times> phase" where
  "locked_step P bc b =
     (case handle_txs P (blk_Transactions b) (bc\<lparr>bc_stateLock := True\<rparr>) of
        Panics (bc1, ts) \<Rightarrow> (bc1, Died (out_state (Block_Hash P (b\<lparr>blk_Transactions := ts\<rparr>))))
      | Blocks (bc1, ts) \<Rightarrow> (bc1, Hangs (b\<lparr>blk_Transactions := ts\<rparr>))
      | Returns successfulTxs (bc1, _) \<Rightarrow>
          (case Block_Hash P (b\<lparr>blk_Transactions := successfulTxs\<rparr>) of
             Returns hash b2 \<Rightarrow> (bc1\<lparr>bc_stateLock := False\<rparr>, Appending hash b2)
           | Panics b2 \<Rightarrow> (bc1\<lparr>bc_stateLock := False\<rparr>, Died b2)
           | Blocks b2 \<Rightarrow> (bc1\<lparr>bc_stateLock := False\<rparr>, Hangs b2)))"

text \<open>\<open>None\<close>: there is no step, because the call is over or waits for the lock.\<close>

fun phase_step ::
  "'z prims_scheme \<Rightarrow> disk \<Rightarrow> Blockchain \<Rightarrow> phase \<Rightarrow> (Blockchain \<times> phase) option" where
  "phase_step P d bc (CheckHeight b) = Some (bc, CheckKnown (bc_Height bc) b)"
| "phase_step P d bc (CheckKnown currentHeight b) = Some (bc,
     if HasBlock bc (Height (blk_Header b)) then rejects P ErrBlockKnown b
     else if Height (blk_Header b) > currentHeight + 1
     then rejects P (ErrHeightTooHigh (Height (blk_Header b))) b
     else CheckPrev b)"
| "phase_step P d bc (CheckPrev b) = Some (bc,
     case prev_check P bc b of
       None \<Rightarrow> Died b
     | Some (Some e) \<Rightarrow> rejects P e b
     | Some None \<Rightarrow> verify_step P b)"
| "phase_step P d bc (AwaitLock b) = (if bc_stateLock bc then None else Some (locked_step P bc b))"
| "phase_step P d bc (Appending hash b) = Some (append_block hash bc b, Storing b)"
| "phase_step P d bc (Storing b) =
     (case put_block P d (bc, b) of
        Returns err (bc', b') \<Rightarrow> Some (bc', Finished err b')
      | Panics (bc', b') \<Rightarrow> Some (bc', Died b')
      | Blocks (bc', b') \<Rightarrow> Some (bc', Hangs b'))"
| "phase_step P d bc (Finished err b) = None"
| "phase_step P d bc (Died b) = None"
| "phase_step P d bc (Hangs b) = None"

fun_cases phase_step_FinishedE: "phase_step P d bc (Finished err b) = Some r"
  and phase_step_DiedE: "phase_step P d bc (Died b) = Some r"
  and phase_step_HangsE: "phase_step P d bc (Hangs b) = Some r"

section \<open>One call alone\<close>

primrec run_alone :: "'z prims_scheme \<Rightarrow> disk \<Rightarrow> nat \<Rightarrow> Blockchain \<times> phase \<Rightarrow> Blockchain \<times> phase" where
  "run_alone P d 0 s = s"
| "run_alone P d (Suc n) s =
     (case phase_step P d (fst s) (snd s) of None \<Rightarrow> s | Some s' \<Rightarrow> run_alone P d n s')"

text \<open>How a call ends that nobody interrupts: one that can not go on blocks.\<close>

fun settle :: "Blockchain \<times> phase \<Rightarrow> (chain_error option, on_block) outcome" where
  "settle (bc, Finished err b) = Returns err (bc, b)"
| "settle (bc, Died b) = Panics (bc, b)"
| "settle (bc, Hangs b) = Blocks (bc, b)"
| "settle (bc, CheckHeight b) = Blocks (bc, b)"
| "settle (bc, CheckKnown _ b) = Blocks (bc, b)"
| "settle (bc, CheckPrev b) = Blocks (bc, b)"
| "settle (bc, AwaitLock b) = Blocks (bc, b)"
| "settle (bc, Appending _ b) = Blocks (bc, b)"
| "settle (bc, Storing b) = Blocks (bc, b)"

lemma run_alone_over [simp]:
  "run_alone P d n (bc, Finished err b) = (bc, Finished err b)"
  "run_alone P d n (bc, Died b) = (bc, Died b)"
  "run_alone P d n (bc, Hangs b) = (bc, Hangs b)"
  by (cases n; simp)+

lemma settle_rejects [simp]: "settle (run_alone P d n (bc, rejects P e b)) =
  map_outcome (\<lambda>_. Some e) (Pair bc) (Block_Hash P b)"
proof -
  obtain h b' where "Block_Hash P b = Returns h b'" using Block_Hash_returns by blast
  then show ?thesis by (simp add: rejects_def)
qed

text \<open>From the lock on the steps are those of \<open>addBlockWithoutValidation\<close>.\<close>

lemma steps_addBlock:
  "settle (run_alone P d (Suc (Suc (Suc n))) (bc, AwaitLock b)) = addBlockWithoutValidation P d (bc, b)"
proof (cases "bc_stateLock bc")
  case True
  then show ?thesis by (simp add: addBlock_locked)
next
  case False
  then show ?thesis
  proof (cases rule: addBlock_cases [of bc P b d])
    case (appends ok bc1 ts hash b2)
    let ?bc = "append_block hash (bc1\<lparr>bc_stateLock := False\<rparr>) b2"
    from appends(1,2) False show ?thesis unfolding appends(3)
      by (cases rule: put_block_frame [of P d ?bc b2]) (simp_all add: locked_step_def)
  qed (use False in \<open>simp_all add: locked_step_def\<close>)
qed

lemma run_alone_step:
  "phase_step P d bc ph = Some s \<Longrightarrow> run_alone P d (Suc n) (bc, ph) = run_alone P d n s"
  by simp

lemma steps_verify:
  assumes "\<not> HasBlock bc (Height (blk_Header b))"
    and "\<not> Height (blk_Header b) > bc_Height bc + 1" and "prev_check P bc b = Some None"
  shows "settle (run_alone P d (Suc (Suc (Suc n))) (bc, verify_step P b))
    = AddBlock P d (ValidateBlock P) (bc, b)"
proof -
  have a: "AddBlock P d (ValidateBlock P) (bc, b) =
      (case Block_Verify P b of
         Panics b1 \<Rightarrow> Panics (bc, b1)
       | Blocks b1 \<Rightarrow> Blocks (bc, b1)
       | Returns (Some e) b1 \<Rightarrow> map_outcome (\<lambda>_. Some (ErrVerify e)) (Pair bc) (Block_Hash P b1)
       | Returns None b1 \<Rightarrow>
           (case CalculateDataHash P (blk_Transactions b1) of
              None \<Rightarrow> map_outcome (\<lambda>_. Some ErrDataHashFails) (Pair bc) (Block_Hash P b1)
            | Some dh \<Rightarrow>
                if dh \<noteq> DataHash (blk_Header b1)
                then map_outcome (\<lambda>_. Some (ErrDataHash dh (DataHash (blk_Header b1)))) (Pair bc)
                  (Block_Hash P b1)
                else addBlockWithoutValidation P d (bc, b1)))"
    using assms
    by (simp add: AddBlock_def ValidateBlock_def seq_def split: outcome.split option.split)
  show ?thesis
    unfolding a
    by (simp add: verify_step_def steps_addBlock del: run_alone.simps
        split: outcome.split option.split)
qed

text \<open>
  An uninterrupted call takes at most six steps and ends as \<open>AddBlock\<close> does, with the same chain
  and block, whether it returns, panics or waits for ever: the two renderings of the code
  agree.
\<close>

theorem steps_refine_AddBlock:
  "settle (run_alone P d 6 (bc, CheckHeight b)) = AddBlock P d (ValidateBlock P) (bc, b)"
proof -
  have six: "6 = Suc (Suc (Suc (Suc (Suc (Suc 0)))))" by simp
  let ?ht = "Height (blk_Header b)"
  consider "HasBlock bc ?ht"
    | "\<not> HasBlock bc ?ht" "?ht > bc_Height bc + 1"
    | "\<not> HasBlock bc ?ht" "\<not> ?ht > bc_Height bc + 1" "prev_check P bc b \<noteq> Some None"
    | "\<not> HasBlock bc ?ht" "\<not> ?ht > bc_Height bc + 1" "prev_check P bc b = Some None" by blast
  then show ?thesis
  proof cases
    case 4
    then show ?thesis
      unfolding six steps_verify [OF 4, symmetric, of d 0]
      by (simp add: run_alone_step del: run_alone.simps)
  qed (simp_all add: six run_alone_step AddBlock_def ValidateBlock_def seq_def del: run_alone.simps
      split: option.split)
qed

section \<open>Many calls at once\<close>

text \<open>Any call that can make a step may make the next one; the others stay where they are.\<close>

inductive interleave :: "'z prims_scheme \<Rightarrow> disk \<Rightarrow> Blockchain \<times> phase list \<Rightarrow> Blockchain \<times> phase list \<Rightarrow> bool"
  for P d where
  step: "i < length phs \<Longrightarrow> phase_step P d bc (phs ! i) = Some (bc', ph)
    \<Longrightarrow> interleave P d (bc, phs) (bc', phs[i := ph])"

inductive_cases interleaveE: "interleave P d (bc, phs) s'"

abbreviation interleaved :: "'z prims_scheme \<Rightarrow> disk \<Rightarrow> Blockchain \<times> phase list \<Rightarrow> Blockchain \<times> phase list \<Rightarrow> bool" where
  "interleaved P d \<equiv> (interleave P d)\<^sup>*\<^sup>*"

text \<open>
  What every interleaving keeps: a property of the chain and one of each call, when a step keeps
  both for its own call and leaves those of the other calls true.
\<close>

locale stable_phases =
  fixes P :: "'z prims_scheme" and d :: disk
    and good :: "Blockchain \<Rightarrow> bool" and knows :: "Blockchain \<Rightarrow> phase \<Rightarrow> bool"
  assumes own: "good bc \<Longrightarrow> knows bc ph \<Longrightarrow> phase_step P d bc ph = Some (bc', ph')
      \<Longrightarrow> good bc' \<and> knows bc' ph'"
    and other: "good bc \<Longrightarrow> knows bc ph \<Longrightarrow> phase_step P d bc ph = Some (bc', ph')
      \<Longrightarrow> knows bc ph2 \<Longrightarrow> knows bc' ph2"
begin

lemma stable_step:
  assumes "interleave P d s s'" and "good (fst s)" and "\<forall>ph\<in>set (snd s). knows (fst s) ph"
  shows "good (fst s') \<and> (\<forall>ph\<in>set (snd s'). knows (fst s') ph)"
  using assms(1)
proof cases
  case (step i phs bc bc' ph)
  then have i: "phs ! i \<in> set phs" by simp
  with assms(2,3) step have k: "good bc" "knows bc (phs ! i)" by simp_all
  have "set (phs[i := ph]) \<subseteq> insert ph (set phs)" by (rule set_update_subset_insert)
  with own [OF k step(4)] other [OF k step(4)] assms(3) step(1,2) show ?thesis by auto
qed

lemma stable:
  assumes "interleaved P d s s'" and "good (fst s)" and "\<forall>ph\<in>set (snd s). knows (fst s) ph"
  shows "good (fst s') \<and> (\<forall>ph\<in>set (snd s'). knows (fst s') ph)"
  using assms by (induction rule: rtranclp_induct) (auto dest: stable_step)

end

section \<open>What survives: a linked tree\<close>

text \<open>
  A header at height \<open>h\<close> names by its hash the header at position \<open>h - 1\<close>, which is before it: the
  headers form a tree. In a chain that is in order every position is its own height.
\<close>

definition follows_one :: "'z prims_scheme \<Rightarrow> Header list \<Rightarrow> Header \<Rightarrow> bool" where
  "follows_one P hs h \<longleftrightarrow> unat (Height h) \<le> length hs
     \<and> (0 < Height h \<longrightarrow> PrevBlockHash h = BlockHasher_Hash P (hs ! (unat (Height h) - 1)))"

definition rooted :: "'z prims_scheme \<Rightarrow> Header list \<Rightarrow> bool" where
  "rooted P hs \<longleftrightarrow> (\<forall>i<length hs. follows_one P (take i hs) (hs ! i))"

lemma follows_one_append: "follows_one P hs h \<Longrightarrow> follows_one P (hs @ hs') h"
  by (auto simp: follows_one_def nth_append word_less_nat_alt)

lemma rooted_append: "rooted P hs \<Longrightarrow> follows_one P hs h \<Longrightarrow> rooted P (hs @ [h])"
  by (auto simp: rooted_def less_Suc_eq nth_append)

lemma links_rooted: "links P hs \<Longrightarrow> rooted P hs"
  by (auto simp: rooted_def links_def follows_one_def word_less_nat_alt)

lemma locked_step_out:
  assumes "locked_step P bc b = (bc', ph)"
  shows "chain_fixed (bc\<lparr>bc_stateLock := True\<rparr>) (bc'\<lparr>bc_stateLock := True\<rparr>)"
    and "(\<exists>h b2. ph = Appending h b2 \<and> \<not> bc_stateLock bc' \<and> blk_Header b2 = blk_Header b)
      \<or> (\<exists>b2. ph \<in> {Died b2, Hangs b2} \<and> bc_stateLock bc')"
proof -
  let ?bc = "bc\<lparr>bc_stateLock := True\<rparr>"
  let ?r = "handle_txs P (blk_Transactions b) ?bc"
  have fx: "chain_fixed ?bc (fst (out_state ?r))" using handle_txs_frame by blast
  show "chain_fixed ?bc (bc'\<lparr>bc_stateLock := True\<rparr>)"
    and "(\<exists>h b2. ph = Appending h b2 \<and> \<not> bc_stateLock bc' \<and> blk_Header b2 = blk_Header b)
      \<or> (\<exists>b2. ph \<in> {Died b2, Hangs b2} \<and> bc_stateLock bc')"
  proof (atomize (full), cases ?r)
    case (Returns ok u)
    obtain h b2 where b2: "Block_Hash P (b\<lparr>blk_Transactions := ok\<rparr>) = Returns h b2"
      using Block_Hash_returns by blast
    from fx Returns have "chain_fixed ?bc ((fst u)\<lparr>bc_stateLock := True\<rparr>)"
      by (simp add: chain_fixed_def nft_ok_def)
    then show "chain_fixed ?bc (bc'\<lparr>bc_stateLock := True\<rparr>)
      \<and> ((\<exists>h b2. ph = Appending h b2 \<and> \<not> bc_stateLock bc' \<and> blk_Header b2 = blk_Header b)
        \<or> (\<exists>b2. ph \<in> {Died b2, Hangs b2} \<and> bc_stateLock bc'))"
      using assms Returns b2 Block_Hash_frame(1) [OF b2]
      by (cases u) (auto simp: locked_step_def)
  qed (use assms fx in \<open>auto simp: locked_step_def chain_fixed_def nft_ok_def\<close>)
qed

lemma Storing_step:
  assumes "phase_step P d bc (Storing b) = Some (bc', ph)"
  shows "\<exists>st b'. bc' = bc\<lparr>bc_store := st\<rparr> \<and> (\<exists>e. ph \<in> {Finished e b', Died b'})"
  using assms by (cases rule: put_block_frame [of P d bc b]) auto

text \<open>A step that is not \<open>Appending\<close> leaves headers, blocks and the lookup tables alone.\<close>

lemma phase_step_frame:
  assumes "phase_step P d bc ph = Some (bc', ph')"
  shows "(\<exists>h b. ph = Appending h b \<and> bc' = append_block h bc b \<and> ph' = Storing b)
    \<or> bc_Headers bc' = bc_Headers bc \<and> bc_blocks bc' = bc_blocks bc
      \<and> (accounts_ok (bc_AccountState bc) \<longrightarrow> accounts_ok (bc_AccountState bc'))
      \<and> (nft_ok bc \<longrightarrow> nft_ok bc')"
proof (cases ph)
  case (AwaitLock b)
  with assms have "locked_step P bc b = (bc', ph')" by (simp split: if_splits)
  from locked_step_out(1) [OF this] show ?thesis by (simp add: chain_fixed_def nft_ok_def)
next
  case (Storing b)
  from Storing_step [OF assms [unfolded Storing]] obtain st where "bc' = bc\<lparr>bc_store := st\<rparr>" by blast
  then show ?thesis by (simp add: nft_ok_def)
qed (use assms in auto)

text \<open>What a call has established when it is in a phase.\<close>

fun knows_link :: "'z prims_scheme \<Rightarrow> Header list \<Rightarrow> phase \<Rightarrow> bool" where
  "knows_link P hs (CheckKnown currentHeight b) = (unat currentHeight < length hs)"
| "knows_link P hs (CheckPrev b) = (unat (Height (blk_Header b)) \<le> length hs \<and> 0 < Height (blk_Header b))"
| "knows_link P hs (AwaitLock b) = follows_one P hs (blk_Header b)"
| "knows_link P hs (Appending hash b) = follows_one P hs (blk_Header b)"
| "knows_link P hs _ = True"

lemma knows_link_append: "knows_link P hs ph \<Longrightarrow> knows_link P (hs @ hs') ph"
  by (cases ph) (simp_all add: follows_one_append)

lemma knows_link_rejects [simp]: "knows_link P hs (rejects P' e b)"
  by (simp add: rejects_def)

lemma knows_link_verify:
  assumes "follows_one P hs (blk_Header b)"
  shows "knows_link P hs (verify_step P b)"
proof (cases "Block_Verify P b")
  case (Returns e b1)
  have "follows_one P hs (blk_Header b1)"
    unfolding Block_Verify_frame(1) [OF Returns] by (rule assms)
  then show ?thesis by (simp add: verify_step_def Returns split: option.split)
qed (simp_all add: verify_step_def)

text \<open>The two readings of the height leave a block that is at most one above the chain.\<close>

lemma checked_height:
  assumes "bc_Headers bc \<noteq> []" and "length (bc_Headers bc) \<le> 2 ^ 32"
    and "unat h < length (bc_Headers bc)" and "\<not> HasBlock bc ht" and "\<not> ht > h + 1"
  shows "unat ht \<le> length (bc_Headers bc) \<and> 0 < ht"
proof -
  have lo: "length (bc_Headers bc) - 1 < unat ht"
    using bc_Height_chain [OF assms(1,2)] assms(4) by (simp add: HasBlock_def not_le word_less_nat_alt)
  have "unat ht \<le> unat (h + 1)" using assms(5) by (simp add: word_le_nat_alt not_less)
  also have "\<dots> \<le> unat h + 1" by (simp add: unat_word_ariths)
  finally show ?thesis using assms(3) lo by (simp add: word_less_nat_alt)
qed

lemma prev_check_link:
  assumes "bc_Headers bc \<noteq> []" and "length (bc_Headers bc) \<le> 2 ^ 32"
    and "unat (Height (blk_Header b)) \<le> length (bc_Headers bc)" and "0 < Height (blk_Header b)"
    and "prev_check P bc b = Some None"
  shows "follows_one P (bc_Headers bc) (blk_Header b)"
proof -
  have u: "unat (Height (blk_Header b) - 1) = unat (Height (blk_Header b)) - 1"
    using assms(4) by (simp add: unat_sub word_le_nat_alt word_less_nat_alt)
  have "BlockHasher_Hash P (bc_Headers bc ! unat (Height (blk_Header b) - 1)) = PrevBlockHash (blk_Header b)"
    using assms(4,5)
    by (auto simp: prev_check_def GetHeader_def Let_def split: if_splits)
  with assms(3) u show ?thesis by (simp add: follows_one_def)
qed

definition tree_ok :: "'z prims_scheme \<Rightarrow> Header list \<Rightarrow> Blockchain \<Rightarrow> bool" where
  "tree_ok P hs0 bc \<longleftrightarrow> hs0 \<noteq> [] \<and> prefix hs0 (bc_Headers bc)
     \<and> map blk_Header (bc_blocks bc) = bc_Headers bc
     \<and> accounts_ok (bc_AccountState bc) \<and> nft_ok bc
     \<and> (length (bc_Headers bc) \<le> 2 ^ 32 \<longrightarrow> rooted P (bc_Headers bc))"

definition link_known :: "'z prims_scheme \<Rightarrow> Blockchain \<Rightarrow> phase \<Rightarrow> bool" where
  "link_known P bc ph \<longleftrightarrow> (length (bc_Headers bc) \<le> 2 ^ 32 \<longrightarrow> knows_link P (bc_Headers bc) ph)"

lemma step_keeps_tree:
  assumes t: "tree_ok P hs0 bc" and k: "link_known P bc ph"
    and s: "phase_step P d bc ph = Some (bc', ph')"
  shows "tree_ok P hs0 bc'"
  using phase_step_frame [OF s]
proof
  assume "\<exists>h b. ph = Appending h b \<and> bc' = append_block h bc b \<and> ph' = Storing b"
  then obtain h b where a: "ph = Appending h b" "bc' = append_block h bc b" by blast
  with k have "length (bc_Headers bc) \<le> 2 ^ 32 \<Longrightarrow> follows_one P (bc_Headers bc) (blk_Header b)"
    by (simp add: link_known_def)
  with t a(2) show ?thesis by (auto simp: tree_ok_def nft_ok_def intro: rooted_append)
qed (use t in \<open>auto simp: tree_ok_def\<close>)

lemma step_learns_link:
  assumes t: "tree_ok P hs0 bc" and k: "link_known P bc ph"
    and s: "phase_step P d bc ph = Some (bc', ph')"
  shows "link_known P bc' ph'"
proof -
  let ?hs = "bc_Headers bc"
  have ne: "?hs \<noteq> []" using t by (auto simp: tree_ok_def)
  show ?thesis
  proof (cases ph)
    case (CheckHeight b)
    have "unat (bc_Height bc) < length ?hs" if "length ?hs \<le> 2 ^ 32"
      using bc_Height_chain [OF ne that] ne by (cases ?hs) simp_all
    with s CheckHeight show ?thesis by (auto simp: link_known_def)
  next
    case (CheckKnown h b)
    with s k checked_height [OF ne, of h "Height (blk_Header b)"] show ?thesis
      by (auto simp: link_known_def)
  next
    case (CheckPrev b)
    have f: "knows_link P ?hs (verify_step P b)"
      if "length ?hs \<le> 2 ^ 32" "prev_check P bc b = Some None"
      using prev_check_link [OF ne that(1) _ _ that(2)] k CheckPrev that(1)
      by (intro knows_link_verify) (simp add: link_known_def)
    from s CheckPrev have e: "bc' = bc" "ph' = (case prev_check P bc b of None \<Rightarrow> Died b
        | Some (Some e) \<Rightarrow> rejects P e b | Some None \<Rightarrow> verify_step P b)" by auto
    show ?thesis
    proof (cases "prev_check P bc b")
      case (Some r)
      with e f show ?thesis by (cases r) (simp_all add: link_known_def)
    qed (simp add: e link_known_def)
  next
    case (AwaitLock b)
    with s have l: "locked_step P bc b = (bc', ph')" by (simp split: if_splits)
    have hs: "bc_Headers bc' = ?hs" using locked_step_out(1) [OF l] by (simp add: chain_fixed_def)
    from locked_step_out(2) [OF l] k AwaitLock show ?thesis by (auto simp: link_known_def hs)
  next
    case (Storing b)
    from Storing_step [OF s [unfolded Storing]] show ?thesis by (auto simp: link_known_def)
  qed (use s in \<open>auto simp: link_known_def\<close>)
qed

lemma step_keeps_links:
  assumes s: "phase_step P d bc ph = Some (bc', ph')" and k: "link_known P bc ph2"
  shows "link_known P bc' ph2"
  using phase_step_frame [OF s] k by (auto simp: link_known_def intro: knows_link_append)

interpretation linked: stable_phases P d "tree_ok P hs0" "link_known P"
  for P :: "'z prims_scheme" and d hs0
  by unfold_locales (blast intro: step_keeps_tree step_learns_link step_keeps_links)+

text \<open>
  C7: whatever calls of \<open>AddBlock\<close> run at once on a chain that is in order, and however their steps
  interleave: the chain only grows, its blocks and headers agree, accounts and tokens stay in
  order, and each header names by its hash the header at the position below its height, which
  comes before it. The chain stays a linked tree.
\<close>

theorem interleaved_stays_tree:
  assumes "chain_ok P bc" and "bc_Headers bc \<noteq> []"
    and "interleaved P d (bc, map CheckHeight bs) (bc', phs)" and "length (bc_Headers bc') \<le> 2 ^ 32"
  shows "prefix (bc_Headers bc) (bc_Headers bc') \<and> map blk_Header (bc_blocks bc') = bc_Headers bc'
    \<and> accounts_ok (bc_AccountState bc') \<and> nft_ok bc' \<and> rooted P (bc_Headers bc')"
proof -
  have "tree_ok P (bc_Headers bc) bc"
    using assms(1,2) by (simp add: tree_ok_def chain_ok_def links_rooted)
  moreover have "\<forall>ph\<in>set (map CheckHeight bs). link_known P bc ph" by (simp add: link_known_def)
  ultimately have "tree_ok P (bc_Headers bc) bc'"
    using linked.stable [OF assms(3), of "bc_Headers bc"] by simp
  with assms(4) show ?thesis by (simp add: tree_ok_def)
qed

section \<open>What survives: the supply\<close>

text \<open>The block a call has still to run.\<close>

fun runs :: "phase \<Rightarrow> Block option" where
  "runs (CheckHeight b) = Some b"
| "runs (CheckKnown _ b) = Some b"
| "runs (CheckPrev b) = Some b"
| "runs (AwaitLock b) = Some b"
| "runs _ = None"

definition plain_run :: "'z prims_scheme \<Rightarrow> Blockchain \<Rightarrow> phase \<Rightarrow> bool" where
  "plain_run P bc ph \<longleftrightarrow>
     (case runs ph of None \<Rightarrow> True | Some b \<Rightarrow> list_all (sender_plain P) (blk_Transactions b))"

definition supply_is :: "u64 \<Rightarrow> Blockchain \<Rightarrow> bool" where
  "supply_is n bc \<longleftrightarrow> accounts_ok (bc_AccountState bc) \<and> total_supply (bc_AccountState bc) = n"

lemma plain_content:
  "list_all2 same_content txs txs' \<Longrightarrow> list_all (sender_plain P) txs \<Longrightarrow> list_all (sender_plain P) txs'"
  by (induction rule: list_all2_induct) simp_all

lemma plain_run_simps [simp]:
  "runs ph = None \<Longrightarrow> plain_run P bc ph"
  "runs ph = Some b \<Longrightarrow> plain_run P bc ph \<longleftrightarrow> list_all (sender_plain P) (blk_Transactions b)"
  by (simp_all add: plain_run_def)

lemma plain_run_rejects [simp]: "plain_run P bc (rejects P' e b)"
  by (simp add: rejects_def plain_run_def)

lemma plain_run_verify:
  assumes "list_all (sender_plain P) (blk_Transactions b)"
  shows "plain_run P bc (verify_step P b)"
proof (cases "Block_Verify P b")
  case (Returns e b1)
  have "block_frame P b b1" using block_frame.keeps_Returns [OF keeps_Block_Verify Returns] .
  then have "list_all (sender_plain P) (blk_Transactions b1)"
    using plain_content assms by (auto simp: block_frame_def)
  then show ?thesis by (simp add: verify_step_def Returns split: option.split)
qed (simp_all add: verify_step_def plain_run_def)

lemma step_keeps_supply:
  assumes g: "supply_is n bc" and k: "plain_run P bc ph"
    and s: "phase_step P d bc ph = Some (bc', ph')"
  shows "supply_is n bc' \<and> plain_run P bc' ph'"
proof (cases ph)
  case (AwaitLock b)
  let ?bc = "bc\<lparr>bc_stateLock := True\<rparr>"
  let ?r = "out_state (handle_txs P (blk_Transactions b) ?bc)"
  from s AwaitLock have l: "locked_step P bc b = (bc', ph')" by (simp split: if_splits)
  then have "bc_AccountState bc' = bc_AccountState (fst ?r)"
    by (auto simp: locked_step_def split: outcome.splits prod.splits)
  moreover have "total_supply (bc_AccountState (fst ?r)) = total_supply (bc_AccountState bc)"
    using handle_txs_frame [of ?bc P "blk_Transactions b"] g k AwaitLock
    by (simp add: supply_kept_def supply_is_def list_all_iff)
  moreover have "accounts_ok (bc_AccountState (fst ?r))"
    using handle_txs_frame [of ?bc P "blk_Transactions b"] g by (simp add: chain_fixed_def supply_is_def)
  ultimately show ?thesis
    using g locked_step_out(2) [OF l] by (auto simp: supply_is_def)
next
  case (Storing b)
  from Storing_step [OF s [unfolded Storing]] g show ?thesis
    by (auto simp: supply_is_def)
next
  case (CheckPrev b)
  then have "plain_run P bc (verify_step P b)" using k by (intro plain_run_verify) simp
  with s g CheckPrev show ?thesis by (auto split: option.split)
next
  case (CheckKnown h b)
  with s g k show ?thesis by auto
qed (use s g k in \<open>auto simp: supply_is_def\<close>)

interpretation supplied: stable_phases P d "supply_is n" "plain_run P"
  for P :: "'z prims_scheme" and d n
  by unfold_locales (rule step_keeps_supply, assumption+, simp only: plain_run_def)

text \<open>
  C17: no interleaving of calls whose blocks have no coinbase sender creates or destroys money, however
  far the calls come and however they end.
\<close>

theorem interleaved_conserves_supply:
  assumes "accounts_ok (bc_AccountState bc)"
    and "\<forall>b\<in>set bs. \<forall>tx\<in>set (blk_Transactions b). sender_plain P tx"
    and "interleaved P d (bc, map CheckHeight bs) (bc', phs)"
  shows "total_supply (bc_AccountState bc') = total_supply (bc_AccountState bc)"
proof -
  have "\<forall>ph\<in>set (map CheckHeight bs). plain_run P bc ph"
    using assms(2) by (simp add: list_all_iff)
  with supplied.stable [OF assms(3), of "total_supply (bc_AccountState bc)"] assms(1)
  show ?thesis by (simp add: supply_is_def)
qed

end
