(* ===== verification/Race.thy ===== *)
theory Race
  imports Add_Steps
begin

text \<open>
  What goes wrong when two goroutines of a node add a block at the same time: an explicit schedule
  in which two blocks of one height are both accepted, and what the validator does on a chain that
  has them.
\<close>

section \<open>Schedules\<close>

abbreviation steps :: "'z prims_scheme \<Rightarrow> disk \<Rightarrow> Blockchain \<times> phase \<Rightarrow> Blockchain \<times> phase \<Rightarrow> bool" where
  "steps P d \<equiv> (\<lambda>s s'. phase_step P d (fst s) (snd s) = Some s')\<^sup>*\<^sup>*"

lemma run_alone_steps: "steps P d s (run_alone P d n s)"
proof (induction n arbitrary: s)
  case (Suc n)
  show ?case
  proof (cases "phase_step P d (fst s) (snd s)")
    case (Some s')
    then show ?thesis using Suc.IH [of s'] by (auto intro: converse_rtranclp_into_rtranclp)
  qed simp
qed simp

lemma validate_steps:
  assumes "ValidateBlock P (bc, b) = Returns None (bc, b1)"
  shows "steps P d (bc, CheckHeight b) (bc, AwaitLock b1)"
proof -
  note v = ValidateBlock_accepts [OF assms]
  have "run_alone P d (Suc (Suc (Suc 0))) (bc, CheckHeight b) = (bc, AwaitLock b1)"
    using v(2-6) by (simp add: verify_step_def)
  with run_alone_steps [of P d "(bc, CheckHeight b)" "Suc (Suc (Suc 0))"] show ?thesis by (simp only:)
qed

lemma settle_Returns: "settle s = Returns err (bc, b) \<Longrightarrow> s = (bc, Finished err b)"
  by (cases s rule: settle.cases) simp_all

lemma add_steps:
  assumes "addBlockWithoutValidation P d (bc, b) = Returns err (bc', b')"
  shows "steps P d (bc, AwaitLock b) (bc', Finished err b')"
proof -
  have "settle (run_alone P d (Suc (Suc (Suc 0))) (bc, AwaitLock b)) = Returns err (bc', b')"
    unfolding steps_addBlock by (rule assms)
  from settle_Returns [OF this] run_alone_steps [of P d "(bc, AwaitLock b)" "Suc (Suc (Suc 0))"]
  show ?thesis by (simp only:)
qed

text \<open>The steps of one call as steps of the system.\<close>

lemma steps_interleaved:
  assumes "steps P d s s'" and "i < length phs" and "phs ! i = snd s"
  shows "interleaved P d (fst s, phs) (fst s', phs[i := snd s'])"
  using assms(1)
proof (induction rule: rtranclp_induct)
  case base
  show ?case using assms(2,3) by (simp flip: assms(3))
next
  case (step t u)
  have "interleave P d (fst t, phs[i := snd t]) (fst u, (phs[i := snd t])[i := snd u])"
    using step(2) assms(2) by (intro interleave.step) simp_all
  with step.IH show ?case by simp
qed

section \<open>The race\<close>

text \<open>A block that continues the chain can be added, now or when the chain has moved on.\<close>

lemma plain_block_added:
  assumes P: "sha_fixed_length P" and l: "\<not> bc_stateLock bc" and w: "writable d bc"
    and b: "plain_block P b"
  shows "\<exists>bc' b'. addBlockWithoutValidation P d (bc, b) = Returns None (bc', b')
    \<and> bc_Headers bc' = bc_Headers bc @ [blk_Header b] \<and> \<not> bc_stateLock bc' \<and> writable d bc'"
  using addBlock_writes [OF P l w _ disjI1 [OF verified_block_settled]] b unfolding plain_block_def by blast

lemma two_blocks_added:
  assumes P: "sha_fixed_length P" and ok: "chain_ok P bc" and ne: "bc_Headers bc \<noteq> []"
    and l: "\<not> bc_stateLock bc" and w: "writable d bc"
    and b: "plain_block P b1" "plain_block P b2"
    and e: "extends P bc (blk_Header b1)" "extends P bc (blk_Header b2)"
  shows "\<exists>bc' c1 c2. interleaved P d (bc, [CheckHeight b1, CheckHeight b2]) (bc', [Finished None c1, Finished None c2])
    \<and> bc_Headers bc' = bc_Headers bc @ [blk_Header b1, blk_Header b2]"
proof -
  note seq = steps_interleaved [where P = P and d = d]
  have v: "steps P d (bc, CheckHeight b1) (bc, AwaitLock b1)" "steps P d (bc, CheckHeight b2) (bc, AwaitLock b2)"
    using ValidateBlock_complete [OF ok ne] e b by (auto simp: plain_block_def intro: validate_steps)
  obtain bc1 c1 where a1: "addBlockWithoutValidation P d (bc, b1) = Returns None (bc1, c1)"
    "bc_Headers bc1 = bc_Headers bc @ [blk_Header b1]" "\<not> bc_stateLock bc1" "writable d bc1"
    using plain_block_added [OF P l w b(1)] by blast
  obtain bc2 c2 where a2: "addBlockWithoutValidation P d (bc1, b2) = Returns None (bc2, c2)"
    "bc_Headers bc2 = bc_Headers bc1 @ [blk_Header b2]"
    using plain_block_added [OF P a1(3,4) b(2)] by blast
  have "interleaved P d (bc, [CheckHeight b1, CheckHeight b2]) (bc, [AwaitLock b1, CheckHeight b2])"
    using seq [OF v(1), of 0 "[CheckHeight b1, CheckHeight b2]"] by simp
  also have "interleaved P d (bc, [AwaitLock b1, CheckHeight b2]) (bc, [AwaitLock b1, AwaitLock b2])"
    using seq [OF v(2), of 1 "[AwaitLock b1, CheckHeight b2]"] by simp
  also have "interleaved P d (bc, [AwaitLock b1, AwaitLock b2]) (bc1, [Finished None c1, AwaitLock b2])"
    using seq [OF add_steps [OF a1(1)], of 0 "[AwaitLock b1, AwaitLock b2]"] by simp
  also have "interleaved P d (bc1, [Finished None c1, AwaitLock b2]) (bc2, [Finished None c1, Finished None c2])"
    using seq [OF add_steps [OF a2(1)], of 1 "[Finished None c1, AwaitLock b2]"] by simp
  finally show ?thesis using a1(2) a2(2) by (intro exI conjI) simp_all
qed

section \<open>The validator afterwards\<close>

text \<open>The last two headers have the same height, which is the position of the first of them.\<close>

definition forked :: "Blockchain \<Rightarrow> bool" where
  "forked bc \<longleftrightarrow> (\<exists>hs h1 h2. bc_Headers bc = hs @ [h1, h2] \<and> unat (Height h1) = length hs
     \<and> unat (Height h2) = length hs \<and> length (bc_Headers bc) \<le> 2 ^ 32)"

lemma forked_not_ok: "forked bc \<Longrightarrow> \<not> chain_ok P bc"
  by (auto simp: forked_def chain_ok_def links_def nth_append dest!: spec [of _ "Suc (length _)"])

lemma forked_top:
  assumes "forked bc"
  shows "GetHeader bc (bc_Height bc) = Some (Inr (last (bc_Headers bc)))"
    and "HasBlock bc (Height (last (bc_Headers bc)) + 1)"
proof -
  from assms obtain hs h1 h2 where f: "bc_Headers bc = hs @ [h1, h2]" "unat (Height h2) = length hs"
    "length hs + 2 \<le> 2 ^ 32" by (auto simp: forked_def)
  have "unat (bc_Height bc) = Suc (length hs)" using bc_Height_chain [of bc] f by simp
  moreover have "unat (Height h2 + 1) = Suc (length hs)"
    using f(2,3) by (simp add: unat_word_ariths)
  ultimately show "GetHeader bc (bc_Height bc) = Some (Inr (last (bc_Headers bc)))"
    and "HasBlock bc (Height (last (bc_Headers bc)) + 1)"
    by (simp_all add: GetHeader_def HasBlock_def f(1) word_le_nat_alt nth_append)
qed

lemma AddBlock_known:
  "HasBlock bc (Height (blk_Header b)) \<Longrightarrow>
   \<exists>b'. AddBlock P d (ValidateBlock P) (bc, b) = Returns (Some ErrBlockKnown) (bc, b')"
  using Block_Hash_returns [of P b] by (auto simp: AddBlock_def ValidateBlock_def seq_def)

lemma forked_tick:
  assumes f: "forked (srv_chain s)"
  shows "srv_chain (out_state (handle_event P d (EvTick now rnd) s)) = srv_chain s"
proof -
  let ?h = "last (bc_Headers (srv_chain s))"
  have own: "srv_chain (out_state (add_own_block P d b s)) = srv_chain s"
    if "Height (blk_Header b) = Height ?h + 1" for b
  proof -
    have "HasBlock (srv_chain s) (Height (blk_Header b))" unfolding that by (rule forked_top(2) [OF f])
    from AddBlock_known [OF this, of P d] show ?thesis by (auto simp: add_own_block_def)
  qed
  have "srv_chain (out_state (create_body P d now rnd ?h s)) = srv_chain s"
    using own
    by (auto simp: create_body_def Block_Sign_def split: sum.split option.split)
  then have "srv_chain (out_state (recover_nil (create_body P d now rnd ?h) s)) = srv_chain s"
    by (cases "create_body P d now rnd ?h s") (simp_all add: recover_nil_def)
  then show ?thesis
    by (simp add: handle_event_def createNewBlock_def forked_top(1) [OF f])
qed

text \<open>Until a block arrives, no event changes such a chain.\<close>

lemma forked_events:
  assumes "forked (srv_chain s)" and "\<forall>de\<in>set evs. \<not> brings_block P (snd de)"
  shows "srv_chain (run_events P evs s) = srv_chain s"
  using assms
proof (induction evs arbitrary: s)
  case (Cons de evs)
  let ?s = "out_state (handle_event P (fst de) (snd de) s)"
  have "srv_chain ?s = srv_chain s"
  proof (cases "\<exists>now rnd. snd de = EvTick now rnd")
    case True
    with forked_tick [OF Cons.prems(1)] show ?thesis by auto
  next
    case False
    with Cons.prems(2) event_keeps_chain [of P "snd de"] show ?thesis by auto
  qed
  then show ?case using Cons.IH [of ?s] Cons.prems by simp
qed simp

text \<open>
  C8: \<open>AddBlock\<close> holds no lock between its validation and its append, and the main loop and the
  validator both call it. Two verified blocks of plain value transactions that both continue the
  chain can be accepted one after the other at the same height, without an error; the chain is not
  in order then, and the validator finds its own next block known already at every tick: whatever
  happens at the node and in whatever order, its ticks, new peers, its clients' transactions and all
  messages that bring no block, the chain stays what it is until a message brings a block.
\<close>

theorem race_stops_validator:
  assumes P: "sha_fixed_length P" and s: "ready P d s"
    and b: "plain_block P b1" "plain_block P b2"
    and e: "extends P (srv_chain s) (blk_Header b1)" "extends P (srv_chain s) (blk_Header b2)"
    and bound: "length (bc_Headers (srv_chain s)) + 2 \<le> 2 ^ 32"
  shows "\<exists>bc' c1 c2. interleaved P d (srv_chain s, [CheckHeight b1, CheckHeight b2])
        (bc', [Finished None c1, Finished None c2])
    \<and> bc_Headers bc' = bc_Headers (srv_chain s) @ [blk_Header b1, blk_Header b2] \<and> \<not> chain_ok P bc'
    \<and> (\<forall>evs. (\<forall>de\<in>set evs. \<not> brings_block P (snd de)) \<longrightarrow>
        srv_chain (run_events P evs (s\<lparr>srv_chain := bc'\<rparr>)) = bc')"
proof -
  note r = readyD [OF s]
  obtain bc' c1 c2 where i: "interleaved P d (srv_chain s, [CheckHeight b1, CheckHeight b2])
        (bc', [Finished None c1, Finished None c2])"
    and h: "bc_Headers bc' = bc_Headers (srv_chain s) @ [blk_Header b1, blk_Header b2]"
    using two_blocks_added [OF P r(5,2-4) b e] by blast
  have f: "forked bc'" using h e bound by (auto simp: forked_def extends_def)
  have "srv_chain (run_events P evs (s\<lparr>srv_chain := bc'\<rparr>)) = bc'"
    if "\<forall>de\<in>set evs. \<not> brings_block P (snd de)" for evs
    using forked_events [OF _ that, of "s\<lparr>srv_chain := bc'\<rparr>"] f by simp
  with i h forked_not_ok [OF f] show ?thesis by blast
qed

section \<open>Instances\<close>

lemma demo_block_extends: "extends demo_net_prims (srv_chain demo_follower) (blk_Header demo_block)"
  by (simp add: demo_follower_def extends_def demo_block_header demo_net_hash demo_hash_def)

theorem race_stops_validator_witness:
  "\<exists>bc' c1 c2. interleaved demo_net_prims good_disk (demo_chain, [CheckHeight demo_block, CheckHeight demo_block])
        (bc', [Finished None c1, Finished None c2])
    \<and> length (bc_Headers bc') = 3 \<and> \<not> chain_ok demo_net_prims bc'
    \<and> srv_chain (run_events demo_net_prims [(good_disk, EvTick 7 1), (good_disk, EvRpc 1 []), (good_disk, EvTick 8 2)]
        (demo_follower\<lparr>srv_chain := bc'\<rparr>)) = bc'"
proof -
  have P: "sha_fixed_length demo_net_prims"
    using demo_block_prims_ok by (simp add: sha_fixed_length_def demo_net_fields)
  let ?evs = "[(good_disk, EvTick 7 1), (good_disk, EvRpc 1 []), (good_disk, EvTick 8 2)]"
  have c: "srv_chain demo_follower = demo_chain" by (simp add: demo_follower_def)
  have q: "\<forall>de\<in>set ?evs. \<not> brings_block demo_net_prims (snd de)"
    by (simp add: brings_block_def DefaultRPCDecodeFunc_def demo_net_prims_def)
  have "length (bc_Headers (srv_chain demo_follower)) + 2 \<le> 2 ^ 32" by (simp add: c)
  from race_stops_validator [OF P demo_follower_ready demo_plain_block demo_plain_block
      demo_block_extends demo_block_extends this] q show ?thesis unfolding c by fastforce
qed

lemma demo_race:
  obtains bc' c1 c2 where
    "interleaved demo_net_prims good_disk (demo_chain, map CheckHeight [demo_block, demo_block])
      (bc', [Finished None c1, Finished None c2])"
    and "length (bc_Headers bc') = 3" and "chain_ok demo_net_prims demo_chain" and "\<not> bc_stateLock demo_chain"
proof -
  have P: "sha_fixed_length demo_net_prims"
    using demo_block_prims_ok by (simp add: sha_fixed_length_def demo_net_fields)
  have c: "srv_chain demo_follower = demo_chain" by (simp add: demo_follower_def)
  note r = readyD [OF demo_follower_ready, unfolded c]
  obtain bc' c1 c2 where i: "interleaved demo_net_prims good_disk (demo_chain, map CheckHeight [demo_block, demo_block])
      (bc', [Finished None c1, Finished None c2])"
    and h: "bc_Headers bc' = bc_Headers demo_chain @ [blk_Header demo_block, blk_Header demo_block]"
    using two_blocks_added [OF P r(5,2-4) demo_plain_block demo_plain_block
      demo_block_extends [unfolded c] demo_block_extends [unfolded c]] by auto
  from that [OF i _ r(5,3)] h show ?thesis by simp
qed

theorem interleaved_stays_tree_witness:
  "\<exists>bc' phs. interleaved demo_net_prims good_disk (demo_chain, map CheckHeight [demo_block, demo_block]) (bc', phs)
    \<and> length (bc_Headers bc') = 3 \<and> rooted demo_net_prims (bc_Headers bc')"
proof -
  obtain bc' c1 c2 where i: "interleaved demo_net_prims good_disk (demo_chain, map CheckHeight [demo_block, demo_block])
      (bc', [Finished None c1, Finished None c2])" and l: "length (bc_Headers bc') = 3"
    and ok: "chain_ok demo_net_prims demo_chain" by (rule demo_race)
  have "bc_Headers demo_chain \<noteq> []" and "length (bc_Headers bc') \<le> 2 ^ 32" using l by simp_all
  from interleaved_stays_tree [OF ok this(1) i this(2)] i l show ?thesis by blast
qed

text \<open>The demonstration block is added twice.\<close>

theorem interleaved_conserves_supply_witness:
  "\<exists>bc' phs. interleaved demo_net_prims good_disk (demo_chain, map CheckHeight [demo_block, demo_block]) (bc', phs)
    \<and> length (bc_Headers bc') = 3 \<and> total_supply (bc_AccountState bc') = total_supply demo_accounts"
proof -
  obtain bc' c1 c2 where i: "interleaved demo_net_prims good_disk (demo_chain, map CheckHeight [demo_block, demo_block])
      (bc', [Finished None c1, Finished None c2])" and l: "length (bc_Headers bc') = 3"
    by (rule demo_race)
  have a: "accounts_ok (bc_AccountState demo_chain)" using demo_chain_ok by (simp add: chain_ok_def)
  have "PublicKey_Address demo_net_prims k = PublicKey_Address demo_block_prims k" for k
    by (simp add: PublicKey_Address_def demo_net_fields)
  then have "\<forall>b\<in>set [demo_block, demo_block]. \<forall>tx\<in>set (blk_Transactions b). sender_plain demo_net_prims tx"
    by (simp add: sender_plain_def ordinary_def demo_PublicKey_Address)
  from interleaved_conserves_supply [OF a this i] i l show ?thesis by (intro exI conjI) simp_all
qed

end
