(* ===== verification/Add_Progress.thy ===== *)
theory Add_Progress
  imports Race
begin

text \<open>
  Concurrent calls of \<open>AddBlock\<close> come to an end: every step brings its call nearer to its end, and
  a call that has to wait for the state lock waits for one that died or hung while it held it.
\<close>

section \<open>Steps to go\<close>

fun to_go :: "phase \<Rightarrow> nat" where
  "to_go (CheckHeight b) = 6"
| "to_go (CheckKnown _ b) = 5"
| "to_go (CheckPrev b) = 4"
| "to_go (AwaitLock b) = 3"
| "to_go (Appending _ b) = 2"
| "to_go (Storing b) = 1"
| "to_go _ = 0"

lemma to_go_rejects [simp]: "to_go (rejects P e b) = 0"
  by (simp add: rejects_def)

lemma to_go_verify: "to_go (verify_step P b) \<le> 3"
  by (simp add: verify_step_def split: outcome.split option.split)

lemma step_nearer:
  assumes "phase_step P d bc ph = Some (bc', ph')"
  shows "to_go ph' < to_go ph"
proof (cases ph)
  case (CheckPrev b)
  with assms le_less_trans [OF to_go_verify, of 4 P b] show ?thesis
    by (auto split: option.splits)
next
  case (AwaitLock b)
  with assms have "locked_step P bc b = (bc', ph')" by (simp split: if_splits)
  from locked_step_out(2) [OF this] AwaitLock show ?thesis by auto
next
  case (Storing b)
  from Storing_step [OF assms [unfolded Storing]] Storing show ?thesis by auto
qed (use assms in auto)

definition all_to_go :: "phase list \<Rightarrow> nat" where
  "all_to_go phs = sum_list (map to_go phs)"

lemma interleave_nearer:
  assumes "interleave P d s s'"
  shows "all_to_go (snd s') < all_to_go (snd s)"
  using assms
proof cases
  case (step i phs bc bc' ph)
  have "to_go (phs ! i) \<le> sum_list (map to_go phs)"
    using step(3) by (intro member_le_sum_list) simp_all
  then have "sum_list (map to_go (phs[i := ph])) + to_go (phs ! i) = sum_list (map to_go phs) + to_go ph"
    using step(3) by (simp add: map_update sum_list_update)
  with step_nearer [OF step(4)] show ?thesis by (simp add: step(1,2) all_to_go_def)
qed

lemma interleave_steps:
  "(interleave P d ^^ n) s s' \<Longrightarrow> n + all_to_go (snd s') \<le> all_to_go (snd s)"
proof (induction n arbitrary: s')
  case (Suc n)
  then obtain t where "(interleave P d ^^ n) s t" "interleave P d t s'" by auto
  with Suc.IH [of t] interleave_nearer [of P d t s'] show ?case by simp
qed simp

section \<open>Who holds the lock\<close>

definition crashed :: "phase \<Rightarrow> bool" where
  "crashed ph \<longleftrightarrow> (\<exists>b. ph \<in> {Died b, Hangs b})"

definition lock_held :: "Blockchain \<times> phase list \<Rightarrow> bool" where
  "lock_held s \<longleftrightarrow> (bc_stateLock (fst s) \<longrightarrow> (\<exists>ph\<in>set (snd s). crashed ph))"

lemma crashed_stays: "phase_step P d bc ph = Some r \<Longrightarrow> \<not> crashed ph"
  by (auto simp: crashed_def)

lemma step_lock:
  assumes "phase_step P d bc ph = Some (bc', ph')"
  shows "bc_stateLock bc' \<longrightarrow> bc_stateLock bc \<or> crashed ph'"
proof (cases ph)
  case (AwaitLock b)
  with assms have "locked_step P bc b = (bc', ph')" by (simp split: if_splits)
  from locked_step_out(2) [OF this] show ?thesis by (auto simp: crashed_def)
next
  case (Storing b)
  from Storing_step [OF assms [unfolded Storing]] show ?thesis by auto
qed (use assms in auto)

lemma interleave_lock:
  assumes "interleave P d s s'" and "lock_held s"
  shows "lock_held s'"
  using assms(1)
proof cases
  case (step i phs bc bc' ph)
  show ?thesis
    unfolding lock_held_def step(2) fst_conv snd_conv
  proof
    assume "bc_stateLock bc'"
    then consider "bc_stateLock bc" | "crashed ph" using step_lock [OF step(4)] by blast
    then show "\<exists>ph\<in>set (phs[i := ph]). crashed ph"
    proof cases
      case 1
      then obtain j where j: "j < length phs" "crashed (phs ! j)"
        using assms(2) step(1) by (auto simp: lock_held_def in_set_conv_nth)
      with crashed_stays [OF step(4)] have "phs[i := ph] ! j = phs ! j" by (cases "i = j") simp_all
      with j show ?thesis by (metis length_list_update nth_mem)
    next
      case 2
      then show ?thesis using step(3) set_update_memI by fast
    qed
  qed
qed

lemma interleaved_lock: "interleaved P d s s' \<Longrightarrow> lock_held s \<Longrightarrow> lock_held s'"
  by (induction rule: rtranclp_induct) (auto intro: interleave_lock)

lemma can_step:
  assumes "0 < to_go ph" and "\<not> bc_stateLock bc"
  shows "phase_step P d bc ph \<noteq> None"
  using assms by (cases ph) (auto split: outcome.split)

text \<open>
  C16: calls of \<open>AddBlock\<close> that run at once on a chain whose state lock is free make at most six
  steps each, however they interleave; and when none of them can go on, either all have returned,
  or one of them panicked or hangs for ever. Waiting for each other alone never stops them.
\<close>

theorem calls_end:
  assumes "\<not> bc_stateLock bc" and "(interleave P d ^^ n) (bc, map CheckHeight bs) (bc', phs)"
  shows "n \<le> 6 * length bs
    \<and> ((\<exists>s. interleave P d (bc', phs) s) \<or> (\<forall>ph\<in>set phs. \<exists>e b. ph = Finished e b)
      \<or> (\<exists>ph\<in>set phs. \<exists>b. ph \<in> {Died b, Hangs b}))"
proof -
  have "all_to_go (map CheckHeight bs) = 6 * length bs" by (induction bs) (simp_all add: all_to_go_def)
  with interleave_steps [OF assms(2)] have n: "n \<le> 6 * length bs" by simp
  have l: "lock_held (bc', phs)"
    using interleaved_lock [OF relpowp_imp_rtranclp [OF assms(2)]] assms(1) by (simp add: lock_held_def)
  have "\<exists>s. interleave P d (bc', phs) s"
    if c: "\<forall>ph\<in>set phs. \<not> crashed ph" and ph: "ph \<in> set phs" "\<forall>e b. ph \<noteq> Finished e b" for ph
  proof -
    obtain i where i: "i < length phs" "phs ! i = ph" using ph(1) by (auto simp: in_set_conv_nth)
    have "0 < to_go ph" using c ph by (cases ph) (auto simp: crashed_def)
    moreover have "\<not> bc_stateLock bc'" using l c by (auto simp: lock_held_def)
    ultimately obtain bc'' ph' where "phase_step P d bc' (phs ! i) = Some (bc'', ph')"
      using can_step [of ph bc' P d] i(2) by auto
    from interleave.step [OF i(1) this] show ?thesis by blast
  qed
  with n show ?thesis unfolding crashed_def by blast
qed

section \<open>Instances\<close>

theorem calls_end_witness:
  "\<exists>n bc' c1 c2. (interleave demo_net_prims good_disk ^^ n) (demo_chain, map CheckHeight [demo_block, demo_block])
      (bc', [Finished None c1, Finished None c2]) \<and> n \<le> 12"
proof -
  obtain bc' c1 c2 where i: "interleaved demo_net_prims good_disk (demo_chain, map CheckHeight [demo_block, demo_block])
      (bc', [Finished None c1, Finished None c2])" and l: "\<not> bc_stateLock demo_chain" by (rule demo_race)
  then obtain n where n: "(interleave demo_net_prims good_disk ^^ n) (demo_chain, map CheckHeight [demo_block, demo_block])
      (bc', [Finished None c1, Finished None c2])" using rtranclp_imp_relpowp by fast
  from calls_end [OF l n] n show ?thesis by fastforce
qed

end
