(* ===== verification/Node_Loops.thy ===== *)
theory Node_Loops
  imports Network
begin

text \<open>
  The two loops of a node: the main loop of \<open>Server.Start\<close> and \<open>validatorLoop\<close>
  (\<open>network/server.go\<close>). A loop takes what its channels deliver, one after another, until it is told
  to quit; a panic that nobody recovers ends the whole process, a handler that never comes back
  ends the loop and leaves the process running.
\<close>

section \<open>The loops\<close>

datatype loop_end = Waiting Server | Crashed Server | Stuck Server | Stopped Server

text \<open>What is left of a node when a loop is where it is.\<close>

primrec left :: "loop_end \<Rightarrow> Server" where
  "left (Waiting s) = s"
| "left (Crashed s) = s"
| "left (Stuck s) = s"
| "left (Stopped s) = s"

text \<open>Go on after a handler came back; its error is logged and dropped.\<close>

definition next_turn :: "('a, Server) outcome \<Rightarrow> (Server \<Rightarrow> loop_end) \<Rightarrow> loop_end" where
  "next_turn r continue =
     (case r of Returns _ s \<Rightarrow> continue s | Panics s \<Rightarrow> Crashed s | Blocks s \<Rightarrow> Stuck s)"

text \<open>After the loop was left, every peer is closed.\<close>

definition shut_down :: "Server \<Rightarrow> Server" where
  "shut_down s = s\<lparr>srv_peers := map (apsnd Peer_Close) (srv_peers s)\<rparr>"

datatype input = Deliver disk event | Quit

primrec main_loop :: "'z net_prims_scheme \<Rightarrow> input list \<Rightarrow> Server \<Rightarrow> loop_end" where
  "main_loop P [] s = Waiting s"
| "main_loop P (x # xs) s =
     (case x of
        Quit \<Rightarrow> Stopped (shut_down s)
      | Deliver d ev \<Rightarrow> next_turn (handle_event P d ev s) (main_loop P xs))"

text \<open>A tick with the disk, the clock and the randomness of its block; \<open>None\<close> is the quit channel.\<close>

primrec validatorLoop ::
  "'z net_prims_scheme \<Rightarrow> (disk \<times> i64 \<times> nat) option list \<Rightarrow> Server \<Rightarrow> loop_end" where
  "validatorLoop P [] s = Waiting s"
| "validatorLoop P (x # xs) s =
     (case x of
        None \<Rightarrow> Stopped s
      | Some (d, now, rnd) \<Rightarrow> next_turn (createNewBlock P d now rnd s) (validatorLoop P xs))"

section \<open>Whatever the loops do\<close>

lemma next_turn_left:
  assumes "Q (out_state r)" and "\<And>s. Q s \<Longrightarrow> Q (left (continue s))"
  shows "Q (left (next_turn r continue))"
  using assms by (cases r) (simp_all add: next_turn_def)

lemma reachable_tick:
  assumes "node_reachable P s" and "isValidator s"
  shows "node_reachable P (out_state (createNewBlock P d now rnd s))"
  using node_reachable.event [OF assms(1), of d "EvTick now rnd"] assms(2)
  by (simp add: handle_event_def)

text \<open>No event changes which node this is, and with which key.\<close>

interpretation identity: server_relation
    "\<lambda>s s'. srv_PrivateKey s' = srv_PrivateKey s \<and> srv_ID s' = srv_ID s" P
  for P :: "'z net_prims_scheme"
  by unfold_locales auto

declare identity.refl [simp del]

lemma main_loop_reaches:
  assumes "node_reachable P s"
  shows "\<exists>s'. node_reachable P s' \<and> left (main_loop P xs s) \<in> {s', shut_down s'}
    \<and> grows (srv_chain s) (srv_chain s') \<and> srv_PrivateKey s' = srv_PrivateKey s"
  using assms
proof (induction xs arbitrary: s)
  case (Cons x xs)
  show ?case
  proof (cases x)
    case (Deliver d ev)
    let ?s = "out_state (handle_event P d ev s)"
    have r: "node_reachable P ?s" by (rule node_reachable.event [OF Cons.prems])
    have g: "grows (srv_chain s) (srv_chain ?s)" "srv_PrivateKey ?s = srv_PrivateKey s"
      using growing.keeps_out [OF growing.keeps_handle_event]
        identity.keeps_out [OF identity.keeps_handle_event] by blast+
    show ?thesis
    proof (cases "handle_event P d ev s")
      case (Returns e t)
      obtain s' where s': "node_reachable P s'" "left (main_loop P xs ?s) \<in> {s', shut_down s'}"
        "grows (srv_chain ?s) (srv_chain s')" "srv_PrivateKey s' = srv_PrivateKey ?s"
        using Cons.IH [OF r] by blast
      have "left (main_loop P (x # xs) s) = left (main_loop P xs ?s)"
        by (simp add: Deliver Returns next_turn_def)
      with s'(1,2,4) g(2) grows_trans [OF g(1) s'(3)] show ?thesis by (intro exI [of _ s']) simp
    qed (use r g Deliver in \<open>auto simp: next_turn_def\<close>)
  qed (use Cons.prems in auto)
qed auto

text \<open>
  C11: a node that has run its main loop, whatever was delivered and however the loop ended (waiting,
  shut down, stopped by a handler that never came back, or with a crash), has a chain in order that
  extends the one it started with, and its pool is bounded.
\<close>

theorem main_loop_safe:
  assumes "node_reachable P s"
  shows "chain_ok P (srv_chain (left (main_loop P xs s)))
    \<and> grows (srv_chain s) (srv_chain (left (main_loop P xs s)))
    \<and> TxSortedMap_Count (all (srv_mempool (left (main_loop P xs s)))) \<le> 1000"
proof -
  obtain s' where r: "node_reachable P s'" and l: "left (main_loop P xs s) \<in> {s', shut_down s'}"
    and g: "grows (srv_chain s) (srv_chain s')" using main_loop_reaches [OF assms] by blast
  have f: "srv_chain (shut_down s') = srv_chain s'" "srv_mempool (shut_down s') = srv_mempool s'"
    by (simp_all add: shut_down_def)
  have ok: "srv_ok P s'" using reachable_srv_ok [OF r] by blast
  then have "TxSortedMap_Count (all (srv_mempool s')) \<le> 1000"
    using tsm_Count [of P "all (srv_mempool s')"] by (simp add: srv_ok_def pool_ok_def)
  with srv_okD(1) [OF ok] g l f show ?thesis by auto
qed

section \<open>The validator's loop\<close>

text \<open>
  The header at the height of the chain is read before the deferred function is in place, but
  on a chain in order that does not panic; every other panic is recovered.
\<close>

lemma createNewBlock_never_panics:
  assumes "chain_ok P (srv_chain s)" and "bc_Headers (srv_chain s) \<noteq> []"
  shows "createNewBlock P d now rnd s \<noteq> Panics t"
  by (auto simp: createNewBlock_def GetHeader_top [OF assms] recover_nil_def split: outcome.split)

lemma validatorLoop_reaches:
  assumes "node_reachable P s" and "isValidator s"
  shows "node_reachable P (left (validatorLoop P xs s)) \<and> (\<forall>t. validatorLoop P xs s \<noteq> Crashed t)"
  using assms
proof (induction xs arbitrary: s)
  case (Cons x xs)
  show ?case
  proof (cases x)
    case (Some y)
    obtain d now rnd where y: "y = (d, now, rnd)" by (cases y)
    have r: "node_reachable P (out_state (createNewBlock P d now rnd s))"
      by (rule reachable_tick [OF Cons.prems])
    have v: "isValidator (out_state (createNewBlock P d now rnd s))"
    proof -
      have "srv_PrivateKey (out_state (createNewBlock P d now rnd s)) = srv_PrivateKey s"
        using identity.keeps_out [OF identity.keeps_createNewBlock] by blast
      with Cons.prems(2) show ?thesis by (simp add: isValidator_def)
    qed
    have np: "createNewBlock P d now rnd s \<noteq> Panics t" for t
      using createNewBlock_never_panics reachable_srv_ok [OF Cons.prems(1)] srv_okD(1) by blast
    show ?thesis
    proof (cases "createNewBlock P d now rnd s")
      case (Returns e t)
      with Cons.IH [of t] r v Some y show ?thesis by (simp add: next_turn_def)
    qed (use np r Some y in \<open>auto simp: next_turn_def\<close>)
  qed (use Cons.prems in simp)
qed simp

text \<open>
  C18: a validator's loop never crashes the process, whatever its ticks meet: on a node in a
  reachable state it is always waiting, told to stop, or stuck in a block that is never finished;
  the node stays in a reachable state.
\<close>

theorem validatorLoop_never_crashes:
  assumes "node_reachable P s" and "isValidator s"
  shows "(\<exists>t. validatorLoop P xs s \<in> {Waiting t, Stopped t, Stuck t})
    \<and> node_reachable P (left (validatorLoop P xs s))"
  using validatorLoop_reaches [OF assms, of xs] by (cases "validatorLoop P xs s") auto

section \<open>Instances\<close>

theorem main_loop_safe_witness:
  "\<exists>s. srv_PrivateKey s = Some 5 \<and> chain_ok demo_node_prims (srv_chain (left (main_loop demo_node_prims
          [Deliver good_disk (EvTx demo_enrol_tx), Deliver good_disk (EvTick 1000 0), Quit] s)))"
proof -
  obtain s where s: "node_reachable demo_node_prims s" "srv_PrivateKey s = Some 5"
    using demo_server_reachable by blast
  from main_loop_safe [OF s(1), of "[Deliver good_disk (EvTx demo_enrol_tx), Deliver good_disk (EvTick 1000 0), Quit]"]
    s(2) show ?thesis by blast
qed

theorem validatorLoop_never_crashes_witness:
  "\<exists>s t. isValidator s \<and> validatorLoop demo_node_prims [Some (good_disk, 1000, 0), None] s
    \<in> {Waiting t, Stopped t, Stuck t}"
proof -
  obtain s where s: "node_reachable demo_node_prims s" "srv_PrivateKey s = Some 5"
    using demo_server_reachable by blast
  then have "isValidator s" by (simp add: isValidator_def)
  with validatorLoop_never_crashes [OF s(1) this, of "[Some (good_disk, 1000, 0), None]"] show ?thesis by blast
qed

end
