(* ===== verification/Tick_Steps.thy ===== *)
theory Tick_Steps
  imports Node_Progress
begin

text \<open>
  A tick of the validator in the two steps between which the main loop can run (\<open>createNewBlock\<close> in
  \<open>network/server.go\<close>): it reads the pending transactions and builds and signs a block of them; then
  it adds the block and clears the pending list. The pool is not locked in between.
\<close>

section \<open>The steps\<close>

datatype ticking = TickPanics | TickHangs | TickEnds "server_error option" | Built Block

definition build_own_block :: "'z net_prims_scheme \<Rightarrow> i64 \<Rightarrow> nat \<Rightarrow> Server \<Rightarrow> ticking" where
  "build_own_block P now rnd s =
     (case GetHeader (srv_chain s) (bc_Height (srv_chain s)) of
        None \<Rightarrow> TickPanics
      | Some (Inl e) \<Rightarrow> TickEnds (Some (SrvHeader e))
      | Some (Inr h) \<Rightarrow>
          (case NewBlockFromPrevHeader P now h (Pending (srv_mempool s)) of
             Inl e \<Rightarrow> TickEnds (Some (SrvNewBlock e))
           | Inr block \<Rightarrow>
               if Height (blk_Header block) \<noteq> Height h + 1
               then TickEnds (Some (SrvHeight (Height h + 1) (Height (blk_Header block))))
               else
                 (case srv_PrivateKey s of
                    None \<Rightarrow> TickEnds None
                  | Some k \<Rightarrow>
                      (case Block_Sign P k rnd block of
                         Panics _ \<Rightarrow> TickEnds None
                       | Blocks _ \<Rightarrow> TickHangs
                       | Returns (Some e) _ \<Rightarrow> TickEnds (Some (SrvSign e))
                       | Returns None block' \<Rightarrow> Built block'))))"

text \<open>What the built block meets is the node as the main loop left it.\<close>

definition finish_tick :: "'z net_prims_scheme \<Rightarrow> disk \<Rightarrow> ticking \<Rightarrow> server_error option handler" where
  "finish_tick P d t s =
     (case t of
        TickPanics \<Rightarrow> Panics s
      | TickHangs \<Rightarrow> Blocks s
      | TickEnds e \<Rightarrow> Returns e s
      | Built b \<Rightarrow> recover_nil (add_own_block P d b) s)"

text \<open>Without anything in between, the two steps are the tick.\<close>

lemma finish_build: "finish_tick P d (build_own_block P now rnd s) s = createNewBlock P d now rnd s"
  by (simp add: finish_tick_def build_own_block_def createNewBlock_def create_body_def recover_nil_def
      split: option.split sum.split outcome.split)

section \<open>A transaction in between\<close>

lemma processTransaction_accepts:
  assumes ok: "srv_ok P s" and v: "Transaction_Verify P tx = Returns None tx"
    and fresh: "\<not> TxPool_Contains (srv_mempool s) (tx_TxHash tx)"
      "tx_TxHash tx \<notin> tx_TxHash ` set (Pending (srv_mempool s))"
  shows "\<exists>p. processTransaction P tx s = Returns None ((spawn (TaskTx tx) s)\<lparr>srv_mempool := p\<rparr>)
    \<and> Pending p = Pending (srv_mempool s) @ [tx] \<and> TxPool_Contains p (tx_TxHash tx)"
proof -
  let ?p = "srv_mempool s"
  have p: "pool_ok P ?p" using ok by (simp add: srv_ok_def)
  obtain h where h: "Transaction_Hash P tx = Returns h tx" using v by (auto elim: Transaction_Verify_accepted)
  have k: "tx_TxHash tx = h" using Transaction_Hash_frame(8) [OF h] .
  obtain p' where p': "TxPool_Add P (?p, tx) = Returns () (p', tx)" "pool_ok P p'"
    "items (all p') = add_new (pruned (maxLength ?p) (items (all ?p))) tx"
    "items (pending p') = (if h \<in> set (keys_of (pruned (maxLength ?p) (items (all ?p))))
      then items (pending ?p) else add_new (items (pending ?p)) tx)"
    using TxPool_Add_ok [OF p h] by blast
  have "tsm_ok P (all ?p)" "tsm_ok P (all p')" using p p'(2) by (simp_all add: pool_ok_def)
  then have "h \<notin> set (keys_of (items (all ?p)))" and c: "TxPool_Contains p' (tx_TxHash tx)"
    using fresh(1) p'(3) by (auto simp: TxPool_Contains_def tsm_Contains add_new_def k)
  moreover have "set (pruned n xs) \<subseteq> set xs" for n xs by (cases xs) (auto simp: pruned_def)
  ultimately have "h \<notin> set (keys_of (pruned (maxLength ?p) (items (all ?p))))" by fastforce
  then have "Pending p' = Pending ?p @ [tx]"
    using p'(4) fresh(2) k by (auto simp: Pending_items add_new_def)
  with c fresh(1) v p'(1) show ?thesis by (intro exI [of _ p']) (simp add: processTransaction_def)
qed

lemma ClearPending_keeps_all: "TxPool_Contains (ClearPending p) h = TxPool_Contains p h"
  by (simp add: TxPool_Contains_def ClearPending_def)

text \<open>
  C10: a transaction that arrives while the validator builds a block is lost. The node takes it (it
  verifies, joins the pool and the pending list), but the tick that is on its way, whose block does
  not have it, succeeds and clears the pending list. The transaction is pending nowhere, yet its
  hash stays in the pool, so sending it again has no effect.
\<close>

theorem late_transaction_lost:
  assumes r: "node_reachable P s" and bound: "length (bc_Headers (srv_chain s)) < 2 ^ 32"
    and P: "signatures_verify P" "sha_fixed_length P" and key: "srv_PrivateKey s = Some k"
    and pend: "\<forall>tx\<in>set (Pending (srv_mempool s)). value_only tx"
    and free: "\<not> bc_stateLock (srv_chain s)" and w: "writable d (srv_chain s)"
    and new: "NewBlockFromPrevHeader P now (last (bc_Headers (srv_chain s))) (Pending (srv_mempool s)) = Inr b"
    and sign: "Block_Sign P k rnd b = Returns None b'"
    and v: "Transaction_Verify P tx = Returns None tx"
    and fresh: "\<not> TxPool_Contains (srv_mempool s) (tx_TxHash tx)"
      "tx_TxHash tx \<notin> tx_TxHash ` set (Pending (srv_mempool s))"
  shows "\<exists>s1 s2. handle_event P d (EvTx tx) s = Returns None s1
    \<and> Pending (srv_mempool s1) = Pending (srv_mempool s) @ [tx]
    \<and> finish_tick P d (build_own_block P now rnd s) s1 = Returns None s2
    \<and> bc_Headers (srv_chain s2) = bc_Headers (srv_chain s) @ [blk_Header b']
    \<and> tx \<notin> set (blk_Transactions b') \<and> Pending (srv_mempool s2) = []
    \<and> (\<forall>d'. handle_event P d' (EvTx tx) s2 = Returns None s2)"
proof -
  from reachable_srv_ok [OF r] have ok: "srv_ok P s" and ne: "bc_Headers (srv_chain s) \<noteq> []" by blast+
  note e = built_block_extends [OF ok ne bound P(1) new sign]
  obtain p where p: "processTransaction P tx s = Returns None ((spawn (TaskTx tx) s)\<lparr>srv_mempool := p\<rparr>)"
    "Pending p = Pending (srv_mempool s) @ [tx]" "TxPool_Contains p (tx_TxHash tx)"
    using processTransaction_accepts [OF ok v fresh] by blast
  let ?s1 = "(spawn (TaskTx tx) s)\<lparr>srv_mempool := p\<rparr>"
  have c: "srv_chain ?s1 = srv_chain s" "srv_mempool ?s1 = p" by (simp_all add: spawn_def)
  obtain s2 where s2: "recover_nil (add_own_block P d b') ?s1 = Returns None s2"
    "bc_Headers (srv_chain s2) = bc_Headers (srv_chain s) @ [blk_Header b']" "srv_mempool s2 = ClearPending p"
    using own_block_added [OF ok ne bound P key pend free w new sign c(1)] c(2) by auto
  have "build_own_block P now rnd s = Built b'"
    by (simp add: build_own_block_def GetHeader_top [OF srv_okD(1) [OF ok] ne] new e(5) key sign)
  then have f: "finish_tick P d (build_own_block P now rnd s) ?s1 = Returns None s2"
    by (simp add: finish_tick_def s2(1))
  have "tx \<notin> set (blk_Transactions b')" using fresh(2) by (auto simp: e(4))
  moreover have "Pending (srv_mempool s2) = []" by (simp add: s2(3) Pending_items pool_ok_ClearPending)
  moreover have "handle_event P d' (EvTx tx) s2 = Returns None s2" for d'
    by (simp add: handle_event_def processTransaction_def s2(3) ClearPending_keeps_all p(3))
  moreover have "handle_event P d (EvTx tx) s = Returns None ?s1" by (simp add: handle_event_def p(1))
  moreover have "Pending (srv_mempool ?s1) = Pending (srv_mempool s) @ [tx]" by (simp add: c(2) p(2))
  ultimately show ?thesis using f s2(2) by blast
qed

section \<open>Instances\<close>

theorem late_transaction_lost_witness:
  "\<exists>s s1 s2. handle_event demo_node_prims good_disk (EvTx demo_tx) s = Returns None s1
    \<and> Pending (srv_mempool s1) = [demo_tx]
    \<and> finish_tick demo_node_prims good_disk (build_own_block demo_node_prims 1000 0 s) s1 = Returns None s2
    \<and> length (bc_Headers (srv_chain s2)) = 2 \<and> Pending (srv_mempool s2) = []
    \<and> handle_event demo_node_prims good_disk (EvTx demo_tx) s2 = Returns None s2"
proof -
  obtain s where s: "node_reachable demo_node_prims s" "length (bc_Headers (srv_chain s)) = 1"
    "\<not> bc_stateLock (srv_chain s)" "writable good_disk (srv_chain s)"
    "srv_PrivateKey s = Some 5" "srv_mempool s = NewTxPool 1000"
    using demo_server_reachable by blast
  have e: "Pending (srv_mempool s) = []" by (simp add: s(6) empty_pool)
  have pend: "\<forall>tx\<in>set (Pending (srv_mempool s)). value_only tx" by (simp add: e)
  have bound: "length (bc_Headers (srv_chain s)) < 2 ^ 32" by (simp add: s(2))
  obtain b b' where b: "NewBlockFromPrevHeader demo_node_prims 1000 (last (bc_Headers (srv_chain s)))
      (Pending (srv_mempool s)) = Inr b"
    and sg: "Block_Sign demo_node_prims 5 0 b = Returns None b'"
    using demo_block_build by blast
  have fresh: "\<not> TxPool_Contains (srv_mempool s) (tx_TxHash demo_tx)"
    "tx_TxHash demo_tx \<notin> tx_TxHash ` set (Pending (srv_mempool s))"
    by (simp_all add: e) (simp add: s(6) empty_pool)
  from late_transaction_lost [OF s(1) bound demo_node_prims_ok(2,1) s(5) pend s(3,4) b sg
      demo_node_tx_verifies fresh]
  obtain s1 s2 where t: "handle_event demo_node_prims good_disk (EvTx demo_tx) s = Returns None s1"
    "Pending (srv_mempool s1) = Pending (srv_mempool s) @ [demo_tx]"
    "finish_tick demo_node_prims good_disk (build_own_block demo_node_prims 1000 0 s) s1 = Returns None s2"
    "bc_Headers (srv_chain s2) = bc_Headers (srv_chain s) @ [blk_Header b']"
    "Pending (srv_mempool s2) = []"
    "\<forall>d'. handle_event demo_node_prims d' (EvTx demo_tx) s2 = Returns None s2" by blast
  show ?thesis
    by (intro exI [of _ s] exI [of _ s1] exI [of _ s2] conjI) (simp_all add: t e s(2))
qed

end
