(* ===== verification/Gob_Registry.thy ===== *)
theory Gob_Registry
  imports Transaction
begin

text \<open>
  The registrations with the \<open>gob\<close> package that the packages make when the program starts
  (\<open>types/hash.go\<close>, \<open>crypto/crypto.go\<close>, \<open>core/block.go\<close>, \<open>core/student.go\<close>, \<open>core/transaction.go\<close>,
  \<open>network/rpc.go\<close>). The package keeps a table of names and types and panics, which ends the program
  before it starts, when names and types would not correspond one to one; a pointer counts as the
  type it points to. The name of a type is a parameter, and so is the type of the curve, which the
  standard library does not name.
\<close>

section \<open>The table\<close>

datatype gotype = Named string string | Pointer gotype

primrec base_type :: "gotype \<Rightarrow> gotype" where
  "base_type (Named pkg n) = Named pkg n"
| "base_type (Pointer t) = base_type t"

type_synonym registry = "(string \<times> gotype) list"

text \<open>Registering the same type again under its name changes nothing; \<open>None\<close> is a panic.\<close>

definition Register :: "(gotype \<Rightarrow> string) \<Rightarrow> gotype \<Rightarrow> registry \<Rightarrow> registry option" where
  "Register name t reg =
     (if (name t, t) \<in> set reg then Some reg
      else if list_ex (\<lambda>(n, u). n = name t \<or> base_type u = base_type t) reg then None
      else Some ((name t, t) # reg))"

primrec register_all :: "(gotype \<Rightarrow> string) \<Rightarrow> gotype list \<Rightarrow> registry \<Rightarrow> registry option" where
  "register_all name [] reg = Some reg"
| "register_all name (t # ts) reg =
     (case Register name t reg of None \<Rightarrow> None | Some reg' \<Rightarrow> register_all name ts reg')"

section \<open>The registrations of the program\<close>

definition types_init :: "gotype list" where
  "types_init = [Named ''types'' ''Hash'']"

definition crypto_init :: "gotype list" where
  "crypto_init = [Pointer (Named ''crypto'' ''PrivateKey''), Pointer (Named ''crypto'' ''PublicKey''),
     Pointer (Named ''crypto'' ''Signature''), Pointer (Named ''big'' ''Int'')]"

definition block_init :: "gotype list" where
  "block_init = [Pointer (Named ''core'' ''Block''), Pointer (Named ''core'' ''Header''),
     Pointer (Named ''core'' ''Transaction''), Named ''types'' ''Hash'',
     Pointer (Named ''crypto'' ''PublicKey''), Pointer (Named ''crypto'' ''Signature'')]"

definition student_init :: "gotype list" where
  "student_init = [Named ''core'' ''Semester'', Named ''core'' ''Student'',
     Named ''core'' ''StudentTxType'', Named ''core'' ''StudentTx'']"

definition transaction_init :: "gotype list" where
  "transaction_init = [Named ''core'' ''CollectionTx'', Named ''core'' ''MintTx'',
     Named ''core'' ''StudentTx'', Named ''core'' ''StudentTxType'',
     Pointer (Named ''core'' ''Transaction''), Pointer (Named ''crypto'' ''PublicKey''),
     Pointer (Named ''crypto'' ''Signature'')]"

definition network_init :: "gotype \<Rightarrow> gotype list" where
  "network_init curve = [curve]"

text \<open>Imported packages first; within a package the files in the order of their names.\<close>

definition program_inits :: "gotype \<Rightarrow> gotype list" where
  "program_inits curve =
     types_init @ crypto_init @ block_init @ student_init @ transaction_init @ network_init curve"

text \<open>The dynamic type of a transaction's inner value, where the program knows it.\<close>

fun inner_type :: "tx_inner \<Rightarrow> gotype option" where
  "inner_type NoInner = None"
| "inner_type (InOther _) = None"
| "inner_type (InCollection _) = Some (Named ''core'' ''CollectionTx'')"
| "inner_type (InMint _) = Some (Named ''core'' ''MintTx'')"
| "inner_type (InStudent _) = Some (Named ''core'' ''StudentTx'')"

section \<open>The program starts\<close>

lemma Register_fresh:
  assumes "inj name" and "\<forall>(n, u)\<in>set reg. n = name u" and "\<forall>(n, u)\<in>set reg. base_type u = base_type t \<longrightarrow> u = t"
  shows "Register name t reg = Some (if (name t, t) \<in> set reg then reg else (name t, t) # reg)"
  using assms by (auto simp: Register_def list_ex_iff dest: injD)

text \<open>One form for each type: no type is registered both as itself and through a pointer.\<close>

definition one_form :: "gotype set \<Rightarrow> bool" where
  "one_form ts \<longleftrightarrow> inj_on base_type ts"

lemma register_all_succeeds:
  assumes "inj name" and "\<forall>(n, u)\<in>set reg. n = name u" and "one_form (snd ` set reg \<union> set ts)"
  shows "\<exists>reg'. register_all name ts reg = Some reg' \<and> snd ` set reg' = snd ` set reg \<union> set ts
    \<and> (\<forall>(n, u)\<in>set reg'. n = name u)"
  using assms(2,3)
proof (induction ts arbitrary: reg)
  case (Cons t ts)
  have "\<forall>(n, u)\<in>set reg. base_type u = base_type t \<longrightarrow> u = t"
    using Cons.prems(2) by (force simp: one_form_def inj_on_def)
  note r = Register_fresh [OF assms(1) Cons.prems(1) this]
  let ?reg = "if (name t, t) \<in> set reg then reg else (name t, t) # reg"
  have "snd ` set ?reg = insert t (snd ` set reg)" by force
  moreover have "\<forall>(n, u)\<in>set ?reg. n = name u" using Cons.prems(1) by auto
  ultimately show ?case
    using Cons.IH [of ?reg] Cons.prems(2) by (simp add: r Un_insert_left)
qed simp

text \<open>
  The registrations of all packages are consistent, so the program starts, and afterwards the
  dynamic type of every inner value of a transaction is registered: transactions of every kind can
  be encoded and decoded.
\<close>

theorem program_registers:
  assumes "inj name" and "base_type curve \<notin> base_type ` set (types_init @ crypto_init @ block_init
    @ student_init @ transaction_init)"
  shows "\<exists>reg. register_all name (program_inits curve) [] = Some reg
    \<and> (\<forall>i t. inner_type i = Some t \<longrightarrow> (name t, t) \<in> set reg)"
proof -
  let ?ts = "set (types_init @ crypto_init @ block_init @ student_init @ transaction_init)"
  have "inj_on base_type ?ts"
    by (auto simp: inj_on_def types_init_def crypto_init_def block_init_def student_init_def
        transaction_init_def)
  moreover have "set (program_inits curve) = insert curve ?ts"
    by (auto simp: program_inits_def network_init_def)
  ultimately have "one_form (set (program_inits curve))"
    using assms(2) by (auto simp: one_form_def)
  then obtain reg where r: "register_all name (program_inits curve) [] = Some reg"
    "snd ` set reg = set (program_inits curve)" "\<forall>(n, u)\<in>set reg. n = name u"
    using register_all_succeeds [OF assms(1), of "[]" "program_inits curve"] by auto
  have "(name t, t) \<in> set reg" if "inner_type i = Some t" for i t
  proof -
    have "t \<in> set (program_inits curve)"
      using that by (cases i) (auto simp: program_inits_def student_init_def transaction_init_def)
    then show ?thesis using r(2,3) by (metis (mono_tags, lifting) case_prodD image_iff prod.collapse)
  qed
  with r(1) show ?thesis by blast
qed

end
