(* ===== verification/Logger.thy ===== *)
theory Logger
  imports Prelude
begin

text \<open>
  \<open>util/logger.go\<close> and \<open>util/assert.go\<close>: the log of the program. A log is the list of the lines
  written to it; the name of the file carries the time of the start. What the file system answers
  and the texts of durations and errors are arguments.
\<close>

section \<open>Operations\<close>

datatype logger_error = ErrLogDirectory | ErrLogFile

text \<open>The result is the path of the log file.\<close>

definition NewLogger :: "bool \<Rightarrow> bool \<Rightarrow> string \<Rightarrow> string \<Rightarrow> logger_error + string" where
  "NewLogger mkdir_fails open_fails pre timestamp =
     (if mkdir_fails then Inl ErrLogDirectory
      else if open_fails then Inl ErrLogFile
      else Inr (''logs/'' @ pre @ ''_'' @ timestamp @ ''.log''))"

type_synonym log = "string list"

definition LogWithTiming :: "string \<Rightarrow> string \<Rightarrow> log \<Rightarrow> log" where
  "LogWithTiming message elapsed l = l @ [message @ '' (took '' @ elapsed @ '')'']"

text \<open>The function runs on its own state; \<open>show_error\<close> is the text of an error.\<close>

definition TimeFunction ::
  "string \<Rightarrow> ('e \<Rightarrow> string) \<Rightarrow> string \<Rightarrow> ('e option, 's) prog \<Rightarrow> ('e option, 's \<times> log) prog" where
  "TimeFunction name show_error elapsed fn = (\<lambda>(s, l).
     let l1 = l @ [''Starting '' @ name] in
     case fn s of
       Panics s' \<Rightarrow> Panics (s', l1)
     | Blocks s' \<Rightarrow> Blocks (s', l1)
     | Returns err s' \<Rightarrow>
         Returns err (s', l1 @ [''Completed '' @ name
           @ (case err of
                Some e \<Rightarrow> '' with error: '' @ show_error e
              | None \<Rightarrow> '' successfully'')
           @ '' (took '' @ elapsed @ '')'']))"

text \<open>A failed assertion logs both values and ends the program, which \<open>None\<close> stands for.\<close>

definition AssertEqual :: "'a \<Rightarrow> 'a \<Rightarrow> 'w \<Rightarrow> 'w option" where
  "AssertEqual a b w = (if a \<noteq> b then None else Some w)"

section \<open>Timing changes nothing\<close>

text \<open>
  The timed function runs once, and its result, its effect and how it ends are its own; two lines
  are added when it comes back, one when it does not.
\<close>

theorem TimeFunction_transparent:
  "map_outcome id fst (TimeFunction name sh elapsed fn (s, l)) = map_outcome id id (fn s)
   \<and> (\<exists>ls. snd (out_state (TimeFunction name sh elapsed fn (s, l))) = l @ ls
      \<and> length ls = (if returned (fn s) then 2 else 1))"
  by (cases "fn s") (simp_all add: TimeFunction_def)

end
