(* ===== verification/Program_Start.thy ===== *)
theory Program_Start
  imports Client Logger
begin

text \<open>
  The start of the program in \<open>main.go\<close>: the log, three nodes of one process, which share the one
  store of the package \<open>core\<close>, and what is found when the program is started again in the same
  directory. All three nodes are made before any takes a turn; the code starts each as a goroutine
  before it makes the next one.
\<close>

section \<open>Options\<close>

record ServerOpts =
  opt_APIListenAddr :: string
  opt_SeedNodes :: "string list"
  opt_ListenAddr :: string
  opt_ID :: string
  opt_BlockTime :: i64
  opt_PrivateKey :: "PrivateKey option"

text \<open>Five seconds in nanoseconds.\<close>

definition defaultBlockTime :: i64 where
  "defaultBlockTime = 5000000000"

definition server_defaults :: "ServerOpts \<Rightarrow> ServerOpts" where
  "server_defaults opts =
     (if opt_BlockTime opts = 0 then opts\<lparr>opt_BlockTime := defaultBlockTime\<rparr> else opts)"

text \<open>Whether the node offers the HTTP interface.\<close>

definition runs_api :: "ServerOpts \<Rightarrow> bool" where
  "runs_api opts \<longleftrightarrow> 0 < length (opt_APIListenAddr opts)"

section \<open>Starting\<close>

text \<open>
  The package's store after a node has started: the pointer the node holds is that of the package,
  so what the node wrote is in it, and in the file.
\<close>

definition store_after :: "Server \<Rightarrow> store_package" where
  "store_after s =
     (case bc_store (srv_chain s) of
        Persistent (Some st) \<Rightarrow> \<lparr>storeInstance = Some st, storeOnce = True, data_file = ps_file st\<rparr>
      | _ \<Rightarrow> \<lparr>storeInstance = None, storeOnce = True, data_file = []\<rparr>)"

text \<open>\<open>None\<close> is the end of the program, by its exit or by a panic.\<close>

definition makeServer ::
  "'z net_prims_scheme \<Rightarrow> disk \<Rightarrow> startup \<Rightarrow> store_package \<Rightarrow> Block \<Rightarrow> string \<Rightarrow> PrivateKey option
   \<Rightarrow> string \<Rightarrow> string list \<Rightarrow> string \<Rightarrow> ((ServerOpts \<times> Server) \<times> store_package) option" where
  "makeServer P d e g genesis sid pk la seeds apiListenAddr =
     (let opts = server_defaults \<lparr>opt_APIListenAddr = apiListenAddr, opt_SeedNodes = seeds,
            opt_ListenAddr = la, opt_ID = sid, opt_BlockTime = 0, opt_PrivateKey = pk\<rparr>
      in case NewServer P d e g genesis (opt_PrivateKey opts) (opt_ID opts) of
           None \<Rightarrow> None
         | Some s \<Rightarrow> Some ((opts, s), store_after s))"

text \<open>The file system's answers for the log: no directory, no file, and the time in its name.\<close>

type_synonym log_files = "bool \<times> bool \<times> string"

definition start_program ::
  "'z net_prims_scheme \<Rightarrow> disk \<Rightarrow> startup \<Rightarrow> store_package \<Rightarrow> log_files \<Rightarrow> PrivateKey
   \<Rightarrow> Block \<times> Block \<times> Block \<Rightarrow> ((ServerOpts \<times> Server) list \<times> store_package) option" where
  "start_program P d e g lf validatorPrivKey genesis =
     (case lf of (no_dir, no_file, time) \<Rightarrow>
        case NewLogger no_dir no_file ''blockchain'' time of
          Inl _ \<Rightarrow> None
        | Inr _ \<Rightarrow>
            (case genesis of (b1, b2, b3) \<Rightarrow>
               case makeServer P d e g b1 ''LOCAL_NODE'' (Some validatorPrivKey) '':3000'' ['':4000''] '':9000'' of
                 None \<Rightarrow> None
               | Some (localNode, g1) \<Rightarrow>
                   (case makeServer P d e g1 b2 ''REMOTE_NODE_B'' None '':4000'' ['':5000''] '''' of
                      None \<Rightarrow> None
                    | Some (remoteNode, g2) \<Rightarrow>
                        (case makeServer P d e g2 b3 ''REMOTE_NODE'' None '':5000'' [] '''' of
                           None \<Rightarrow> None
                         | Some (remoteNodeB, g3) \<Rightarrow> Some ([localNode, remoteNode, remoteNodeB], g3)))))"

text \<open>A new process finds the file and nothing else.\<close>

definition new_process :: "store_package \<Rightarrow> gob_record list \<Rightarrow> store_package" where
  "new_process g written = \<lparr>storeInstance = None, storeOnce = False, data_file = data_file g @ written\<rparr>"

section \<open>What a start needs\<close>

lemma addBlock_store:
  assumes "addBlockWithoutValidation P d (bc, b) = Returns None (bc', b')"
    and "bc_store bc = Persistent (Some st)"
  shows "\<exists>st' w. bc_store bc' = Persistent (Some st') \<and> ps_open st \<and> ps_open st'
    \<and> ps_file st' = ps_file st @ [Some w] \<and> blk_Header w = blk_Header b"
proof -
  have l: "\<not> bc_stateLock bc" using assms(1) by (auto simp: addBlock_locked)
  then show ?thesis
  proof (cases rule: addBlock_cases [of bc P b d])
    case (appends ok bc1 ts hash b2)
    let ?bc = "append_block hash (bc1\<lparr>bc_stateLock := False\<rparr>) b2"
    have "chain_fixed (bc\<lparr>bc_stateLock := True\<rparr>) bc1"
      using handle_txs_Returns(3) [OF appends(1)] .
    then have "bc_store ?bc = Persistent (Some st)" using assms(2) by (simp add: chain_fixed_def)
    then have "map_outcome (map_option ErrStore) (\<lambda>(s, b'). (?bc\<lparr>bc_store := s\<rparr>, b'))
        (map_outcome id (\<lambda>(s', b'). (Persistent (Some s'), b')) (PersistentStore_Put P d (st, b2)))
        = Returns None (bc', b')"
      using assms(1) appends(3) by (simp add: put_block_def Storage_Put_def)
    then obtain st' b3 where p: "PersistentStore_Put P d (st, b2) = Returns None (st', b3)"
      and "bc' = ?bc\<lparr>bc_store := Persistent (Some st')\<rparr>"
      by (cases "PersistentStore_Put P d (st, b2)") auto
    then show ?thesis
      using p Block_Hash_frame(1) [OF appends(2)] by (auto simp: PersistentStore_Put_success)
  qed (use assms(1) in simp_all)
qed

text \<open>A node starts on the store it finds or not at all.\<close>

lemma NewServer_needs_store:
  assumes "NewServer P d e g b key sid = Some s"
  shows "\<exists>st st' w. fst (NewPersistentStore P e g) = Inr (Some st) \<and> ps_open st
    \<and> bc_store (srv_chain s) = Persistent (Some st') \<and> ps_open st'
    \<and> ps_file st' = ps_file st @ [Some w] \<and> blk_Header w = blk_Header b"
proof -
  from assms obtain t where t: "NewBlockchain P d e g b = Inr (Returns None t)" "srv_chain s = fst t"
    by (rule NewServer_chain)
  then obtain a store where st: "fst (NewPersistentStore P e g) = Inr store"
    and add: "addBlockWithoutValidation P d
      (fresh_chain (snd (CreateAccount NewAccountState a)) (Persistent store), b) = Returns None t"
    by (auto simp: NewBlockchain_def split: option.splits sum.splits)
  let ?bc = "fresh_chain (snd (CreateAccount NewAccountState a)) (Persistent store)"
  show ?thesis
  proof (cases store)
    case (Some st0)
    then have "bc_store ?bc = Persistent (Some st0)" by (simp add: fresh_chain_def)
    with addBlock_store [of P d ?bc b "fst t" "snd t" st0] add st t(2) Some show ?thesis by auto
  next
    case None
    have "\<not> bc_stateLock ?bc" by (simp add: fresh_chain_def)
    then show ?thesis
    proof (cases rule: addBlock_cases [of ?bc P b d])
      case (appends ok bc1 ts hash b2)
      have "chain_fixed (?bc\<lparr>bc_stateLock := True\<rparr>) bc1" using handle_txs_Returns(3) [OF appends(1)] .
      then have "bc_store bc1 = Persistent None" by (simp add: chain_fixed_def fresh_chain_def None)
      with appends(3) add show ?thesis by (simp add: put_block_def Storage_Put_def)
    qed (use add in simp_all)
  qed
qed

text \<open>A file of two records leaves no store that takes a block, whatever the file system answers.\<close>

lemma two_records_no_store:
  assumes "2 \<le> length (data_file g)" and "\<not> storeOnce g" and "storeInstance g = None"
  shows "NewServer P d e g b key sid = None"
proof (rule ccontr)
  assume "NewServer P d e g b key sid \<noteq> None"
  then obtain s where "NewServer P d e g b key sid = Some s" by blast
  from NewServer_needs_store [OF this] obtain st where st: "fst (NewPersistentStore P e g) = Inr (Some st)" "ps_open st"
    by blast
  let ?s0 = "\<lparr>ps_file = data_file g, ps_open = True, ps_blockHashes = Map.empty\<rparr> :: PersistentStore"
  have "fst (loadBlockHashes P (load_disk e) ?s0) \<noteq> None"
    using load_hashes_two [OF assms(1), of P Map.empty empty_block]
    by (cases "load_hashes P Map.empty False empty_block (data_file g)") (simp add: loadBlockHashes_def)
  then have "\<not> ps_open (snd (PersistentStore_Close (snd (loadBlockHashes P (load_disk e) ?s0))))"
    and "fst (loadBlockHashes P (load_disk e) ?s0) \<noteq> None"
    by (simp_all add: PersistentStore_Close_def)
  with st assms(2,3) show False
    by (cases "loadBlockHashes P (load_disk e) ?s0") (auto simp: NewPersistentStore_def Let_def split: if_splits)
qed

text \<open>The disk takes every write, every transaction can be encoded.\<close>

definition good_start :: "'z net_prims_scheme \<Rightarrow> disk \<Rightarrow> bool" where
  "good_start P d \<longleftrightarrow> sha_fixed_length P \<and> (\<forall>tx. gob_tx P tx \<noteq> None)
     \<and> \<not> seek_fails d \<and> write_result d = WritesAll \<and> \<not> sync_fails d"

lemma makeServer_starts:
  assumes P: "good_start P d" and b: "genesisBlock P nonce gk rnd = Some b"
    and st: "fst (NewPersistentStore P e g) = Inr (Some st)" "ps_open st"
  shows "\<exists>node st'. makeServer P d e g b sid pk la seeds api
      = Some (node, \<lparr>storeInstance = Some st', storeOnce = True, data_file = ps_file st'\<rparr>)
    \<and> ps_open st' \<and> length (ps_file st') = Suc (length (ps_file st))"
proof -
  have g: "sha_fixed_length P" "\<forall>tx. gob_tx P tx \<noteq> None" "\<not> seek_fails d" "write_result d = WritesAll"
    "\<not> sync_fails d" using P by (simp_all add: good_start_def)
  obtain s where s: "NewServer P d e g b pk sid = Some s"
    using NewServer_starts [OF g(1,2) b st g(3-5)] by blast
  from NewServer_needs_store [OF s] st obtain st' w where "bc_store (srv_chain s) = Persistent (Some st')"
    "ps_open st'" "ps_file st' = ps_file st @ [Some w]" by auto
  with s show ?thesis by (simp add: makeServer_def server_defaults_def Let_def store_after_def)
qed

lemma makeServer_restarts:
  assumes "2 \<le> length (data_file g)"
  shows "makeServer P d e (new_process g written) b sid pk la seeds api = None"
proof -
  have "NewServer P d e (new_process g written) b k n = None" for k n
    using assms by (intro two_records_no_store) (simp_all add: new_process_def)
  then show ?thesis by (simp add: makeServer_def Let_def)
qed

lemma start_program_starts:
  assumes P: "good_start P d" and e: "\<not> mkdir_fails e" "\<not> open_fails e" "\<not> seek_fails (load_disk e)"
    and g: "\<not> storeOnce g" "data_file g = []" and log: "\<not> no_dir" "\<not> no_file"
    and b: "genesisBlock P n1 k1 r1 = Some b1" "genesisBlock P n2 k2 r2 = Some b2"
      "genesisBlock P n3 k3 r3 = Some b3"
  shows "\<exists>nodes st. start_program P d e g (no_dir, no_file, time) k (b1, b2, b3)
      = Some (nodes, \<lparr>storeInstance = Some st, storeOnce = True, data_file = ps_file st\<rparr>)
    \<and> length nodes = 3 \<and> length (ps_file st) = 3"
proof -
  let ?st = "\<lparr>ps_file = [], ps_open = True, ps_blockHashes = Map.empty\<rparr> :: PersistentStore"
  have st: "fst (NewPersistentStore P e g) = Inr (Some ?st)" "ps_open ?st"
    using e g by (simp_all add: NewPersistentStore_def loadBlockHashes_def load_hashes.simps Let_def)
  have next_store: "fst (NewPersistentStore P e \<lparr>storeInstance = Some st', storeOnce = True, data_file = f\<rparr>)
      = Inr (Some st')" for st' f by (simp add: NewPersistentStore_def)
  obtain node1 st1 where n1: "makeServer P d e g b1 ''LOCAL_NODE'' (Some k) '':3000'' ['':4000''] '':9000''
      = Some (node1, \<lparr>storeInstance = Some st1, storeOnce = True, data_file = ps_file st1\<rparr>)"
    "ps_open st1" "length (ps_file st1) = 1"
    using makeServer_starts [OF P b(1) st] by fastforce
  obtain node2 st2 where n2: "makeServer P d e \<lparr>storeInstance = Some st1, storeOnce = True, data_file = ps_file st1\<rparr>
      b2 ''REMOTE_NODE_B'' None '':4000'' ['':5000''] ''''
      = Some (node2, \<lparr>storeInstance = Some st2, storeOnce = True, data_file = ps_file st2\<rparr>)"
    "ps_open st2" "length (ps_file st2) = 2"
    using makeServer_starts [OF P b(2) next_store n1(2)] n1(3) by fastforce
  obtain node3 st3 where n3: "makeServer P d e \<lparr>storeInstance = Some st2, storeOnce = True, data_file = ps_file st2\<rparr>
      b3 ''REMOTE_NODE'' None '':5000'' [] ''''
      = Some (node3, \<lparr>storeInstance = Some st3, storeOnce = True, data_file = ps_file st3\<rparr>)"
    "length (ps_file st3) = 3"
    using makeServer_starts [OF P b(3) next_store n2(2)] n2(3) by fastforce
  let ?g = "\<lparr>storeInstance = Some st3, storeOnce = True, data_file = ps_file st3\<rparr> :: store_package"
  have "start_program P d e g (no_dir, no_file, time) k (b1, b2, b3) = Some ([node1, node2, node3], ?g)"
    using log n1(1) n2(1) n3(1) by (simp add: start_program_def NewLogger_def)
  then show ?thesis using n3(2) by (intro exI [of _ "[node1, node2, node3]"] exI [of _ st3]) simp
qed

text \<open>
  C14: the program starts once. On an empty file and a good disk its three nodes start, and they
  have written three records to the one file. Whatever is written to the file afterwards, whatever
  the file system answers, whatever keys and genesis blocks are drawn: a later start of the
  program in the same directory ends, with an exit or a panic, before any of its nodes runs.
\<close>

theorem program_starts_once:
  assumes P: "good_start P d" and e: "\<not> mkdir_fails e" "\<not> open_fails e" "\<not> seek_fails (load_disk e)"
    and g: "\<not> storeOnce g" "data_file g = []" and log: "\<not> no_dir" "\<not> no_file"
    and b: "genesisBlock P n1 k1 r1 = Some b1" "genesisBlock P n2 k2 r2 = Some b2"
      "genesisBlock P n3 k3 r3 = Some b3"
  shows "\<exists>nodes g'. start_program P d e g (no_dir, no_file, time) k (b1, b2, b3) = Some (nodes, g')
    \<and> length nodes = 3 \<and> length (data_file g') = 3
    \<and> (\<forall>d2 e2 written log2 key2 genesis2.
        start_program P d2 e2 (new_process g' written) log2 key2 genesis2 = None)"
proof -
  obtain nodes st where s: "start_program P d e g (no_dir, no_file, time) k (b1, b2, b3)
      = Some (nodes, \<lparr>storeInstance = Some st, storeOnce = True, data_file = ps_file st\<rparr>)"
    "length nodes = 3" "length (ps_file st) = 3"
    using start_program_starts [OF P e g log b] by blast
  let ?g = "\<lparr>storeInstance = Some st, storeOnce = True, data_file = ps_file st\<rparr> :: store_package"
  have "start_program P d2 e2 (new_process ?g written) log2 key2 genesis2 = None"
    for d2 e2 written log2 key2 genesis2
    using makeServer_restarts [of ?g P d2 e2 written] s(3)
    by (simp add: start_program_def split: prod.split sum.split)
  with s show ?thesis by (intro exI [of _ nodes] exI [of _ ?g]) simp
qed

section \<open>Instances\<close>

text \<open>The conditions of a start hold of the demonstration primitives on a good disk.\<close>

lemma demo_start_conditions:
  "good_start demo_node_prims good_disk" "\<not> mkdir_fails demo_startup" "\<not> open_fails demo_startup"
  "\<not> seek_fails (load_disk demo_startup)" "\<not> storeOnce demo_package" "data_file demo_package = []"
  "storeInstance demo_package = None" "\<exists>b. genesisBlock demo_node_prims 0 7 0 = Some b"
  using demo_node_prims_ok good_disk_writes genesisBlock_exists [of demo_node_prims 7 0] demo_sign(1)
  by (simp_all add: good_start_def demo_startup_def demo_package_def del: not_None_eq)

theorem program_starts_once_witness:
  "\<exists>b nodes g'. start_program demo_node_prims good_disk demo_startup demo_package (False, False, ''T'') 5 (b, b, b)
      = Some (nodes, g') \<and> length nodes = 3
    \<and> start_program demo_node_prims good_disk demo_startup (new_process g' []) (False, False, ''T'') 5 (b, b, b) = None"
proof -
  obtain b where b: "genesisBlock demo_node_prims 0 7 0 = Some b" using demo_start_conditions(8) by blast
  from program_starts_once [OF demo_start_conditions(1-6) _ _ b b b, of False False "''T''" 5] show ?thesis by blast
qed

end
