(* ===== verification/Shared_Store.thy ===== *)
theory Shared_Store
  imports Program_Start
begin

text \<open>
  The process that \<open>main.go\<close> starts: three nodes, each with its own chain, pool and peers, and one
  store, because \<open>NewPersistentStore\<close> of \<open>core/persistent_storage.go\<close> gives every caller the same
  pointer. The nodes take turns; a turn is one event of one node, on the store as the others left it.
  The turns begin when all three nodes are made.
\<close>

section \<open>Turns\<close>

type_synonym process = "Server list \<times> PersistentStore"

definition hold_store :: "PersistentStore \<Rightarrow> Server \<Rightarrow> Server" where
  "hold_store st s = s\<lparr>srv_chain := (srv_chain s)\<lparr>bc_store := Persistent (Some st)\<rparr>\<rparr>"

definition node_at :: "process \<Rightarrow> nat \<Rightarrow> Server" where
  "node_at p i = hold_store (snd p) (fst p ! i)"

definition store_of :: "PersistentStore \<Rightarrow> Server \<Rightarrow> PersistentStore" where
  "store_of st s = (case bc_store (srv_chain s) of Persistent (Some st') \<Rightarrow> st' | _ \<Rightarrow> st)"

definition turn :: "'z net_prims_scheme \<Rightarrow> disk \<Rightarrow> nat \<Rightarrow> event \<Rightarrow> process \<Rightarrow> process" where
  "turn P d i ev p =
     (let s = out_state (handle_event P d ev (node_at p i))
      in ((fst p)[i := s], store_of (snd p) s))"

text \<open>Started in an empty directory.\<close>

inductive process_reachable :: "'z net_prims_scheme \<Rightarrow> process \<Rightarrow> bool" for P where
  start: "genesisBlock P n1 k1 r1 = Some b1 \<Longrightarrow> genesisBlock P n2 k2 r2 = Some b2
    \<Longrightarrow> genesisBlock P n3 k3 r3 = Some b3 \<Longrightarrow> \<not> storeOnce g \<Longrightarrow> storeInstance g = None
    \<Longrightarrow> data_file g = []
    \<Longrightarrow> start_program P d e g lf key (b1, b2, b3) = Some (nodes, g') \<Longrightarrow> storeInstance g' = Some st
    \<Longrightarrow> process_reachable P (map snd nodes, st)"
| turns: "process_reachable P p \<Longrightarrow> i < length (fst p) \<Longrightarrow> process_reachable P (turn P d i ev p)"

section \<open>A node and its file\<close>

text \<open>The file is appended to, at most one record for each block that joins the chain.\<close>

definition files :: "Blockchain \<Rightarrow> Blockchain \<Rightarrow> bool" where
  "files bc bc' \<longleftrightarrow> (\<forall>st. bc_store bc = Persistent (Some st) \<longrightarrow>
     (\<exists>st' new. bc_store bc' = Persistent (Some st') \<and> ps_file st' = ps_file st @ new
        \<and> length new + length (bc_Headers bc) \<le> length (bc_Headers bc')))"

lemma files_refl: "files bc bc"
  by (simp add: files_def)

lemma files_trans:
  assumes "files a b" and "files b c"
  shows "files a c"
  unfolding files_def
proof (intro allI impI)
  fix st assume "bc_store a = Persistent (Some st)"
  with assms(1) obtain st1 n1 where 1: "bc_store b = Persistent (Some st1)" "ps_file st1 = ps_file st @ n1"
    "length n1 + length (bc_Headers a) \<le> length (bc_Headers b)" unfolding files_def by blast
  with assms(2) obtain st2 n2 where 2: "bc_store c = Persistent (Some st2)" "ps_file st2 = ps_file st1 @ n2"
    "length n2 + length (bc_Headers b) \<le> length (bc_Headers c)" unfolding files_def by blast
  show "\<exists>st' new. bc_store c = Persistent (Some st') \<and> ps_file st' = ps_file st @ new
      \<and> length new + length (bc_Headers a) \<le> length (bc_Headers c)"
    using 1 2 by (intro exI [of _ st2] exI [of _ "n1 @ n2"]) simp
qed

lemma files_fixed: "chain_fixed (bc\<lparr>bc_stateLock := l\<rparr>) bc1 \<Longrightarrow> files bc bc1"
  by (simp add: files_def chain_fixed_def)

lemma Put_file:
  "\<exists>new. ps_file (fst (out_state (PersistentStore_Put P d (st, b)))) = ps_file st @ new \<and> length new \<le> 1"
proof -
  obtain h b' where "Block_Hash P b = Returns h b'" using Block_Hash_returns by blast
  moreover have "length (fresh_encoding P d b) \<le> 1"
    by (simp add: fresh_encoding_def split: write_result.split)
  ultimately show ?thesis by (simp add: PersistentStore_Put_def Let_def)
qed

lemma put_block_file:
  assumes "bc_store bc = Persistent (Some st)"
  shows "\<exists>st' new. fst (out_state (put_block P d (bc, b))) = bc\<lparr>bc_store := Persistent (Some st')\<rparr>
    \<and> ps_file st' = ps_file st @ new \<and> length new \<le> 1"
proof -
  have "fst (out_state (put_block P d (bc, b)))
      = bc\<lparr>bc_store := Persistent (Some (fst (out_state (PersistentStore_Put P d (st, b)))))\<rparr>"
    using assms
    by (cases "PersistentStore_Put P d (st, b)") (auto simp: put_block_def Storage_Put_def)
  with Put_file [of P d st b] show ?thesis by blast
qed

lemma addBlock_files: "files bc (fst (out_state (addBlockWithoutValidation P d (bc, b))))"
proof (cases "bc_stateLock bc")
  case True
  then show ?thesis by (simp add: addBlock_locked files_refl)
next
  case False
  let ?bc = "bc\<lparr>bc_stateLock := True\<rparr>"
  have fx: "chain_fixed ?bc (fst (out_state (handle_txs P (blk_Transactions b) ?bc)))"
    using handle_txs_frame by blast
  from False show ?thesis
  proof (cases rule: addBlock_cases [of bc P b d])
    case (appends r bc1 ts hash b2)
    let ?bc2 = "append_block hash (bc1\<lparr>bc_stateLock := False\<rparr>) b2"
    from fx appends(1) have c: "bc_Headers bc1 = bc_Headers bc" "bc_store bc1 = bc_store bc"
      by (simp_all add: chain_fixed_def)
    show ?thesis
      unfolding files_def
    proof (intro allI impI)
      fix st assume "bc_store bc = Persistent (Some st)"
      then obtain st' new where "fst (out_state (put_block P d (?bc2, b2)))
          = ?bc2\<lparr>bc_store := Persistent (Some st')\<rparr>" "ps_file st' = ps_file st @ new" "length new \<le> 1"
        using put_block_file [of ?bc2 st P d b2] c by auto
      then show "\<exists>st' new. bc_store (fst (out_state (addBlockWithoutValidation P d (bc, b))))
            = Persistent (Some st') \<and> ps_file st' = ps_file st @ new
          \<and> length new + length (bc_Headers bc)
            \<le> length (bc_Headers (fst (out_state (addBlockWithoutValidation P d (bc, b)))))"
        unfolding appends(3) using c by (intro exI [of _ st'] exI [of _ new]) simp
    qed
  qed (use fx files_fixed in simp_all)
qed

interpretation filed: server_relation "\<lambda>s s'. files (srv_chain s) (srv_chain s')" P
  for P :: "'z net_prims_scheme"
proof
  fix s :: Server and d b
  show "files (srv_chain s) (srv_chain (s\<lparr>srv_chain
      := fst (out_state (AddBlock P d (ValidateBlock P) (srv_chain s, b)))\<rparr>))"
    by (cases rule: block_validator.AddBlock_validated_cases [of P "srv_chain s" b d])
      (auto simp: addBlock_files files_refl)
qed (auto simp: files_refl intro: files_trans)

declare filed.refl [simp del]

section \<open>The start\<close>

lemma addBlock_appends:
  assumes "addBlockWithoutValidation P d (bc, b) = Returns e (bc', b')"
  shows "length (bc_Headers bc') = Suc (length (bc_Headers bc))"
proof -
  have "\<not> bc_stateLock bc" using assms by (auto simp: addBlock_locked)
  then show ?thesis
  proof (cases rule: addBlock_cases [of bc P b d])
    case (appends r bc1 ts hash b2)
    have "bc_Headers bc1 = bc_Headers bc"
      using handle_txs_Returns(3) [OF appends(1)] by (simp add: chain_fixed_def)
    then show ?thesis
      using assms appends(3)
      by (cases rule: put_block_frame [of P d "append_block hash (bc1\<lparr>bc_stateLock := False\<rparr>) b2" b2]) auto
  qed (use assms in simp_all)
qed

lemma makeServer_shares:
  assumes "makeServer P d e g b sid pk la seeds api = Some ((opts, s), g')"
    and "genesisBlock P n k r = Some b"
  shows "\<exists>st st' w. fst (NewPersistentStore P e g) = Inr (Some st)
    \<and> g' = \<lparr>storeInstance = Some st', storeOnce = True, data_file = ps_file st'\<rparr>
    \<and> ps_file st' = ps_file st @ [Some w] \<and> Height (blk_Header w) = 0
    \<and> srv_ok P s \<and> length (bc_Headers (srv_chain s)) = 1"
proof -
  from assms(1) obtain id' key where s: "NewServer P d e g b key id' = Some s" and g': "g' = store_after s"
    by (auto simp: makeServer_def Let_def split: option.splits)
  from NewServer_adds_genesis [OF s] obtain a store b' where
    "addBlockWithoutValidation P d (fresh_chain (snd (CreateAccount NewAccountState a)) (Persistent store), b)
      = Returns None (srv_chain s, b')" .
  from addBlock_appends [OF this] have "length (bc_Headers (srv_chain s)) = 1"
    by (simp add: fresh_chain_def)
  with NewServer_needs_store [OF s] start_ok(1) [OF assms(2) s] genesis_header(1) [OF assms(2)] g'
  show ?thesis by (auto simp: store_after_def)
qed

text \<open>What every turn keeps.\<close>

definition process_ok :: "'z net_prims_scheme \<Rightarrow> process \<Rightarrow> bool" where
  "process_ok P p \<longleftrightarrow> length (fst p) = 3
     \<and> (\<forall>s\<in>set (fst p). srv_ok P s \<and> bc_Headers (srv_chain s) \<noteq> [])
     \<and> length (ps_file (snd p)) \<le> sum_list (map (\<lambda>s. length (bc_Headers (srv_chain s))) (fst p))
     \<and> (\<exists>w0 w1 ws. ps_file (snd p) = Some w0 # w1 # ws \<and> Height (blk_Header w0) = 0)"

lemma fresh_store:
  assumes "\<not> storeOnce g" and "storeInstance g = None" and "fst (NewPersistentStore P e g) = Inr (Some st)"
  shows "ps_file st = data_file g"
  using assms
  by (auto simp: NewPersistentStore_def Let_def loadBlockHashes_def PersistentStore_Close_def
      split: if_splits prod.splits)

lemma start_process_ok:
  assumes b: "genesisBlock P n1 k1 r1 = Some b1" "genesisBlock P n2 k2 r2 = Some b2"
      "genesisBlock P n3 k3 r3 = Some b3"
    and g: "\<not> storeOnce g" "storeInstance g = None" "data_file g = []"
    and s: "start_program P d e g lf key (b1, b2, b3) = Some (nodes, g')" "storeInstance g' = Some st"
  shows "process_ok P (map snd nodes, st)"
proof -
  obtain o1 s1 g1 o2 s2 g2 o3 s3 where
    m1: "makeServer P d e g b1 ''LOCAL_NODE'' (Some key) '':3000'' ['':4000''] '':9000'' = Some ((o1, s1), g1)"
    and m2: "makeServer P d e g1 b2 ''REMOTE_NODE_B'' None '':4000'' ['':5000''] '''' = Some ((o2, s2), g2)"
    and m3: "makeServer P d e g2 b3 ''REMOTE_NODE'' None '':5000'' [] '''' = Some ((o3, s3), g')"
    and n: "nodes = [(o1, s1), (o2, s2), (o3, s3)]"
    using s(1) by (auto simp: start_program_def split: prod.splits sum.splits option.splits)
  have again: "fst (NewPersistentStore P e \<lparr>storeInstance = Some st', storeOnce = True, data_file = f\<rparr>) = Inr (Some st')"
    for st' f by (simp add: NewPersistentStore_def)
  obtain t0 t1 w1 where 1: "fst (NewPersistentStore P e g) = Inr (Some t0)"
    "g1 = \<lparr>storeInstance = Some t1, storeOnce = True, data_file = ps_file t1\<rparr>"
    "ps_file t1 = ps_file t0 @ [Some w1]" "Height (blk_Header w1) = 0"
    "srv_ok P s1" "length (bc_Headers (srv_chain s1)) = 1"
    using makeServer_shares [OF m1 b(1)] by blast
  obtain t2 w2 where 2: "g2 = \<lparr>storeInstance = Some t2, storeOnce = True, data_file = ps_file t2\<rparr>"
    "ps_file t2 = ps_file t1 @ [Some w2]" "srv_ok P s2" "length (bc_Headers (srv_chain s2)) = 1"
    using makeServer_shares [OF m2 b(2)] again 1(2) by fastforce
  obtain t3 w3 where 3: "g' = \<lparr>storeInstance = Some t3, storeOnce = True, data_file = ps_file t3\<rparr>"
    "ps_file t3 = ps_file t2 @ [Some w3]" "srv_ok P s3" "length (bc_Headers (srv_chain s3)) = 1"
    using makeServer_shares [OF m3 b(3)] again 2(1) by fastforce
  have "ps_file t0 = []" using fresh_store [OF g(1,2) 1(1)] g(3) by simp
  then have "ps_file st = [Some w1, Some w2, Some w3]" using 1(3) 2(2) 3(1,2) s(2) by simp
  with 1(4-6) 2(3,4) 3(3,4) show ?thesis by (auto simp: process_ok_def n)
qed

lemma turn_process_ok:
  assumes ok: "process_ok P p" and i: "i < length (fst p)"
  shows "process_ok P (turn P d i ev p)"
proof -
  let ?old = "node_at p i"
  let ?s = "out_state (handle_event P d ev ?old)"
  have o: "srv_ok P (fst p ! i)" "bc_Headers (srv_chain (fst p ! i)) \<noteq> []"
    using ok i by (auto simp: process_ok_def)
  have h0: "bc_Headers (srv_chain ?old) = bc_Headers (srv_chain (fst p ! i))"
    by (simp add: node_at_def hold_store_def)
  have "srv_ok P ?old" using o(1) by (simp add: node_at_def hold_store_def srv_ok_def)
  then have s: "srv_ok P ?s" using srv_inv.keeps_out [OF srv_inv.keeps_handle_event] by blast
  have "grows (srv_chain ?old) (srv_chain ?s)"
    by (rule growing.keeps_out [OF growing.keeps_handle_event])
  then have ne: "bc_Headers (srv_chain ?s) \<noteq> []" using o(2) h0 by (auto simp: grows_def)
  have "files (srv_chain ?old) (srv_chain ?s)"
    by (rule filed.keeps_out [OF filed.keeps_handle_event])
  moreover have "bc_store (srv_chain ?old) = Persistent (Some (snd p))"
    by (simp add: node_at_def hold_store_def)
  ultimately obtain st new where a: "bc_store (srv_chain ?s) = Persistent (Some st)"
    "ps_file st = ps_file (snd p) @ new"
    "length new + length (bc_Headers (srv_chain ?old)) \<le> length (bc_Headers (srv_chain ?s))"
    unfolding files_def by blast
  then have st: "store_of (snd p) ?s = st" "ps_file st = ps_file (snd p) @ new"
    "length new + length (bc_Headers (srv_chain (fst p ! i))) \<le> length (bc_Headers (srv_chain ?s))"
    unfolding h0 by (simp_all add: store_of_def)
  let ?l = "\<lambda>s. length (bc_Headers (srv_chain s))"
  have "?l (fst p ! i) \<le> sum_list (map ?l (fst p))"
    using i by (intro member_le_sum_list) simp_all
  then have "sum_list (map ?l ((fst p)[i := ?s])) + ?l (fst p ! i) = sum_list (map ?l (fst p)) + ?l ?s"
    using i by (simp add: map_update sum_list_update)
  with ok st have "length (ps_file st) \<le> sum_list (map ?l ((fst p)[i := ?s]))"
    by (simp add: process_ok_def)
  moreover have "\<forall>t\<in>set ((fst p)[i := ?s]). srv_ok P t \<and> bc_Headers (srv_chain t) \<noteq> []"
    using ok s ne set_update_subset_insert [of "fst p" i ?s] by (auto simp: process_ok_def)
  ultimately show ?thesis using ok st by (auto simp: process_ok_def turn_def Let_def)
qed

lemma reachable_process_ok: "process_reachable P p \<Longrightarrow> process_ok P p"
  by (induction rule: process_reachable.induct) (simp_all add: start_process_ok turn_process_ok)

section \<open>Properties\<close>

text \<open>
  C12: in the process that the program starts in an empty directory, after any turns of its three
  nodes, every node's chain is in order and its pool bounded although they write to one store, and
  the store's file has at most one record for each block of the three chains.
\<close>

theorem process_in_order:
  assumes "process_reachable P p" and "i < 3"
  shows "length (fst p) = 3 \<and> chain_ok P (srv_chain (fst p ! i)) \<and> bc_Headers (srv_chain (fst p ! i)) \<noteq> []
    \<and> TxSortedMap_Count (all (srv_mempool (fst p ! i))) \<le> 1000
    \<and> length (ps_file (snd p)) \<le> sum_list (map (\<lambda>s. length (bc_Headers (srv_chain s))) (fst p))"
proof -
  have ok: "process_ok P p" by (rule reachable_process_ok [OF assms(1)])
  then have s: "srv_ok P (fst p ! i)" "bc_Headers (srv_chain (fst p ! i)) \<noteq> []"
    using assms(2) by (auto simp: process_ok_def)
  then have "TxSortedMap_Count (all (srv_mempool (fst p ! i))) \<le> 1000"
    using tsm_Count [of P "all (srv_mempool (fst p ! i))"] by (simp add: srv_ok_def pool_ok_def)
  with ok s srv_okD(1) [OF s(1)] show ?thesis by (simp add: process_ok_def)
qed

text \<open>
  The answer to a lookup when of the whole file only the first record can be read: the node's own
  memory, then what the store knows of the hash.
\<close>

definition memory_or_first :: "Block \<Rightarrow> process \<Rightarrow> nat \<Rightarrow> disk \<Rightarrow> hash \<Rightarrow> chain_error + Block" where
  "memory_or_first w p i d h =
     (case bc_blockStore (srv_chain (fst p ! i)) h of
        Some b \<Rightarrow> Inr b
      | None \<Rightarrow>
          (case ps_blockHashes (snd p) h of
             None \<Rightarrow> Inl (ErrStore (ErrBlockNotFound h))
           | Some n \<Rightarrow>
               if \<not> ps_open (snd p) \<or> seek_fails d then Inl (ErrStore ErrSeekStart)
               else if n = 0 then Inr (w\<lparr>blk_hash := zero_hash\<rparr>)
               else Inl (ErrStore (ErrDecode GobDuplicateType))))"

text \<open>
  C15: in that process the file is written and never read beyond its beginning. Whatever hash a node
  is asked for, after any turns, its answer is a block of its own memory, or the first record of
  the file, a genesis block, or an error: no block of a height above zero is ever read back, of
  whatever node it is.
\<close>

theorem stored_blocks_lost:
  assumes "process_reachable P p"
  shows "\<exists>w. Height (blk_Header w) = 0
    \<and> (\<forall>i d h. GetBlockByHash d (srv_chain (node_at p i)) h = Some (memory_or_first w p i d h))"
proof -
  obtain w0 w1 ws where w: "ps_file (snd p) = Some w0 # w1 # ws" "Height (blk_Header w0) = 0"
    using reachable_process_ok [OF assms] by (auto simp: process_ok_def)
  show ?thesis
    by (rule exI [of _ w0]) (auto simp: w memory_or_first_def node_at_def hold_store_def GetBlockByHash_def
        PersistentStore_GetBlockByHash_def find_height_first split: option.split)
qed

section \<open>Instances\<close>

text \<open>The demonstration process after its validator's first tick.\<close>

lemma demo_process_reachable:
  "\<exists>p. process_reachable demo_node_prims p \<and> length (fst p) = 3"
proof -
  obtain b where b: "genesisBlock demo_node_prims 0 7 0 = Some b" using demo_start_conditions(8) by blast
  obtain nodes st where s: "start_program demo_node_prims good_disk demo_startup demo_package
      (False, False, ''T'') 5 (b, b, b)
      = Some (nodes, \<lparr>storeInstance = Some st, storeOnce = True, data_file = ps_file st\<rparr>)" "length nodes = 3"
    using start_program_starts [OF demo_start_conditions(1-6) _ _ b b b, of False False "''T''" 5] by blast
  have "process_reachable demo_node_prims (map snd nodes, st)"
    by (rule process_reachable.start [OF b b b demo_start_conditions(5,7,6) s(1)]) simp
  then have "process_reachable demo_node_prims (turn demo_node_prims good_disk 0 (EvTick 1000 0) (map snd nodes, st))"
    using s(2) by (intro process_reachable.turns) simp_all
  then show ?thesis using s(2) by (intro exI conjI) (assumption, simp add: turn_def Let_def)
qed

theorem process_in_order_witness:
  "\<exists>p. process_reachable demo_node_prims p \<and> chain_ok demo_node_prims (srv_chain (fst p ! 2))
    \<and> length (ps_file (snd p)) \<le> sum_list (map (\<lambda>s. length (bc_Headers (srv_chain s))) (fst p))"
  using demo_process_reachable process_in_order [where i = 2] by fastforce

theorem stored_blocks_lost_witness:
  "\<exists>p w. process_reachable demo_node_prims p \<and> Height (blk_Header w) = 0
    \<and> GetBlockByHash good_disk (srv_chain (node_at p 1)) zero_hash
      = Some (memory_or_first w p 1 good_disk zero_hash)"
  using demo_process_reachable stored_blocks_lost by blast

end
