(* ===== verification/Spec2Isabelle.thy ===== *)
theory Spec2Isabelle
  imports Prelude Go_List Hash_Address Keypair Sha256 Student Vm_State Vm_Programs Account_State
    Transaction Block Storage Inspect Blockchain Chain_Frame Chain_Invariant Chain_Demo Chain_Safety
    Chain_Effects Chain_Hazards Chain_Progress Api Tx_Pool Messages Transport Server Server_Safety
    Node_Start Node Node_Progress Node_Sync Network Client Random_Data
    Add_Steps Race Add_Progress Node_Loops Tick_Steps Gob_Registry Logger Program_Start
    Shared_Store
begin

text \<open>
  A verification library for a blockchain node written in Go.

  \<^bold>\<open>The program.\<close> A node (\<open>network/server.go\<close>) owns a chain (\<open>core/blockchain.go\<close>), a pool of
  transactions (\<open>network/txpool.go\<close>) and a map of peers (\<open>network/tcp_transport.go\<close>). It takes
  transactions from its HTTP interface (\<open>api/server.go\<close>) and transactions, blocks and requests from
  its peers; a node with a private key also builds a block on every tick. Blocks are validated
  (\<open>core/validator.go\<close>), their transactions run on accounts, on a small virtual machine and on
  registries of tokens and students, and they are written to a file (\<open>core/persistent_storage.go\<close>),
  which a command (\<open>cmd/inspect\<close>) prints. \<open>main.go\<close> starts three nodes and plays a client.

  \<^bold>\<open>How Go is modelled.\<close> Integers keep their width as words. A method that writes through pointers
  is a program \<open>('a, 's) prog\<close> of theory \<open>Prelude\<close>: it maps the state it may write to an outcome,
  which is a return with a value, a panic, or blocking for ever; a panic and a block keep the state
  they happened in, because a caller may recover and other goroutines go on. Errors are values of
  datatypes, with \<open>None\<close> for \<open>nil\<close>. A lock is a field where its holding matters (\<open>stateLock\<close>, which
  is taken by two operations of which one calls the other); the locks that are released before
  another one is taken leave no trace. Handlers are single steps of a node; adding a block, which
  two goroutines do at once, is also given in the smaller steps that interleave. Fields that cache
  a hash are state. Log lines are left out, except for the hashes they ask for and so cache, and
  for the header they read.

  \<^bold>\<open>What is a parameter.\<close> The cryptographic primitives and the encodings of the standard library are
  fields of the records \<open>crypto_prims\<close>, \<open>tx_prims\<close>, \<open>prims\<close> and \<open>net_prims\<close>, each extending the one
  before. What the code relies on is named: \<open>sha_fixed_length\<close>, \<open>signatures_verify\<close> (a signature
  verifies under the key that made it), \<open>both_numbers_read\<close> (verification reads both numbers of a
  signature), \<open>gob_ok\<close> (what was encoded decodes to the same value),
  \<open>routes_by_segment\<close> (the router of the HTTP framework finds the handler of a path).
  SHA-256 is also given as an executable function. Clock readings, nonces, random numbers, the
  results of system calls on files and connections, floating-point arithmetic, JSON text, the
  names of types in encodings and the HTTP exchange are arguments of the operations that use them.

  \<^bold>\<open>The theories, from the bottom.\<close>

  \<^item> \<open>Prelude\<close>: outcomes, sequencing, relations that every step of a program keeps (locale
    \<open>state_preorder\<close>), little-endian bytes.
  \<^item> \<open>Go_List\<close> (\<open>types/list.go\<close>), \<open>Hash_Address\<close> (\<open>types/hash.go\<close>, \<open>types/address.go\<close>), \<open>Keypair\<close>
    (\<open>crypto/keypair.go\<close>), \<open>Sha256\<close>, \<open>Student\<close> (\<open>core/student.go\<close>); \<open>Random_Data\<close>
    (\<open>util/random.go\<close>, \<open>util/transaction.go\<close>), on \<open>Block\<close>.
  \<^item> \<open>Vm_State\<close> and \<open>Vm_Programs\<close> (\<open>core/vm.go\<close>, \<open>core/state.go\<close>): every instruction and every
    panic; the stack as a bounded queue; runs of programs, their end and what they store.
  \<^item> \<open>Account_State\<close> (\<open>core/account_state.go\<close>): transfers as an instance of a ledger (locale
    \<open>ledger\<close>), the supply, the coinbase address.
  \<^item> \<open>Transaction\<close> (\<open>core/transaction.go\<close>, \<open>core/hasher.go\<close>, \<open>core/encoding.go\<close>) and \<open>Block\<close>
    (\<open>core/block.go\<close>): hashing with its cache (locale \<open>cached_hash\<close>), signing, verifying, building.
  \<^item> \<open>Storage\<close> (\<open>core/storage.go\<close>, \<open>core/persistent_storage.go\<close>): the file as the list of what each
    encoder wrote; \<open>Inspect\<close> (\<open>cmd/inspect/main.go\<close>).
  \<^item> \<open>Blockchain\<close> (\<open>core/blockchain.go\<close>, \<open>core/validator.go\<close>): the definitions. \<open>Chain_Frame\<close> has what
    handling transactions leaves alone; \<open>Chain_Invariant\<close> the invariant \<open>chain_ok\<close> and the contract
    of a validator (locale \<open>validator\<close>); \<open>Chain_Safety\<close> the block validator as an instance of it and
    the reachable chains; \<open>Chain_Effects\<close> the ledger that a block implements; \<open>Chain_Hazards\<close> how
    adding a block can go wrong; \<open>Chain_Progress\<close> when it succeeds; \<open>Chain_Demo\<close> a concrete chain.
  \<^item> \<open>Api\<close> (\<open>api/server.go\<close>): the HTTP routes and their handlers on a chain. \<open>Gob_Registry\<close>: the
    \<open>init\<close> functions of all packages, which register types for encoding. \<open>Logger\<close> (\<open>util/logger.go\<close>,
    \<open>util/assert.go\<close>).
  \<^item> \<open>Add_Steps\<close> (\<open>core/blockchain.go\<close>, \<open>core/validator.go\<close>): \<open>AddBlock\<close> as a machine of phases, the
    interleavings of any number of calls, and what every interleaving keeps (locale
    \<open>stable_phases\<close>); \<open>Race\<close> has the schedule in which two calls add blocks of one height,
    \<open>Add_Progress\<close> the bound on the steps of any number of calls and why they can stop.
  \<^item> \<open>Tx_Pool\<close> (\<open>network/txpool.go\<close>): the pool (locale \<open>keyed_list\<close>). \<open>Messages\<close> (\<open>network/rpc.go\<close>,
    \<open>network/message.go\<close>) and \<open>Transport\<close> (\<open>network/tcp_transport.go\<close>, \<open>network/local_transport.go\<close>).
  \<^item> \<open>Server\<close> (\<open>network/server.go\<close>): one definition per handler, and \<open>handle_event\<close> for one turn of
    the main loop, of the validator's loop or of a goroutine a handler started. \<open>Server_Safety\<close>
    proves once, in a chain of locales from \<open>task_relation\<close> to \<open>server_relation\<close>, that every event
    keeps a relation that the elementary updates keep; the instances are the invariant of a node,
    the frozen chain, (in \<open>Node\<close>) the growth of the chain and the typed contract state, and for the
    handlers that bring no block or touch no peer, the same chain and the same peers. \<open>Node_Start\<close> has the start of a
    node, \<open>Node\<close> its reachable states and its answers, \<open>Node_Progress\<close> what ticks achieve,
    \<open>Tick_Steps\<close> a tick with the main loop running in between, \<open>Node_Sync\<close> how a node follows a
    peer, \<open>Node_Loops\<close> the main loop with its shutdown, the
    validator's loop, and how they end.
  \<^item> \<open>Network\<close> (\<open>network/tcp_transport.go\<close>, the start in \<open>network/server.go\<close>): listening, accepting
    and dialling, and two connected nodes as one system: two streams of bytes, which the network
    may cut into reads anywhere and in any order of the two sides (\<open>link_step\<close>); a node handles what one
    read got and writes its answers behind what is underway.
  \<^item> \<open>Client\<close> (\<open>main.go\<close>, \<open>mock/students.go\<close>): the demonstration, and what it does to its node.
    \<open>Program_Start\<close> (\<open>main.go\<close>): the log, the options and the three nodes of the program, and its
    next start. \<open>Shared_Store\<close>: these nodes as one process, taking turns on the one store of the
    package; what every turn keeps, and what can be read back.

  \<^bold>\<open>What is shown.\<close> Chains grown by any blocks keep their heights, hash links, stored blocks and
  accounts in order, and a node keeps that together with its bounded pool of verified transactions
  over all events, however a handler or a loop ends; chains only grow. Any interleaving of calls of
  \<open>AddBlock\<close> ends, and keeps the chain a linked tree and the
  supply; the steps of one call alone end as \<open>AddBlock\<close> does. An accepted block is the next one,
  validly signed; a block of value transactions implements an abstract ledger, and no block creates
  money except from the coinbase account, which starts with ten million. Blocks that a validator
  builds are accepted by its own validation and, for value transactions, appended. Two nodes
  that connect exchange statuses, a request and blocks, and the shorter one ends on the chain of
  the other, under conditions: its headers are the beginning of the other's, the further blocks
  have value transactions and verify, its lock is free and its disk writable, nothing else happens
  at the nodes, and every message fits into one read, is read by itself and is decoded before the next one. What
  is stored is found under its hash
  through the HTTP interface, with all fields; messages are decoded as what was sent. The machine's programs end and
  the store program stores. The same models show where the program fails: a student transaction
  blocks the chain for ever (the demonstration of \<open>main.go\<close> does that to its own node), a panic
  leaves the state lock held, two concurrent calls can append two blocks of one height, after which
  nothing changes the chain, the validator's ticks included, until a block arrives from a peer, a
  message that is read before the one ahead of it is decoded overwrites that, a transaction that arrives while a block is built is lost, the
  second block of a file cannot be read back and the program
  starts only once in a directory, a transaction's content is not bound by its signature once its hash field is
  set, a stored block from which a failed transaction was removed no longer verifies. Each of these
  is a theorem, listed in the manifest with the line of the code.

  \<^bold>\<open>Bounds and loops.\<close> Heights are 32-bit: the invariant carries that a chain has at most \<open>2 ^ 32\<close>
  headers, and theorems about the next block assume fewer. Loops are structural recursions, or
  functions with a measure (the reading loops of the store, the machine's loop over its program).
  Only the loop over heights that answers a peer may run for ever, with the largest height as its
  end; it is a partial function, and its theorem shows that it ends on every shorter chain. No fuel
  is used.

  \<^bold>\<open>What is not modelled.\<close> Flag parsing, and the sinks behind a logger. Apart from concurrent calls of
  \<open>AddBlock\<close> and the two steps of a tick, handlers run one after another, so races on memory that is shared without a lock are
  left out of them: the pool hands out its own slice of pending transactions, and the map of peers
  is read without its lock when blocks are requested. The nodes of the program are all made before
  one of them takes a turn, while \<open>main\<close> starts each before it makes the next; only the order
  of the records in the shared file could differ. That the reading loop reuses its buffer is part of
  \<open>readLoop\<close> in \<open>Transport\<close>; the events of a node and the conversation in \<open>Network\<close> take a payload as it was
  read, that is, decoded before the next read of its connection. Two messages that arrive in one
  read are one payload there, of which the decoder takes the first. Writes that are torn in the middle of a block are left out as well.
\<close>

end
